(* ===== verification/Prelude.thy ===== *)
theory Prelude imports Main "HOL-Library.Word" begin

text \<open>
  Shared vocabulary of the development: the named collections of simplification rules, the Go
  error values that travel between the packages of \<^verbatim>\<open>backend/internal\<close>, and the table operations every SQL statement of the program is written with, together with the
  lemmas about them that the component theories share.
\<close>

named_theorems table_simps \<open>reads of a table after a keyed update\<close>
named_theorems op_defs \<open>definitions of the operations of a component\<close>
named_theorems inv_defs \<open>definitions of the invariants\<close>

section \<open>Go error values\<close>

text \<open>
  The sentinel errors of the packages, errors built by \<^verbatim>\<open>fmt.Errorf\<close> (with \<^verbatim>\<open>%w\<close>: \<open>Wrapped\<close>, which
  keeps the text before and after the wrapped error; without: \<open>ErrMsg\<close>), a non-zero exit of a child
  process (\<open>ExitError\<close>, \<^verbatim>\<open>*exec.ExitError\<close>, with its code and text) and errors of drivers and of
  the operating system (\<open>ExternalError\<close>, with the text they print).
\<close>

datatype goerror =
    ErrJobNotFound | ErrInvalidState
  | ErrQueueFull | ErrQueueClosed
  | ErrUnsupportedLanguage
  | ErrProblemNotFound | ErrSubmissionNotFound
  | ErrOutputLimitExceeded
  | ContextCanceled | RedisNil
  | ExitError int string
  | ErrMsg string
  | Wrapped string goerror string
  | ExternalError string

text \<open>\<^verbatim>\<open>err.Error()\<close>\<close>

fun error_text :: "goerror \<Rightarrow> string" where
  "error_text ErrJobNotFound = ''job not found''"
| "error_text ErrInvalidState = ''invalid job state transition''"
| "error_text ErrQueueFull = ''execution queue is full''"
| "error_text ErrQueueClosed = ''execution queue is closed''"
| "error_text ErrUnsupportedLanguage = ''unsupported language''"
| "error_text ErrProblemNotFound = ''problem not found''"
| "error_text ErrSubmissionNotFound = ''submission not found''"
| "error_text ErrOutputLimitExceeded = ''output limit exceeded''"
| "error_text ContextCanceled = ''context canceled''"
| "error_text RedisNil = ''redis: nil''"
| "error_text (ExitError c t) = t"
| "error_text (ErrMsg m) = m"
| "error_text (Wrapped pre e post) = pre @ error_text e @ post"
| "error_text (ExternalError t) = t"

text \<open>\<^verbatim>\<open>errors.Is\<close> follows the chain of wrapped errors.\<close>

fun errors_is :: "goerror \<Rightarrow> goerror \<Rightarrow> bool" where
  "errors_is (Wrapped m e p) t \<longleftrightarrow> Wrapped m e p = t \<or> errors_is e t"
| "errors_is e t \<longleftrightarrow> e = t"

text \<open>\<^verbatim>\<open>errors.As(err, &exitErr)\<close>: the exit code of the first \<open>ExitError\<close> in the chain.\<close>

fun as_exit_error :: "goerror \<Rightarrow> int option" where
  "as_exit_error (ExitError c t) = Some c"
| "as_exit_error (Wrapped m e p) = as_exit_error e"
| "as_exit_error _ = None"

section \<open>Tables\<close>

text \<open>
  A table is a list of rows. \<^verbatim>\<open>UPDATE .. SET f WHERE p\<close> maps \<open>f\<close> over the rows that satisfy
  \<open>p\<close>; \<^verbatim>\<open>RowsAffected()\<close> is their number. The order of the list is the order in which the
  database happens to return rows where a query does not fix one.
\<close>

definition update_where :: "('r \<Rightarrow> bool) \<Rightarrow> ('r \<Rightarrow> 'r) \<Rightarrow> 'r list \<Rightarrow> 'r list" where
  "update_where p f t = map (\<lambda>r. if p r then f r else r) t"

definition rows_affected :: "('r \<Rightarrow> bool) \<Rightarrow> 'r list \<Rightarrow> nat" where
  "rows_affected p t = length (filter p t)"

definition find_row :: "('r \<Rightarrow> 'k) \<Rightarrow> 'k \<Rightarrow> 'r list \<Rightarrow> 'r option" where
  "find_row key k t = find (\<lambda>r. key r = k) t"

lemma find_row_Nil [simp]: "find_row key k [] = None"
  by (simp add: find_row_def)

lemma find_row_Cons [simp]:
  "find_row key k (r # t) = (if key r = k then Some r else find_row key k t)"
  by (simp add: find_row_def)

lemma find_row_SomeD: "find_row key k t = Some r \<Longrightarrow> r \<in> set t \<and> key r = k"
  by (induction t) (auto split: if_splits)

lemma find_row_None_iff: "find_row key k t = None \<longleftrightarrow> k \<notin> key ` set t"
  by (induction t) auto

lemma find_row_distinct:
  "distinct (map key t) \<Longrightarrow> r \<in> set t \<Longrightarrow> find_row key (key r) t = Some r"
  by (induction t) (auto simp: image_iff)

lemma find_row_append:
  "find_row key k (t @ u) = (case find_row key k t of None \<Rightarrow> find_row key k u | Some r \<Rightarrow> Some r)"
  by (induction t) auto

lemma set_update_where: "r \<in> set (update_where p f t) \<longleftrightarrow> (\<exists>q \<in> set t. r = (if p q then f q else q))"
  by (auto simp: update_where_def image_iff)

lemma update_where_invariant:
  assumes "\<forall>r \<in> set t. I r" and "\<And>r. p r \<Longrightarrow> I r \<Longrightarrow> I (f r)"
  shows "\<forall>r \<in> set (update_where p f t). I r"
  using assms by (auto simp: update_where_def)

lemma update_where_keys [table_simps]:
  "(\<And>r. key (f r) = key r) \<Longrightarrow> map key (update_where p f t) = map key t"
  by (induction t) (auto simp: update_where_def)

lemma find_row_update_where [table_simps]:
  "(\<And>r. key (f r) = key r) \<Longrightarrow>
   find_row key k (update_where p f t) =
     map_option (\<lambda>r. if p r then f r else r) (find_row key k t)"
  by (induction t) (auto simp: update_where_def)

lemma update_where_none: "\<not> (\<exists>r \<in> set t. p r) \<Longrightarrow> update_where p f t = t"
  by (induction t) (auto simp: update_where_def)

lemma rows_affected_0_iff [table_simps]: "rows_affected p t = 0 \<longleftrightarrow> \<not> (\<exists>r \<in> set t. p r)"
  by (auto simp: rows_affected_def filter_empty_conv)

text \<open>A statement keyed on the primary key touches at most one row.\<close>

lemma rows_affected_keyed:
  assumes "distinct (map key t)"
  shows "rows_affected (\<lambda>r. key r = k \<and> p r) t =
    (case find_row key k t of None \<Rightarrow> 0 | Some r \<Rightarrow> if p r then 1 else 0)"
  using assms
proof (induction t)
  case Nil
  then show ?case by (simp add: rows_affected_def)
next
  case (Cons r t)
  then have IH: "rows_affected (\<lambda>r. key r = k \<and> p r) t =
      (case find_row key k t of None \<Rightarrow> 0 | Some r \<Rightarrow> if p r then 1 else 0)" by simp
  show ?case
  proof (cases "key r = k")
    case True
    with Cons.prems have "find_row key k t = None" by (auto simp: find_row_None_iff)
    with True IH show ?thesis by (simp add: rows_affected_def)
  next
    case False
    with IH show ?thesis by (simp add: rows_affected_def)
  qed
qed

end
