(* ===== verification/Go_Text.thy ===== *)
theory Go_Text imports Prelude begin

text \<open>
  The part of Go's \<^verbatim>\<open>strings\<close>, \<^verbatim>\<open>unicode/utf8\<close> and \<^verbatim>\<open>strconv\<close> packages that the program calls. A Go
  string is a byte sequence; a HOL \<open>char\<close> is one byte. White space is Unicode white space in its
  UTF-8 encoding, as \<^verbatim>\<open>strings.TrimSpace\<close> and \<^verbatim>\<open>strings.Fields\<close> see it.
\<close>

section \<open>Searching, splitting and joining\<close>

definition newline :: char where
  "newline = CHR 0x0A"

definition has_prefix :: "string \<Rightarrow> string \<Rightarrow> bool" where
  "has_prefix p s \<longleftrightarrow> take (length p) s = p"

definition has_suffix :: "string \<Rightarrow> string \<Rightarrow> bool" where
  "has_suffix p s \<longleftrightarrow> has_prefix (rev p) (rev s)"

fun contains_sub :: "string \<Rightarrow> string \<Rightarrow> bool" where
  "contains_sub p [] \<longleftrightarrow> p = []"
| "contains_sub p (c # s) \<longleftrightarrow> has_prefix p (c # s) \<or> contains_sub p s"

text \<open>\<^verbatim>\<open>strings.ReplaceAll(s, "\r\n", "\n")\<close>\<close>

fun replace_crlf :: "string \<Rightarrow> string" where
  "replace_crlf (a # b # s) =
     (if a = CHR 0x0D \<and> b = newline then newline # replace_crlf s else a # replace_crlf (b # s))"
| "replace_crlf s = s"

text \<open>\<^verbatim>\<open>strings.Split(s, sep)\<close> for a one-byte separator: never the empty list.\<close>

fun split_on :: "char \<Rightarrow> string \<Rightarrow> string list" where
  "split_on sep [] = [[]]"
| "split_on sep (c # s) =
     (if c = sep then [] # split_on sep s
      else (case split_on sep s of [] \<Rightarrow> [[c]] | l # ls \<Rightarrow> (c # l) # ls))"

text \<open>\<^verbatim>\<open>strings.Join(lines, sep)\<close>\<close>

fun join_with :: "char \<Rightarrow> string list \<Rightarrow> string" where
  "join_with sep [] = []"
| "join_with sep [l] = l"
| "join_with sep (l # ls) = l @ sep # join_with sep ls"

text \<open>\<^verbatim>\<open>strings.TrimRight(s, cutset)\<close> for an ASCII cutset.\<close>

definition trim_right :: "char list \<Rightarrow> string \<Rightarrow> string" where
  "trim_right cs s = rev (dropWhile (\<lambda>c. c \<in> set cs) (rev s))"

lemma split_on_nonempty [simp]: "split_on sep s \<noteq> []"
  by (cases s) (auto split: list.splits)

lemma split_on_free: "\<forall>l \<in> set (split_on sep s). sep \<notin> set l"
  by (induction s) (auto split: list.splits)

lemma join_split [simp]: "join_with sep (split_on sep s) = s"
proof (induction s)
  case Nil
  then show ?case by simp
next
  case (Cons c s)
  obtain l ls where s: "split_on sep s = l # ls"
    using split_on_nonempty [of sep s] by (cases "split_on sep s") auto
  with Cons show ?case by (cases ls) (auto simp: neq_Nil_conv)
qed

lemma split_on_append_free: "sep \<notin> set l \<Longrightarrow> split_on sep (l @ sep # s) = l # split_on sep s"
  by (induction l) auto

lemma split_on_no_sep: "sep \<notin> set l \<Longrightarrow> split_on sep l = [l]"
  by (induction l) auto

lemma split_join: "ls \<noteq> [] \<Longrightarrow> \<forall>l \<in> set ls. sep \<notin> set l \<Longrightarrow> split_on sep (join_with sep ls) = ls"
  by (induction sep ls rule: join_with.induct) (auto simp: split_on_append_free split_on_no_sep)

lemma trim_right_idem [simp]: "trim_right cs (trim_right cs s) = trim_right cs s"
  by (simp add: trim_right_def dropWhile_idem comp_def)

lemma set_trim_right: "set (trim_right cs s) \<subseteq> set s"
  using set_dropWhileD by (fastforce simp: trim_right_def)

lemma trim_right_append_cut: "set ws \<subseteq> set cs \<Longrightarrow> trim_right cs (s @ ws) = trim_right cs s"
  by (induction ws rule: rev_induct) (auto simp: trim_right_def)

lemma trim_right_Nil [simp]: "trim_right cs [] = []"
  by (simp add: trim_right_def)

section \<open>White space\<close>

definition ascii_space :: "char \<Rightarrow> bool" where
  "ascii_space c \<longleftrightarrow> c = CHR 0x20 \<or> c = CHR 0x0A \<or> c = CHR 0x09 \<or> c = CHR 0x0B \<or> c = CHR 0x0C \<or> c = CHR 0x0D"

text \<open>U+1680, U+2000 .. U+200A, U+2028, U+2029, U+202F, U+205F, U+3000\<close>

definition wide_space :: "char \<Rightarrow> char \<Rightarrow> char \<Rightarrow> bool" where
  "wide_space a b c \<longleftrightarrow>
     a = CHR 0xE1 \<and> b = CHR 0x9A \<and> c = CHR 0x80
   \<or> a = CHR 0xE2 \<and> b = CHR 0x80 \<and>
       c \<in> {CHR 0x80, CHR 0x81, CHR 0x82, CHR 0x83, CHR 0x84, CHR 0x85, CHR 0x86, CHR 0x87, CHR 0x88,
             CHR 0x89, CHR 0x8A, CHR 0xA8, CHR 0xA9, CHR 0xAF}
   \<or> a = CHR 0xE2 \<and> b = CHR 0x81 \<and> c = CHR 0x9F
   \<or> a = CHR 0xE3 \<and> b = CHR 0x80 \<and> c = CHR 0x80"

text \<open>
  The number of bytes of the white space rune at the head of a string, 0 if there is none. The
  lead byte of such a rune is never a continuation byte, so looking for it at every byte finds
  the same runes as decoding from the start of the string.
\<close>

fun space_width :: "string \<Rightarrow> nat" where
  "space_width [] = 0"
| "space_width (a # s) =
     (if ascii_space a then 1
      else case s of
        b # t \<Rightarrow>
          (if a = CHR 0xC2 \<and> (b = CHR 0x85 \<or> b = CHR 0xA0) then 2
           else case t of
             c # u \<Rightarrow> (if wide_space a b c then 3 else 0)
           | [] \<Rightarrow> 0)
      | [] \<Rightarrow> 0)"

lemma space_width_le: "space_width s \<le> length s"
  by (cases s) (auto split: list.splits)

function trim_left_space :: "string \<Rightarrow> string" where
  "trim_left_space s = (if space_width s = 0 then s else trim_left_space (drop (space_width s) s))"
  by pat_completeness auto
termination
proof (relation "measure length")
  fix s assume "space_width s \<noteq> 0"
  then show "(drop (space_width s) s, s) \<in> measure length" using space_width_le [of s] by auto
qed simp

declare trim_left_space.simps [simp del]

definition all_space :: "string \<Rightarrow> bool" where
  "all_space s \<longleftrightarrow> trim_left_space s = []"

fun trim_right_space :: "string \<Rightarrow> string" where
  "trim_right_space [] = []"
| "trim_right_space (c # s) = (if all_space (c # s) then [] else c # trim_right_space s)"

definition trim_space :: "string \<Rightarrow> string" where
  "trim_space s = trim_right_space (trim_left_space s)"

lemma trim_left_space_Nil [simp]: "trim_left_space [] = []"
  by (subst trim_left_space.simps) simp

lemma trim_left_space_idem: "trim_left_space (trim_left_space s) = trim_left_space s"
proof (induction s rule: trim_left_space.induct)
  case (1 s)
  show ?case
  proof (cases "space_width s = 0")
    case True
    then show ?thesis by (simp add: trim_left_space.simps [of s])
  next
    case False
    with 1 show ?thesis by (simp add: trim_left_space.simps [of s])
  qed
qed

text \<open>\<^verbatim>\<open>strings.TrimSpace(s) == ""\<close> exactly when the string is white space.\<close>

lemma trim_space_empty_iff: "trim_space s = [] \<longleftrightarrow> all_space s"
proof
  assume "trim_space s = []"
  then show "all_space s"
    using trim_left_space_idem [of s]
    by (cases "trim_left_space s") (auto simp: trim_space_def all_space_def split: if_splits)
next
  assume "all_space s"
  then show "trim_space s = []" by (simp add: trim_space_def all_space_def)
qed

text \<open>\<^verbatim>\<open>strings.Fields(s)\<close>: the maximal runs of non-space, in order. \<open>acc\<close> is the current run, reversed.\<close>

definition flush_field :: "string \<Rightarrow> string list" where
  "flush_field acc = (if acc = [] then [] else [rev acc])"

function string_fields_acc :: "string \<Rightarrow> string \<Rightarrow> string list" where
  "string_fields_acc acc [] = flush_field acc"
| "string_fields_acc acc (c # s) =
     (if space_width (c # s) = 0 then string_fields_acc (c # acc) s
      else flush_field acc @ string_fields_acc [] (drop (space_width (c # s)) (c # s)))"
  by pat_completeness auto
termination
proof (relation "measure (\<lambda>(acc, s). length s)")
  fix acc :: string and c s assume "space_width (c # s) \<noteq> 0"
  then show "(([], drop (space_width (c # s)) (c # s)), acc, c # s) \<in> measure (\<lambda>(acc, s). length s)"
    by simp
qed auto

declare string_fields_acc.simps(2) [simp del]

definition string_fields :: "string \<Rightarrow> string list" where
  "string_fields s = string_fields_acc [] s"

lemma string_fields_acc_nonempty: "\<forall>f \<in> set (string_fields_acc acc s). f \<noteq> []"
  by (induction acc s rule: string_fields_acc.induct) (auto simp: flush_field_def string_fields_acc.simps)

lemma string_fields_nonempty: "f \<in> set (string_fields s) \<Longrightarrow> f \<noteq> []"
  using string_fields_acc_nonempty by (auto simp: string_fields_def)

section \<open>UTF-8 validity\<close>

definition cont_byte :: "char \<Rightarrow> bool" where
  "cont_byte c \<longleftrightarrow> 0x80 \<le> (of_char c :: nat) \<and> (of_char c :: nat) \<le> 0xBF"

definition byte_in :: "nat \<Rightarrow> nat \<Rightarrow> char \<Rightarrow> bool" where
  "byte_in lo hi c \<longleftrightarrow> lo \<le> (of_char c :: nat) \<and> (of_char c :: nat) \<le> hi"

text \<open>
  \<^verbatim>\<open>utf8.DecodeRuneInString\<close>: the width of the valid rune at the head, 0 where it decodes to
  \<^verbatim>\<open>RuneError\<close> of width 1 (or the string is empty).
\<close>

definition second_byte :: "char \<Rightarrow> char \<Rightarrow> bool" where
  "second_byte a b \<longleftrightarrow>
     (if byte_in 0xE0 0xE0 a then byte_in 0xA0 0xBF b
      else if byte_in 0xED 0xED a then byte_in 0x80 0x9F b
      else if byte_in 0xF0 0xF0 a then byte_in 0x90 0xBF b
      else if byte_in 0xF4 0xF4 a then byte_in 0x80 0x8F b
      else cont_byte b)"

fun rune_width :: "string \<Rightarrow> nat" where
  "rune_width (a # s) =
     (if byte_in 0 0x7F a then 1
      else if byte_in 0xC2 0xDF a then
        (case s of b # _ \<Rightarrow> if cont_byte b then 2 else 0 | _ \<Rightarrow> 0)
      else if byte_in 0xE0 0xEF a then
        (case s of b # c # _ \<Rightarrow> if second_byte a b \<and> cont_byte c then 3 else 0 | _ \<Rightarrow> 0)
      else if byte_in 0xF0 0xF4 a then
        (case s of b # c # d # _ \<Rightarrow> if second_byte a b \<and> cont_byte c \<and> cont_byte d then 4 else 0 | _ \<Rightarrow> 0)
      else 0)"
| "rune_width [] = 0"

lemma rune_width_le: "rune_width s \<le> length s"
  by (cases s) (auto split: list.splits)

lemma rune_width_append: "rune_width s \<noteq> 0 \<Longrightarrow> rune_width (take (rune_width s) s @ t) = rune_width s"
  by (cases s) (auto split: list.splits if_splits)

declare rune_width.simps(1) [simp del]

text \<open>
  What a string is after a round trip through \<^verbatim>\<open>encoding/json\<close>: every byte that is not part of
  a valid rune becomes U+FFFD.
\<close>

definition replacement_char :: string where
  "replacement_char = [CHR 0xEF, CHR 0xBF, CHR 0xBD]"

function to_valid_utf8 :: "string \<Rightarrow> string" where
  "to_valid_utf8 [] = []"
| "to_valid_utf8 (c # s) =
     (let w = rune_width (c # s)
      in if w = 0 then replacement_char @ to_valid_utf8 s
         else take w (c # s) @ to_valid_utf8 (drop w (c # s)))"
  by pat_completeness auto
termination by (relation "measure length") auto

declare to_valid_utf8.simps(2) [simp del]

function valid_utf8 :: "string \<Rightarrow> bool" where
  "valid_utf8 [] \<longleftrightarrow> True"
| "valid_utf8 (c # s) =
     (if rune_width (c # s) = 0 then False else valid_utf8 (drop (rune_width (c # s)) (c # s)))"
  by pat_completeness auto
termination by (relation "measure length") auto

declare valid_utf8.simps(2) [simp del]

lemma to_valid_utf8_id: "valid_utf8 s \<Longrightarrow> to_valid_utf8 s = s"
proof (induction s rule: valid_utf8.induct)
  case 1
  then show ?case by simp
next
  case (2 c s)
  then have w: "rune_width (c # s) \<noteq> 0" and v: "valid_utf8 (drop (rune_width (c # s)) (c # s))"
    by (auto simp: valid_utf8.simps(2) split: if_splits)
  from 2 w v show ?case by (simp add: to_valid_utf8.simps(2) Let_def)
qed

lemma valid_utf8_append_rune:
  assumes "rune_width s \<noteq> 0" and "valid_utf8 t"
  shows "valid_utf8 (take (rune_width s) s @ t)"
proof -
  obtain c s' where s: "s = c # s'" using assms(1) by (cases s) auto
  let ?u = "take (rune_width s) s @ t"
  obtain u where u: "?u = c # u" using assms(1) s by (cases "rune_width s") auto
  have w: "rune_width ?u = rune_width s" by (rule rune_width_append [OF assms(1)])
  have "drop (rune_width ?u) ?u = t" using rune_width_le [of s] by (simp add: w)
  with u w assms show ?thesis by (metis valid_utf8.simps(2))
qed

lemma valid_utf8_replacement: "valid_utf8 t \<Longrightarrow> valid_utf8 (replacement_char @ t)"
  by (simp add: replacement_char_def valid_utf8.simps(2) rune_width.simps byte_in_def cont_byte_def second_byte_def)

lemma valid_to_valid_utf8: "valid_utf8 (to_valid_utf8 s)"
proof (induction s rule: to_valid_utf8.induct)
  case 1
  then show ?case by simp
next
  case (2 c s)
  show ?case
  proof (cases "rune_width (c # s) = 0")
    case True
    with 2 show ?thesis by (simp add: to_valid_utf8.simps(2) Let_def valid_utf8_replacement)
  next
    case False
    with 2 have "valid_utf8 (to_valid_utf8 (drop (rune_width (c # s)) (c # s)))" by blast
    with False show ?thesis
      by (simp add: to_valid_utf8.simps(2) Let_def valid_utf8_append_rune)
  qed
qed

lemma to_valid_utf8_idem [simp]: "to_valid_utf8 (to_valid_utf8 s) = to_valid_utf8 s"
  by (rule to_valid_utf8_id [OF valid_to_valid_utf8])

section \<open>Decimal printing\<close>

text \<open>\<^verbatim>\<open>strconv.FormatInt(n, 10)\<close> and \<^verbatim>\<open>%d\<close>\<close>

definition digit_char :: "nat \<Rightarrow> char" where
  "digit_char d = char_of (48 + d)"

fun dec_of_nat :: "nat \<Rightarrow> string" where
  "dec_of_nat n = (if n < 10 then [digit_char n] else dec_of_nat (n div 10) @ [digit_char (n mod 10)])"

declare dec_of_nat.simps [simp del]

definition dec_of_int :: "int \<Rightarrow> string" where
  "dec_of_int i = (if i < 0 then CHR ''-'' # dec_of_nat (nat (- i)) else dec_of_nat (nat i))"

end
