(* ===== verification/Domain.thy ===== *)
theory Domain imports Go_Text begin

text \<open>
  The data of \<^verbatim>\<open>internal/domain\<close>: languages, execution requests and results, problems, test cases
  and submissions. String types whose values the code alone produces are datatypes; string types
  a client or a database row supplies (\<open>Language\<close>, \<open>ComparisonMode\<close>, \<open>ProblemStatus\<close>,
  \<open>TestCaseVisibility\<close>) stay strings, with the constants of the source.
\<close>

section \<open>Languages, requests and results (execution.go)\<close>

type_synonym language = string

definition LanguageJava :: language where "LanguageJava = ''java''"
definition LanguagePython :: language where "LanguagePython = ''python''"
definition LanguageGo :: language where "LanguageGo = ''go''"
definition LanguageCpp :: language where "LanguageCpp = ''cpp''"
definition LanguageSql :: language where "LanguageSql = ''sql''"

lemmas language_defs = LanguageJava_def LanguagePython_def LanguageGo_def LanguageCpp_def LanguageSql_def

datatype execution_status =
    StatusSuccess | StatusCompilationError | StatusCompilationTimeout | StatusRuntimeError
  | StatusTimeLimitExceeded | StatusMemoryLimitExceeded | StatusOutputLimitExceeded
  | StatusInternalError
  | StatusQueued | StatusRunning | StatusDeadLetter

text \<open>A Go slice: \<open>None\<close> is the nil slice, which JSON prints as \<^verbatim>\<open>null\<close>.\<close>

type_synonym 'a slice = "'a list option"

definition elems :: "'a slice \<Rightarrow> 'a list" where
  "elems s = (case s of None \<Rightarrow> [] | Some xs \<Rightarrow> xs)"

lemma elems_simps [simp]: "elems None = []" "elems (Some xs) = xs"
  by (simp_all add: elems_def)

text \<open>\<^verbatim>\<open>append(s, x)\<close>\<close>

definition append_slice :: "'a slice \<Rightarrow> 'a \<Rightarrow> 'a slice" where
  "append_slice s x = Some (elems s @ [x])"

text \<open>\<^verbatim>\<open>append([]T(nil), s...)\<close>: nil when there is nothing to append.\<close>

definition copy_slice :: "'a slice \<Rightarrow> 'a slice" where
  "copy_slice s = (if elems s = [] then None else Some (elems s))"

lemma elems_copy_slice [simp]: "elems (copy_slice s) = elems s"
  by (simp add: copy_slice_def)

record job_request =
  jr_Language :: language
  jr_SourceCode :: string
  jr_Inputs :: "string slice"

record execution_request =
  rq_Language :: language
  rq_SourceCode :: string
  rq_Input :: string

record execution_result =
  rs_Status :: execution_status
  rs_Stdout :: string
  rs_Stderr :: string
  rs_ExitCode :: int

text \<open>The zero value \<^verbatim>\<open>domain.ExecutionResult{}\<close> fills the fields a literal leaves out.\<close>

definition result_of :: "execution_status \<Rightarrow> string \<Rightarrow> string \<Rightarrow> int \<Rightarrow> execution_result" where
  "result_of st out err code = \<lparr>rs_Status = st, rs_Stdout = out, rs_Stderr = err, rs_ExitCode = code\<rparr>"

lemma result_of_sel [simp]:
  "rs_Status (result_of st out err code) = st" "rs_Stdout (result_of st out err code) = out"
  "rs_Stderr (result_of st out err code) = err" "rs_ExitCode (result_of st out err code) = code"
  by (simp_all add: result_of_def)

section \<open>JSON columns\<close>

text \<open>
  A JSONB value that holds an array: \<^verbatim>\<open>json.Marshal\<close> of a nil slice is \<^verbatim>\<open>null\<close>, and
  \<^verbatim>\<open>json.Unmarshal\<close> of \<^verbatim>\<open>null\<close> into a nil slice leaves it nil. Strings come back as valid UTF-8.
\<close>

datatype 'a jsonb = JNull | JArray "'a list"

fun marshal :: "('a \<Rightarrow> 'a) \<Rightarrow> 'a slice \<Rightarrow> 'a jsonb" where
  "marshal enc None = JNull"
| "marshal enc (Some xs) = JArray (map enc xs)"

fun unmarshal :: "'a jsonb \<Rightarrow> 'a slice" where
  "unmarshal JNull = None"
| "unmarshal (JArray xs) = Some xs"

definition enc_result :: "execution_result \<Rightarrow> execution_result" where
  "enc_result r = r\<lparr>rs_Stdout := to_valid_utf8 (rs_Stdout r), rs_Stderr := to_valid_utf8 (rs_Stderr r)\<rparr>"

lemma unmarshal_marshal: "unmarshal (marshal enc s) = map_option (map enc) s"
  by (cases s) auto

lemma enc_result_idem [simp]: "enc_result (enc_result r) = enc_result r"
  by (simp add: enc_result_def)

section \<open>Problems and test cases (problem.go, testcase.go)\<close>

definition ProblemStatusDraft :: string where "ProblemStatusDraft = ''DRAFT''"
definition ProblemStatusPublished :: string where "ProblemStatusPublished = ''PUBLISHED''"
definition ProblemStatusArchived :: string where "ProblemStatusArchived = ''ARCHIVED''"

definition ComparisonModeExact :: string where "ComparisonModeExact = ''EXACT''"
definition ComparisonModeWhitespace :: string where "ComparisonModeWhitespace = ''NORMALIZED_WHITESPACE''"
definition ComparisonModeFloat :: string where "ComparisonModeFloat = ''FLOAT_EPSILON''"

definition VisibilityPublic :: string where "VisibilityPublic = ''PUBLIC''"
definition VisibilityHidden :: string where "VisibilityHidden = ''HIDDEN''"

lemmas mode_defs = ComparisonModeExact_def ComparisonModeWhitespace_def ComparisonModeFloat_def

text \<open>The type \<open>'f\<close> is that of \<^verbatim>\<open>float64\<close> values.\<close>

record 'f problem =
  pb_ID :: string
  pb_Title :: string
  pb_Slug :: string
  pb_Description :: string
  pb_InputDescription :: string
  pb_OutputDescription :: string
  pb_Constraints :: string
  pb_TimeLimitMs :: int
  pb_MemoryLimitMB :: int
  pb_ComparisonMode :: string
  pb_FloatEpsilon :: 'f
  pb_Status :: string
  pb_CreatedAt :: int

record test_case =
  tc_ID :: string
  tc_ProblemID :: string
  tc_Input :: string
  tc_ExpectedOutput :: string
  tc_Visibility :: string
  tc_SortOrder :: int
  tc_CreatedAt :: int

section \<open>Submissions (submission.go)\<close>

datatype submission_status =
  SubmissionStatusQueued | SubmissionStatusRunning | SubmissionStatusCompleted | SubmissionStatusFailed

datatype verdict =
    VerdictAccepted | VerdictWrongAnswer | VerdictTimeLimitExceeded | VerdictMemoryLimitExceeded
  | VerdictRuntimeError | VerdictCompilationError | VerdictOutputLimitExceeded
  | VerdictInternalError | VerdictPending

record submission =
  sb_ID :: string
  sb_UserID :: string
  sb_ProblemID :: string
  sb_Language :: language
  sb_SourceCode :: string
  sb_Status :: submission_status
  sb_Verdict :: verdict
  sb_ExecutionTimeMs :: int
  sb_MemoryUsedBytes :: int
  sb_PassedTestCases :: int
  sb_TotalTestCases :: int
  sb_AITimeComplexity :: string
  sb_AISpaceComplexity :: string
  sb_AIFeedback :: string
  sb_CreatedAt :: int
  sb_StartedAt :: "int option"
  sb_CompletedAt :: "int option"

end
