(* ===== verification/Go_Float.thy ===== *)
theory Go_Float imports Go_Text Complex_Main begin

text \<open>
  Go's \<^verbatim>\<open>float64\<close> as the program uses it: \<^verbatim>\<open>strconv.ParseFloat(s, 64)\<close>, subtraction, \<^verbatim>\<open>math.Abs\<close>
  and \<open>>\<close>. A finite value is the rational number it denotes (the two zeros, which no operation
  here tells apart, are one); results are rounded to nearest, ties to even, with 53 bits of
  precision and the exponent range of binary64.
\<close>

datatype f64 = F_NaN | F_Inf bool \<comment> \<open>negative\<close> | F_Fin rat

section \<open>Rounding\<close>

function bit_len :: "int \<Rightarrow> int" where
  "bit_len n = (if n \<le> 0 then 0 else 1 + bit_len (n div 2))"
  by pat_completeness auto
termination by (relation "measure nat") auto

declare bit_len.simps [simp del]

definition pow2 :: "int \<Rightarrow> rat" where
  "pow2 e = (if 0 \<le> e then 2 ^ nat e else 1 / 2 ^ nat (- e))"

definition floor_log2 :: "int \<Rightarrow> int \<Rightarrow> int" where
  "floor_log2 a b =
     (let l = bit_len a - bit_len b
      in if of_int a < of_int b * pow2 l then l - 1 else l)"

definition round_half_even :: "rat \<Rightarrow> int" where
  "round_half_even q =
     (let f = \<lfloor>q\<rfloor>; d = q - of_int f
      in if d < 1 / 2 then f else if 1 / 2 < d then f + 1 else if even f then f else f + 1)"

text \<open>The rounded value of a positive rational; \<open>None\<close> where it overflows.\<close>

definition round_pos :: "rat \<Rightarrow> rat option" where
  "round_pos q =
     (let (a, b) = quotient_of q;
          e = max (floor_log2 a b - 52) (- 1074);
          v = of_int (round_half_even (q / pow2 e)) * pow2 e
      in if v < pow2 1024 then Some v else None)"

definition round64 :: "rat \<Rightarrow> f64" where
  "round64 q =
     (if q = 0 then F_Fin 0
      else if 0 < q then (case round_pos q of Some v \<Rightarrow> F_Fin v | None \<Rightarrow> F_Inf False)
      else (case round_pos (- q) of Some v \<Rightarrow> F_Fin (- v) | None \<Rightarrow> F_Inf True))"

section \<open>Arithmetic\<close>

fun f64_neg :: "f64 \<Rightarrow> f64" where
  "f64_neg F_NaN = F_NaN"
| "f64_neg (F_Inf n) = F_Inf (\<not> n)"
| "f64_neg (F_Fin x) = F_Fin (- x)"

fun f64_sub :: "f64 \<Rightarrow> f64 \<Rightarrow> f64" where
  "f64_sub F_NaN y = F_NaN"
| "f64_sub x F_NaN = F_NaN"
| "f64_sub (F_Inf n) (F_Inf m) = (if n = m then F_NaN else F_Inf n)"
| "f64_sub (F_Inf n) (F_Fin y) = F_Inf n"
| "f64_sub (F_Fin x) (F_Inf m) = F_Inf (\<not> m)"
| "f64_sub (F_Fin x) (F_Fin y) = round64 (x - y)"

fun f64_abs :: "f64 \<Rightarrow> f64" where
  "f64_abs F_NaN = F_NaN"
| "f64_abs (F_Inf n) = F_Inf False"
| "f64_abs (F_Fin x) = F_Fin \<bar>x\<bar>"

text \<open>\<open>x > y\<close>; every comparison with NaN is false.\<close>

fun f64_gt :: "f64 \<Rightarrow> f64 \<Rightarrow> bool" where
  "f64_gt F_NaN y \<longleftrightarrow> False"
| "f64_gt x F_NaN \<longleftrightarrow> False"
| "f64_gt (F_Inf n) (F_Inf m) \<longleftrightarrow> \<not> n \<and> m"
| "f64_gt (F_Inf n) (F_Fin y) \<longleftrightarrow> \<not> n"
| "f64_gt (F_Fin x) (F_Inf m) \<longleftrightarrow> m"
| "f64_gt (F_Fin x) (F_Fin y) \<longleftrightarrow> y < x"

lemma round64_neg: "round64 (- q) = f64_neg (round64 q)"
  by (auto simp: round64_def split: option.splits)

lemma f64_sub_swap: "f64_sub y x = f64_neg (f64_sub x y)"
proof (induction x y rule: f64_sub.induct)
  case (6 x y)
  have "y - x = - (x - y)" by simp
  then show ?case by (simp only: f64_sub.simps round64_neg)
next
  case (1 y)
  then show ?case by (cases y) simp_all
qed auto

lemma f64_abs_neg [simp]: "f64_abs (f64_neg x) = f64_abs x"
  by (cases x) simp_all

lemma f64_abs_sub_swap: "f64_abs (f64_sub y x) = f64_abs (f64_sub x y)"
  by (simp add: f64_sub_swap [of y x])

lemma f64_sub_self: "f64_sub x x = F_NaN \<or> f64_sub x x = F_Fin 0"
  by (cases x) (auto simp: round64_def)

lemma f64_gt_NaN [simp]: "\<not> f64_gt F_NaN e" "\<not> f64_gt x F_NaN"
  by (cases x; simp)+

lemma f64_sub_NaN [simp]: "f64_sub x F_NaN = F_NaN"
  by (cases x) simp_all

section \<open>strconv.ParseFloat\<close>

definition lower_letter :: "char \<Rightarrow> char" where
  "lower_letter c = (if byte_in 65 90 c then char_of ((of_char c :: nat) + 32) else c)"

definition dec_digit :: "char \<Rightarrow> int option" where
  "dec_digit c = (if byte_in 48 57 c then Some (of_char c - 48) else None)"

definition hex_digit :: "char \<Rightarrow> int option" where
  "hex_digit c =
     (if byte_in 48 57 c then Some (of_char c - 48)
      else if byte_in 97 102 c then Some (of_char c - 87)
      else if byte_in 65 70 c then Some (of_char c - 55)
      else None)"

text \<open>\<^verbatim>\<open>special\<close>: \<^verbatim>\<open>inf\<close>, \<^verbatim>\<open>infinity\<close> with an optional sign, \<^verbatim>\<open>nan\<close> without, any case.\<close>

definition parse_special :: "string \<Rightarrow> f64 option" where
  "parse_special s =
     (let t = map lower_letter s
      in if t = ''nan'' then Some F_NaN
         else if t = ''inf'' \<or> t = ''infinity'' \<or> t = ''+inf'' \<or> t = ''+infinity'' then Some (F_Inf False)
         else if t = ''-inf'' \<or> t = ''-infinity'' then Some (F_Inf True)
         else None)"

text \<open>
  \<^verbatim>\<open>readFloat\<close>. Mantissa: the digits read so far as a number, whether the point and a digit have
  been seen, and how many digits follow the point.
\<close>

fun scan_mantissa :: "bool \<Rightarrow> int \<Rightarrow> bool \<Rightarrow> bool \<Rightarrow> nat \<Rightarrow> string \<Rightarrow> (int \<times> bool \<times> nat) \<times> string" where
  "scan_mantissa hex m dot dig fr [] = ((m, dig, fr), [])"
| "scan_mantissa hex m dot dig fr (c # s) =
     (if c = CHR ''_'' then scan_mantissa hex m dot dig fr s
      else if c = CHR ''.'' then
        (if dot then ((m, dig, fr), c # s) else scan_mantissa hex m True dig fr s)
      else (case (if hex then hex_digit c else dec_digit c) of
              Some d \<Rightarrow> scan_mantissa hex (m * (if hex then 16 else 10) + d) dot True (if dot then Suc fr else fr) s
            | None \<Rightarrow> ((m, dig, fr), c # s)))"

text \<open>The exponent's digits saturate as in the source (\<^verbatim>\<open>if e < 10000\<close>).\<close>

fun scan_exponent :: "int \<Rightarrow> string \<Rightarrow> int \<times> string" where
  "scan_exponent e [] = (e, [])"
| "scan_exponent e (c # s) =
     (if c = CHR ''_'' then scan_exponent e s
      else (case dec_digit c of
              Some d \<Rightarrow> scan_exponent (if e < 10000 then e * 10 + d else e) s
            | None \<Rightarrow> (e, c # s)))"

text \<open>\<^verbatim>\<open>underscoreOK\<close> on the part after the sign and the base prefix; \<open>saw\<close> is the last class seen.\<close>

fun underscore_scan :: "bool \<Rightarrow> char \<Rightarrow> string \<Rightarrow> bool" where
  "underscore_scan hex saw [] \<longleftrightarrow> saw \<noteq> CHR ''_''"
| "underscore_scan hex saw (c # s) \<longleftrightarrow>
     (if (if hex then hex_digit c \<noteq> None else dec_digit c \<noteq> None) then underscore_scan hex (CHR ''0'') s
      else if c = CHR ''_'' then saw = CHR ''0'' \<and> underscore_scan hex (CHR ''_'') s
      else saw \<noteq> CHR ''_'' \<and> underscore_scan hex (CHR ''!'') s)"

definition strip_sign :: "string \<Rightarrow> bool \<times> string" where
  "strip_sign s =
     (case s of c # t \<Rightarrow> (if c = CHR ''+'' then (False, t) else if c = CHR ''-'' then (True, t) else (False, s))
      | [] \<Rightarrow> (False, []))"

definition underscore_ok :: "string \<Rightarrow> bool" where
  "underscore_ok s =
     (let t = snd (strip_sign s)
      in case t of
           a # b # u \<Rightarrow>
             (if a = CHR ''0'' \<and> lower_letter b \<in> {CHR ''b'', CHR ''o'', CHR ''x''}
              then underscore_scan (lower_letter b = CHR ''x'') (CHR ''0'') u
              else underscore_scan False (CHR ''^'') t)
         | _ \<Rightarrow> underscore_scan False (CHR ''^'') t)"

definition read_exponent :: "string \<Rightarrow> int option" where
  "read_exponent s =
     (let (neg, t) = strip_sign s
      in case t of
           c # _ \<Rightarrow>
             (if dec_digit c = None then None
              else (case scan_exponent 0 t of
                      (e, []) \<Rightarrow> Some (if neg then - e else e)
                    | _ \<Rightarrow> None))
         | [] \<Rightarrow> None)"

definition parse_number :: "string \<Rightarrow> rat option" where
  "parse_number s =
     (let (neg, t) = strip_sign s;
          hex = (length t > 2 \<and> t ! 0 = CHR ''0'' \<and> lower_letter (t ! 1) = CHR ''x'');
          ((m, dig, fr), rest) = scan_mantissa hex 0 False False 0 (if hex then drop 2 t else t);
          base = (if hex then 16 else 10 :: rat);
          mant = (if neg then - of_int m else of_int m) / base ^ fr
      in if \<not> dig \<or> CHR ''_'' \<in> set s \<and> \<not> underscore_ok s then None
         else case rest of
             [] \<Rightarrow> (if hex then None else Some mant)
           | c # u \<Rightarrow>
               (if lower_letter c = (if hex then CHR ''p'' else CHR ''e'')
                then (case read_exponent u of
                        Some e \<Rightarrow>
                          Some (if hex then mant * pow2 e
                                else if 0 \<le> e then mant * 10 ^ nat e else mant / 10 ^ nat (- e))
                      | None \<Rightarrow> None)
                else None))"

text \<open>\<open>None\<close> is any non-nil error: bad syntax, or a value out of range.\<close>

definition parse_float :: "string \<Rightarrow> f64 option" where
  "parse_float s =
     (case parse_special s of
        Some v \<Rightarrow> Some v
      | None \<Rightarrow>
          (case parse_number s of
             Some q \<Rightarrow> (case round64 q of F_Fin v \<Rightarrow> Some (F_Fin v) | _ \<Rightarrow> None)
           | None \<Rightarrow> None))"

lemma parse_float_NaN: "parse_float ''NaN'' = Some F_NaN"
  by code_simp

end
