(* ===== verification/Compare.thy ===== *)
theory Compare imports Domain Go_Float begin

text \<open>
  \<^verbatim>\<open>internal/judge/comparator.go\<close>: the three output comparators, the comparator registry and its
  fallback. The interface \<^verbatim>\<open>OutputComparator\<close> is the locale \<open>output_comparator\<close>; the canonical
  lines of an output are the specification of the whitespace comparator.
\<close>

section \<open>The comparators\<close>

definition exact_compare :: "string \<Rightarrow> string \<Rightarrow> bool" where
  "exact_compare expected actual \<longleftrightarrow> expected = actual"

definition line_cutset :: "char list" where
  "line_cutset = [CHR 0x20, CHR 0x09]"

text \<open>The loop \<^verbatim>\<open>for len(ls) > 0 && ls[len(ls)-1] == ""\<close>\<close>

definition drop_trailing_empty :: "string list \<Rightarrow> string list" where
  "drop_trailing_empty ls = rev (dropWhile (\<lambda>l. l = []) (rev ls))"

definition ws_normalize :: "string \<Rightarrow> string" where
  "ws_normalize s =
     join_with newline
       (drop_trailing_empty (map (trim_right line_cutset) (split_on newline (replace_crlf s))))"

definition whitespace_compare :: "string \<Rightarrow> string \<Rightarrow> bool" where
  "whitespace_compare expected actual \<longleftrightarrow> ws_normalize expected = ws_normalize actual"

text \<open>One token of \<^verbatim>\<open>FloatComparator.Compare\<close>'s loop.\<close>

definition float_token_ok :: "f64 \<Rightarrow> string \<Rightarrow> string \<Rightarrow> bool" where
  "float_token_ok eps e a =
     (case (parse_float e, parse_float a) of
        (Some x, Some y) \<Rightarrow> \<not> f64_gt (f64_abs (f64_sub x y)) eps
      | _ \<Rightarrow> e = a)"

fun float_tokens_ok :: "f64 \<Rightarrow> string list \<Rightarrow> string list \<Rightarrow> bool" where
  "float_tokens_ok eps (e # es) (a # as) =
     (if float_token_ok eps e a then float_tokens_ok eps es as else False)"
| "float_tokens_ok eps _ _ = True"

definition float_compare :: "f64 \<Rightarrow> string \<Rightarrow> string \<Rightarrow> bool" where
  "float_compare eps expected actual =
     (let es = string_fields expected; as = string_fields actual
      in if length es \<noteq> length as then False else float_tokens_ok eps es as)"

datatype comparator = ExactComparator | WhitespaceComparator | FloatComparator f64

fun compare_output :: "comparator \<Rightarrow> string \<Rightarrow> string \<Rightarrow> bool" where
  "compare_output ExactComparator e a = exact_compare e a"
| "compare_output WhitespaceComparator e a = whitespace_compare e a"
| "compare_output (FloatComparator eps) e a = float_compare eps e a"

section \<open>The registry\<close>

type_synonym comparator_registry = "string \<rightharpoonup> comparator"

definition new_comparator_registry :: comparator_registry where
  "new_comparator_registry = Map.empty"

definition register_comparator :: "string \<Rightarrow> comparator \<Rightarrow> comparator_registry \<Rightarrow> comparator_registry" where
  "register_comparator mode c r = r(mode \<mapsto> c)"

definition get_comparator :: "comparator_registry \<Rightarrow> string \<Rightarrow> comparator" where
  "get_comparator r mode = (case r mode of None \<Rightarrow> ExactComparator | Some c \<Rightarrow> c)"

definition create_float_comparator :: "f64 \<Rightarrow> comparator" where
  "create_float_comparator eps = FloatComparator eps"

section \<open>The interface\<close>

text \<open>What the judge relies on: an output that repeats the expected text is accepted, and the
  roles of expected and actual output can be exchanged.\<close>

locale output_comparator =
  fixes cmp :: "string \<Rightarrow> string \<Rightarrow> bool"
  assumes echo_accepted: "cmp s s"
    and exchange: "cmp s t \<Longrightarrow> cmp t s"
begin

lemma rejected_differs: "\<not> cmp s t \<Longrightarrow> s \<noteq> t"
  using echo_accepted by blast

lemma exchange_iff: "cmp s t \<longleftrightarrow> cmp t s"
  using exchange by blast

lemma all_echoes_accepted: "list_all (\<lambda>(e, a). cmp e a) (map (\<lambda>s. (s, s)) ss)"
  by (induction ss) (auto simp: echo_accepted)

end

text \<open>The comparators without a tolerance are equivalences: they compare canonical forms.\<close>

locale canonical_comparator =
  fixes canon :: "string \<Rightarrow> 'c" and ccmp :: "string \<Rightarrow> string \<Rightarrow> bool"
  assumes by_canon: "ccmp s t \<longleftrightarrow> canon s = canon t"
begin

lemma chained: "ccmp s t \<Longrightarrow> ccmp t u \<Longrightarrow> ccmp s u"
  by (simp add: by_canon)

lemma same_class: "ccmp s t \<Longrightarrow> ccmp s = ccmp t"
  by (auto simp: by_canon fun_eq_iff)

end

sublocale canonical_comparator \<subseteq> output_comparator ccmp
  by unfold_locales (auto simp: by_canon)

section \<open>Whitespace normalisation\<close>

text \<open>The canonical lines of an output: what the comparator promises to compare.\<close>

definition canon_lines :: "string \<Rightarrow> string list" where
  "canon_lines s = drop_trailing_empty (map (trim_right line_cutset) (split_on newline (replace_crlf s)))"

lemma set_drop_trailing_empty: "set (drop_trailing_empty ls) \<subseteq> set ls"
  using set_dropWhileD by (fastforce simp: drop_trailing_empty_def)

lemma drop_trailing_empty_last: "drop_trailing_empty ls \<noteq> [] \<Longrightarrow> last (drop_trailing_empty ls) \<noteq> []"
proof -
  assume ne: "drop_trailing_empty ls \<noteq> []"
  then have "dropWhile (\<lambda>l. l = []) (rev ls) \<noteq> []" by (simp add: drop_trailing_empty_def)
  then have "hd (dropWhile (\<lambda>l. l = []) (rev ls)) \<noteq> []" by (rule hd_dropWhile)
  with ne show ?thesis by (simp add: drop_trailing_empty_def last_rev)
qed

lemma drop_trailing_empty_snoc [simp]: "drop_trailing_empty (ls @ [[]]) = drop_trailing_empty ls"
  by (simp add: drop_trailing_empty_def)

lemma drop_trailing_empty_append:
  "set es \<subseteq> {[]} \<Longrightarrow> drop_trailing_empty (ls @ es) = drop_trailing_empty ls"
proof (induction es rule: rev_induct)
  case (snoc e es)
  then show ?case using drop_trailing_empty_snoc [of "ls @ es"] by simp
qed simp

lemma canon_lines_free: "l \<in> set (canon_lines s) \<Longrightarrow> newline \<notin> set l"
proof -
  assume "l \<in> set (canon_lines s)"
  then obtain l' where "l' \<in> set (split_on newline (replace_crlf s))" and l: "l = trim_right line_cutset l'"
    using set_drop_trailing_empty by (fastforce simp: canon_lines_def)
  then have "newline \<notin> set l'" using split_on_free by blast
  then show ?thesis using l set_trim_right by blast
qed

lemma join_with_Cons: "join_with sep (l # ls) = (if ls = [] then l else l @ sep # join_with sep ls)"
  by (cases ls) simp_all

lemma join_canon_Nil_iff: "join_with newline (canon_lines s) = [] \<longleftrightarrow> canon_lines s = []"
proof (cases "canon_lines s" rule: rev_cases)
  case Nil
  then show ?thesis by simp
next
  case (snoc ls l)
  then have "l \<noteq> []" using drop_trailing_empty_last [of "map (trim_right line_cutset) (split_on newline (replace_crlf s))"]
    by (auto simp: canon_lines_def)
  with snoc show ?thesis by (cases ls) (auto simp: neq_Nil_conv join_with_Cons)
qed

lemma join_canon_inj:
  "join_with newline (canon_lines s) = join_with newline (canon_lines t) \<longleftrightarrow> canon_lines s = canon_lines t"
proof
  assume eq: "join_with newline (canon_lines s) = join_with newline (canon_lines t)"
  show "canon_lines s = canon_lines t"
  proof (cases "canon_lines s = []")
    case True
    with eq show ?thesis using join_canon_Nil_iff [of t] by simp
  next
    case False
    with eq have "canon_lines t \<noteq> []" using join_canon_Nil_iff [of s] join_canon_Nil_iff [of t] by auto
    with False eq show ?thesis
      by (metis split_join canon_lines_free)
  qed
qed simp

interpretation exact_cmp: canonical_comparator "\<lambda>s. s" exact_compare
  by unfold_locales (simp add: exact_compare_def)

interpretation ws_cmp: canonical_comparator canon_lines whitespace_compare
  by unfold_locales (simp only: whitespace_compare_def ws_normalize_def canon_lines_def [symmetric] join_canon_inj)

section \<open>Tolerance comparison\<close>

lemma float_token_swap: "float_token_ok eps a e = float_token_ok eps e a"
  by (auto simp: float_token_ok_def f64_abs_sub_swap split: option.splits)

lemma float_tokens_swap: "float_tokens_ok eps as es = float_tokens_ok eps es as"
  by (induction eps es as rule: float_tokens_ok.induct) (auto simp: float_token_swap)

lemma float_token_self: "\<not> f64_gt (F_Fin 0) eps \<Longrightarrow> float_token_ok eps e e"
proof (cases "parse_float e")
  case (Some x)
  assume "\<not> f64_gt (F_Fin 0) eps"
  then show ?thesis using f64_sub_self [of x] Some by (auto simp: float_token_ok_def)
qed (simp add: float_token_ok_def)

lemma float_tokens_self: "\<not> f64_gt (F_Fin 0) eps \<Longrightarrow> float_tokens_ok eps es es"
  by (induction es) (auto simp: float_token_self)

lemma float_tokens_iff:
  "length es = length as \<Longrightarrow> float_tokens_ok eps es as \<longleftrightarrow> list_all2 (float_token_ok eps) es as"
  by (induction es as rule: list_induct2) auto

text \<open>Any tolerance that is not negative gives a comparator of the interface.\<close>

lemma float_comparator_laws: "\<not> f64_gt (F_Fin 0) eps \<Longrightarrow> output_comparator (float_compare eps)"
  by unfold_locales (auto simp: float_compare_def Let_def float_tokens_self float_tokens_swap split: if_splits)

interpretation float_cmp0: output_comparator "float_compare (F_Fin 0)"
  by (rule float_comparator_laws) simp

lemma compare_output_laws:
  "(\<And>eps. c = FloatComparator eps \<Longrightarrow> \<not> f64_gt (F_Fin 0) eps) \<Longrightarrow> output_comparator (compare_output c)"
proof (cases c)
  case ExactComparator
  then have "compare_output c = exact_compare" by (simp add: fun_eq_iff)
  then show ?thesis using exact_cmp.output_comparator_axioms by simp
next
  case WhitespaceComparator
  then have "compare_output c = whitespace_compare" by (simp add: fun_eq_iff)
  then show ?thesis using ws_cmp.output_comparator_axioms by simp
next
  case (FloatComparator eps)
  assume "\<And>eps. c = FloatComparator eps \<Longrightarrow> \<not> f64_gt (F_Fin 0) eps"
  moreover have "compare_output c = float_compare eps" using FloatComparator by (simp add: fun_eq_iff)
  ultimately show ?thesis using FloatComparator float_comparator_laws by simp
qed

section \<open>Rendered outputs\<close>

text \<open>
  An output written as lines, each with padding blanks and a line end of its own; the specification of
  the whitespace comparator says what it sees of such an output.
\<close>

datatype line_end = EndLF | EndCRLF

fun render :: "(string \<times> string \<times> line_end) list \<Rightarrow> string" where
  "render [] = []"
| "render ((l, pad, EndLF) # ls) = l @ pad @ newline # render ls"
| "render ((l, pad, EndCRLF) # ls) = l @ pad @ CHR 0x0D # newline # render ls"

definition line_ok :: "string \<times> string \<times> line_end \<Rightarrow> bool" where
  "line_ok p \<longleftrightarrow> newline \<notin> set (fst p) \<and> CHR 0x0D \<notin> set (fst p) \<and> set (fst (snd p)) \<subseteq> set line_cutset"

lemma replace_crlf_Cons: "a \<noteq> CHR 0x0D \<Longrightarrow> replace_crlf (a # s) = a # replace_crlf s"
  by (cases s) auto

lemma replace_crlf_free: "CHR 0x0D \<notin> set l \<Longrightarrow> replace_crlf (l @ s) = l @ replace_crlf s"
  by (induction l) (auto simp: replace_crlf_Cons)

lemma cutset_free: "set pad \<subseteq> set line_cutset \<Longrightarrow> newline \<notin> set pad \<and> CHR 0x0D \<notin> set pad"
  by (auto simp: line_cutset_def newline_def)

lemma split_line:
  assumes "newline \<notin> set (l @ pad)" and "set pad \<subseteq> set line_cutset" and "t = (l @ pad) @ newline # u"
  shows "map (trim_right line_cutset) (split_on newline t) =
    trim_right line_cutset l # map (trim_right line_cutset) (split_on newline u)"
  unfolding assms(3) by (subst split_on_append_free [OF assms(1)]) (simp add: trim_right_append_cut [OF assms(2)])

lemma canon_lines_render:
  "\<forall>p \<in> set ls. line_ok p \<Longrightarrow>
   map (trim_right line_cutset) (split_on newline (replace_crlf (render ls))) =
     map (\<lambda>p. trim_right line_cutset (fst p)) ls @ [[]]"
proof (induction ls rule: render.induct)
  case (2 l pad ls)
  then have c: "newline \<notin> set (l @ pad)" "CHR 0x0D \<notin> set (l @ pad)" "set pad \<subseteq> set line_cutset"
    using cutset_free [of pad] by (auto simp: line_ok_def)
  have "newline \<noteq> CHR 0x0D" by (simp add: newline_def)
  then have "replace_crlf (render ((l, pad, EndLF) # ls)) = (l @ pad) @ newline # replace_crlf (render ls)"
    using replace_crlf_free [OF c(2)] by (simp add: replace_crlf_Cons)
  from split_line [OF c(1,3) this] 2 show ?case by simp
next
  case (3 l pad ls)
  then have c: "newline \<notin> set (l @ pad)" "CHR 0x0D \<notin> set (l @ pad)" "set pad \<subseteq> set line_cutset"
    using cutset_free [of pad] by (auto simp: line_ok_def)
  have "replace_crlf (render ((l, pad, EndCRLF) # ls)) = (l @ pad) @ newline # replace_crlf (render ls)"
    using replace_crlf_free [OF c(2)] by simp
  from split_line [OF c(1,3) this] 3 show ?case by simp
qed simp

section \<open>Properties\<close>



text \<open>
  the contract of the judge's comparators: each of them (the tolerance comparator, when its tolerance
  is not negative) accepts an output that repeats the expected text, and does not depend on which of the
  two texts is the expected one.
\<close>

theorem comparators_contract:
  assumes "c = ExactComparator \<or> c = WhitespaceComparator \<or> (\<exists>eps. c = FloatComparator eps \<and> \<not> f64_gt (F_Fin 0) eps)"
  shows "compare_output c s s \<and> compare_output c s t = compare_output c t s"
proof -
  have "output_comparator (compare_output c)" using assms by (intro compare_output_laws) auto
  then show ?thesis by (metis output_comparator.echo_accepted output_comparator.exchange)
qed

theorem comparators_contract_witness:
  "compare_output (FloatComparator (F_Fin 1)) ''1.5 x'' ''1.5 x''"
  using comparators_contract [of "FloatComparator (F_Fin 1)"] by simp

text \<open>
  The tolerance comparator, a loop with early exits, accepts exactly the outputs with as many tokens
  as expected where each pair of numbers differs by no more than the tolerance and each pair with a
  token that is not a number is equal.
\<close>

theorem float_compare_tokens:
  "float_compare eps expected actual \<longleftrightarrow>
     list_all2 (\<lambda>x y. case (parse_float x, parse_float y) of
         (Some v, Some w) \<Rightarrow> \<not> f64_gt (f64_abs (f64_sub v w)) eps
       | _ \<Rightarrow> x = y) (string_fields expected) (string_fields actual)"
proof (cases "length (string_fields expected) = length (string_fields actual)")
  case True
  then show ?thesis
    by (simp add: float_compare_def Let_def float_tokens_iff float_token_ok_def [abs_def])
next
  case False
  then show ?thesis by (auto simp: float_compare_def Let_def dest: list_all2_lengthD)
qed

text \<open>
  with a tolerance an output of NaNs passes every test of numbers: the difference with a NaN is a
  NaN, which is not greater than the tolerance.
\<close>

theorem nan_output_accepted:
  assumes "\<forall>x \<in> set (string_fields expected). parse_float x \<noteq> None"
    and "string_fields actual = replicate (length (string_fields expected)) ''NaN''"
  shows "float_compare eps expected actual"
proof -
  have "float_token_ok eps x ''NaN''" if "x \<in> set (string_fields expected)" for x
    using assms(1) that by (auto simp: float_token_ok_def parse_float_NaN)
  then have "list_all2 (float_token_ok eps) (string_fields expected) (string_fields actual)"
    by (simp add: assms(2) list_all2_conv_all_nth)
  then show ?thesis using assms(2) by (simp add: float_compare_def Let_def float_tokens_iff)
qed

theorem nan_output_accepted_witness: "float_compare (F_Fin 0) ''0 0'' ''NaN NaN''"
proof (rule nan_output_accepted)
  have "string_fields ''0 0'' = [''0'', ''0'']" by code_simp
  moreover have "parse_float ''0'' \<noteq> None" by code_simp
  ultimately show "\<forall>x \<in> set (string_fields ''0 0''). parse_float x \<noteq> None" by simp
  show "string_fields ''NaN NaN'' = replicate (length (string_fields ''0 0'')) ''NaN''" by code_simp
qed

end
