(* ===== verification/Bounded_Writer.thy ===== *)
theory Bounded_Writer imports Go_Text begin

text \<open>
  \<^verbatim>\<open>internal/platform/process/bounded_writer.go\<close>: the writer that keeps at most \<open>maxSize\<close> bytes of a
  child process's output and cancels the process at the first byte too many. Sizes are \<^verbatim>\<open>int64\<close>,
  kept as 64-bit words with Go's wrap-around and signed comparison.
\<close>

type_synonym i64 = "64 word"

text \<open>A \<^verbatim>\<open>time.Duration\<close> counts nanoseconds.\<close>

definition second :: i64 where "second = 1000000000"

record bounded_writer =
  bw_buf :: string
  bw_maxSize :: i64
  bw_current :: i64
  bw_hasCancel :: bool \<comment> \<open>\<^verbatim>\<open>cancelFunc != nil\<close>\<close>
  bw_exceeded :: bool

definition new_bounded_writer :: "i64 \<Rightarrow> bool \<Rightarrow> bounded_writer" where
  "new_bounded_writer maxSize hasCancel =
     \<lparr>bw_buf = [], bw_maxSize = maxSize, bw_current = 0, bw_hasCancel = hasCancel, bw_exceeded = False\<rparr>"

text \<open>\<^verbatim>\<open>Write\<close>: the new writer, the count it returns, and whether it called \<^verbatim>\<open>cancelFunc\<close>.\<close>

definition bw_write :: "string \<Rightarrow> bounded_writer \<Rightarrow> bounded_writer \<times> nat \<times> bool" where
  "bw_write p w =
     (if bw_exceeded w then (w, length p, False)
      else let writeSize = (of_nat (length p) :: i64)
        in if bw_maxSize w <s bw_current w + writeSize then
             (let allowed = bw_maxSize w - bw_current w;
                  w1 = (if 0 <s allowed
                        then w\<lparr>bw_buf := bw_buf w @ take (nat (sint allowed)) p,
                               bw_current := bw_current w + allowed\<rparr>
                        else w)
              in (w1\<lparr>bw_exceeded := True\<rparr>, length p, bw_hasCancel w))
           else (w\<lparr>bw_buf := bw_buf w @ p, bw_current := bw_current w + writeSize\<rparr>, length p, False))"

text \<open>A sequence of writes, with the number of times it called \<^verbatim>\<open>cancelFunc\<close>.\<close>

fun bw_run :: "string list \<Rightarrow> bounded_writer \<Rightarrow> bounded_writer \<times> nat" where
  "bw_run [] w = (w, 0)"
| "bw_run (p # ps) w =
     (let (w1, n, c) = bw_write p w; (w2, k) = bw_run ps w1 in (w2, (if c then Suc k else k)))"

lemma bw_write_count [simp]: "fst (snd (bw_write p w)) = length p"
  by (simp add: bw_write_def Let_def)

section \<open>Invariant\<close>

definition bw_ok :: "bounded_writer \<Rightarrow> bool" where
  "bw_ok w \<longleftrightarrow> 0 \<le> sint (bw_maxSize w) \<and> sint (bw_current w) = int (length (bw_buf w)) \<and>
     sint (bw_current w) \<le> sint (bw_maxSize w)"

text \<open>A chunk the signed sum can hold next to the limit; a Go slice is at most \<open>2^63 - 1\<close> bytes long.\<close>

definition chunk_fits :: "bounded_writer \<Rightarrow> string \<Rightarrow> bool" where
  "chunk_fits w p \<longleftrightarrow> sint (bw_maxSize w) + int (length p) < 2 ^ 63"

lemma sint_of_len: "int n < 2 ^ 63 \<Longrightarrow> sint (of_nat n :: i64) = int n"
proof -
  assume "int n < 2 ^ 63"
  then have "sint (word_of_int (int n) :: i64) = int n"
    by (simp only: sint_sbintrunc') (simp add: signed_take_bit_int_eq_self)
  then show ?thesis by simp
qed

lemma sint_add_small:
  fixes a b :: i64
  assumes "- (2 ^ 63) \<le> sint a + sint b" "sint a + sint b < 2 ^ 63"
  shows "sint (a + b) = sint a + sint b"
  using assms by (simp add: sint_word_ariths signed_take_bit_int_eq_self)

lemma sint_diff_small:
  fixes a b :: i64
  assumes "- (2 ^ 63) \<le> sint a - sint b" "sint a - sint b < 2 ^ 63"
  shows "sint (a - b) = sint a - sint b"
  using assms by (simp add: sint_word_ariths signed_take_bit_int_eq_self)

lemma new_bounded_writer_ok: "0 \<le> sint m \<Longrightarrow> bw_ok (new_bounded_writer m c)"
  by (simp add: bw_ok_def new_bounded_writer_def)

text \<open>One write, in closed form.\<close>

lemma bw_write_spec:
  assumes ok: "bw_ok w" and fits: "chunk_fits w p" and ne: "\<not> bw_exceeded w"
  defines "room \<equiv> nat (sint (bw_maxSize w)) - length (bw_buf w)"
  shows "bw_ok (fst (bw_write p w)) \<and>
    bw_buf (fst (bw_write p w)) = bw_buf w @ take room p \<and>
    bw_exceeded (fst (bw_write p w)) = (room < length p) \<and>
    bw_maxSize (fst (bw_write p w)) = bw_maxSize w \<and> bw_hasCancel (fst (bw_write p w)) = bw_hasCancel w \<and>
    snd (snd (bw_write p w)) = (bw_hasCancel w \<and> room < length p)"
proof -
  let ?m = "sint (bw_maxSize w)" and ?c = "sint (bw_current w)"
  have m0: "0 \<le> ?m" and c: "?c = int (length (bw_buf w))" and cm: "?c \<le> ?m" using ok by (auto simp: bw_ok_def)
  have small: "?m + int (length p) < 2 ^ 63" using fits by (simp add: chunk_fits_def)
  have len: "sint (of_nat (length p) :: i64) = int (length p)" using small m0 by (intro sint_of_len) linarith
  have sum: "sint (bw_current w + of_nat (length p)) = ?c + int (length p)"
    using small c cm len by (subst sint_add_small) auto
  have allow: "sint (bw_maxSize w - bw_current w) = ?m - ?c"
    using c cm small by (intro sint_diff_small) auto
  have cur: "bw_current w + (bw_maxSize w - bw_current w) = bw_maxSize w" by simp
  have room: "int room = ?m - ?c" using c cm by (simp add: room_def)
  have over: "bw_maxSize w <s bw_current w + of_nat (length p) \<longleftrightarrow> room < length p"
    using room by (simp add: word_sless_alt sum) linarith
  have pos: "0 <s bw_maxSize w - bw_current w \<longleftrightarrow> 0 < room"
    using room by (simp add: word_sless_alt allow) linarith
  show ?thesis
  proof (cases "room < length p")
    case True
    have r: "nat (sint (bw_maxSize w - bw_current w)) = room" using allow room by simp
    show ?thesis using True ne over pos r c cm m0 room
      by (auto simp: bw_write_def Let_def cur bw_ok_def)
  next
    case False
    then show ?thesis using ne over c cm m0 room by (auto simp: bw_write_def Let_def bw_ok_def sum)
  qed
qed

lemma bw_run_exceeded: "bw_exceeded w \<Longrightarrow> bw_run ps w = (w, 0)"
  by (induction ps) (auto simp: bw_write_def)

lemma bw_run_spec:
  assumes "bw_ok w" and "\<forall>p \<in> set ps. chunk_fits w p" and "\<not> bw_exceeded w"
  defines "room \<equiv> nat (sint (bw_maxSize w)) - length (bw_buf w)"
  shows "bw_buf (fst (bw_run ps w)) = bw_buf w @ take room (concat ps) \<and>
    bw_exceeded (fst (bw_run ps w)) = (room < length (concat ps)) \<and>
    snd (bw_run ps w) = (if bw_hasCancel w \<and> room < length (concat ps) then 1 else 0)"
  using assms(1-3) unfolding room_def
proof (induction ps arbitrary: w)
  case Nil
  then show ?case by simp
next
  case (Cons p ps)
  let ?r = "nat (sint (bw_maxSize w)) - length (bw_buf w)" and ?w = "fst (bw_write p w)"
  have spec: "bw_ok ?w" "bw_buf ?w = bw_buf w @ take ?r p" "bw_exceeded ?w = (?r < length p)"
    "bw_maxSize ?w = bw_maxSize w" "bw_hasCancel ?w = bw_hasCancel w"
    "snd (snd (bw_write p w)) = (bw_hasCancel w \<and> ?r < length p)"
    using bw_write_spec [of w p] Cons.prems by auto
  obtain w1 n c where wr: "bw_write p w = (w1, n, c)" by (metis prod.collapse)
  show ?case
  proof (cases "?r < length p")
    case True
    then show ?thesis using spec wr by (simp add: bw_run_exceeded)
  next
    case False
    have "\<forall>p \<in> set ps. chunk_fits w1 p" using Cons.prems(2) spec(4) wr by (simp add: chunk_fits_def)
    with Cons.IH [of w1] spec False wr have IH:
      "bw_buf (fst (bw_run ps w1)) = bw_buf w1 @ take (?r - length p) (concat ps)"
      "bw_exceeded (fst (bw_run ps w1)) = (?r - length p < length (concat ps))"
      "snd (bw_run ps w1) = (if bw_hasCancel w \<and> ?r - length p < length (concat ps) then 1 else 0)"
      by auto
    have "(?r - length p < length (concat ps)) = (?r < length p + length (concat ps))"
      using False by linarith
    with IH spec wr False show ?thesis by (auto split: prod.splits)
  qed
qed

section \<open>Properties\<close>

text \<open>
  A fresh writer over any sequence of writes: it keeps the first \<open>maxSize\<close> bytes and no more, reports
  every chunk as written in full (so the copying goroutine never stops early), is marked exceeded
  exactly when there was a byte too many, and cancels the process exactly once in that case, never
  otherwise.
\<close>

theorem bounded_writer_keeps_prefix:
  assumes "0 \<le> sint m" and "\<forall>p \<in> set ps. sint m + int (length p) < 2 ^ 63"
  shows "bw_buf (fst (bw_run ps (new_bounded_writer m True))) = take (nat (sint m)) (concat ps) \<and>
    bw_exceeded (fst (bw_run ps (new_bounded_writer m True))) = (nat (sint m) < length (concat ps)) \<and>
    snd (bw_run ps (new_bounded_writer m True)) = (if nat (sint m) < length (concat ps) then 1 else 0) \<and>
    fst (snd (bw_write p (fst (bw_run ps (new_bounded_writer m True))))) = length p"
proof -
  let ?w = "new_bounded_writer m True"
  have "\<forall>p \<in> set ps. chunk_fits ?w p" using assms(2) by (simp add: chunk_fits_def new_bounded_writer_def)
  then show ?thesis
    using bw_run_spec [OF new_bounded_writer_ok [OF assms(1), of True], of ps]
    by (simp add: new_bounded_writer_def)
qed

theorem bounded_writer_keeps_prefix_witness:
  "bw_buf (fst (bw_run [''abc'', ''de''] (new_bounded_writer 4 True))) = ''abcd'' \<and>
   snd (bw_run [''abc'', ''de''] (new_bounded_writer 4 True)) = 1"
  using bounded_writer_keeps_prefix [of 4 "[''abc'', ''de'']"] by simp

end
