(* ===== verification/Proc.thy ===== *)
theory Proc imports Bounded_Writer begin

text \<open>
  \<^verbatim>\<open>internal/platform/process/process.go\<close>: \<^verbatim>\<open>RunProcess\<close>, which starts a child process under two
  bounded writers and waits for its exit, its time limit or a cancelled context. What the operating
  system and \<^verbatim>\<open>os/exec\<close> do in one run is the record \<open>process_run\<close>: the result of \<^verbatim>\<open>Start\<close>, the writes the
  copying goroutines made until \<^verbatim>\<open>Wait\<close> returned, the case the \<^verbatim>\<open>select\<close> took, and the cause of the
  run's context at the end.
\<close>

datatype out_stream = OutStream | ErrStream

datatype select_case = TimerFired | CtxDone | ProcExited "goerror option"

record process_run =
  pr_start :: "goerror option"
  pr_writes :: "(out_stream \<times> string) list"
  pr_select :: select_case
  pr_cause :: "goerror option"

record run_options =
  ro_Command :: string
  ro_Args :: "string list"
  ro_Dir :: string
  ro_Stdin :: "string option" \<comment> \<open>\<open>None\<close>: a nil reader\<close>
  ro_StdoutLimit :: i64
  ro_StderrLimit :: i64
  ro_Timeout :: i64

record process_result =
  ps_Stdout :: string
  ps_Stderr :: string
  ps_ExitCode :: int
  ps_Timeout :: bool
  ps_OutputLimit :: bool
  ps_Error :: "goerror option"

text \<open>What each writer receives, in order.\<close>

definition stream_chunks :: "out_stream \<Rightarrow> (out_stream \<times> string) list \<Rightarrow> string list" where
  "stream_chunks k ws = map snd (filter (\<lambda>w. fst w = k) ws)"

text \<open>\<^verbatim>\<open>exitErr\<close> is set by the case of \<^verbatim>\<open>errChan\<close> only; the other two drop what \<^verbatim>\<open>Wait\<close> returned.\<close>

definition select_exit_err :: "select_case \<Rightarrow> goerror option" where
  "select_exit_err s = (case s of ProcExited e \<Rightarrow> e | _ \<Rightarrow> None)"

definition exit_code_of :: "goerror option \<Rightarrow> int" where
  "exit_code_of exitErr =
     (case exitErr of None \<Rightarrow> 0
      | Some e \<Rightarrow> (case as_exit_error e of Some c \<Rightarrow> c | None \<Rightarrow> 1))"

definition run_process :: "run_options \<Rightarrow> process_run \<Rightarrow> process_result" where
  "run_process opts run =
     (case pr_start run of
        Some err \<Rightarrow>
          \<lparr>ps_Stdout = [], ps_Stderr = [], ps_ExitCode = 0, ps_Timeout = False, ps_OutputLimit = False,
           ps_Error = Some err\<rparr>
      | None \<Rightarrow>
          (let outWriter = fst (bw_run (stream_chunks OutStream (pr_writes run)) (new_bounded_writer (ro_StdoutLimit opts) True));
               errWriter = fst (bw_run (stream_chunks ErrStream (pr_writes run)) (new_bounded_writer (ro_StderrLimit opts) True));
               timeoutExceeded = (pr_select run = TimerFired);
               exitErr = select_exit_err (pr_select run);
               limit = (bw_exceeded outWriter \<or> bw_exceeded errWriter);
               outputLimitExceeded =
                 (case pr_cause run of Some cause \<Rightarrow> errors_is cause ErrOutputLimitExceeded \<or> limit | None \<Rightarrow> limit)
           in \<lparr>ps_Stdout = bw_buf outWriter, ps_Stderr = bw_buf errWriter, ps_ExitCode = exit_code_of exitErr,
               ps_Timeout = timeoutExceeded, ps_OutputLimit = outputLimitExceeded, ps_Error = exitErr\<rparr>))"

text \<open>The whole output of a stream, and the runs whose chunks the writers' sums can hold.\<close>

definition stream_output :: "out_stream \<Rightarrow> process_run \<Rightarrow> string" where
  "stream_output k run = concat (stream_chunks k (pr_writes run))"

definition run_fits :: "run_options \<Rightarrow> process_run \<Rightarrow> bool" where
  "run_fits opts run \<longleftrightarrow>
     0 \<le> sint (ro_StdoutLimit opts) \<and> 0 \<le> sint (ro_StderrLimit opts) \<and>
     list_all (\<lambda>(k, p). sint (if k = OutStream then ro_StdoutLimit opts else ro_StderrLimit opts) + int (length p) < 2 ^ 63)
       (pr_writes run)"

lemma bw_run_fresh:
  assumes "0 \<le> sint m" and "\<forall>p \<in> set ps. sint m + int (length p) < 2 ^ 63"
  shows "bw_buf (fst (bw_run ps (new_bounded_writer m c))) = take (nat (sint m)) (concat ps) \<and>
    bw_exceeded (fst (bw_run ps (new_bounded_writer m c))) = (nat (sint m) < length (concat ps))"
proof -
  let ?w = "new_bounded_writer m c"
  have "bw_ok ?w" using assms(1) by (rule new_bounded_writer_ok)
  moreover have "\<forall>p \<in> set ps. chunk_fits ?w p"
    using assms(2) by (simp add: chunk_fits_def new_bounded_writer_def)
  moreover have "\<not> bw_exceeded ?w" by (simp add: new_bounded_writer_def)
  ultimately show ?thesis using bw_run_spec [of ?w ps] by (simp add: new_bounded_writer_def)
qed

lemma run_fits_chunks:
  assumes "run_fits opts run"
  shows "\<forall>p \<in> set (stream_chunks OutStream (pr_writes run)). sint (ro_StdoutLimit opts) + int (length p) < 2 ^ 63"
    and "\<forall>p \<in> set (stream_chunks ErrStream (pr_writes run)). sint (ro_StderrLimit opts) + int (length p) < 2 ^ 63"
  using assms by (auto simp: run_fits_def stream_chunks_def list_all_iff)

lemma run_process_output:
  assumes "run_fits opts run" and "pr_start run = None"
  shows "ps_Stdout (run_process opts run) = take (nat (sint (ro_StdoutLimit opts))) (stream_output OutStream run)"
    and "ps_Stderr (run_process opts run) = take (nat (sint (ro_StderrLimit opts))) (stream_output ErrStream run)"
    and "nat (sint (ro_StdoutLimit opts)) < length (stream_output OutStream run) \<or>
         nat (sint (ro_StderrLimit opts)) < length (stream_output ErrStream run) \<Longrightarrow>
         ps_OutputLimit (run_process opts run)"
  using assms run_fits_chunks [OF assms(1)]
  by (auto simp: run_process_def Let_def run_fits_def stream_output_def bw_run_fresh split: option.splits)

lemma run_process_flags:
  assumes "pr_start run = None"
  shows "ps_Timeout (run_process opts run) = (pr_select run = TimerFired)"
    and "ps_Error (run_process opts run) = select_exit_err (pr_select run)"
    and "ps_ExitCode (run_process opts run) = exit_code_of (select_exit_err (pr_select run))"
  using assms by (auto simp: run_process_def Let_def)

lemma run_process_no_limit:
  assumes "run_fits opts run" and "pr_start run = None"
    and "length (stream_output OutStream run) \<le> nat (sint (ro_StdoutLimit opts))"
    and "length (stream_output ErrStream run) \<le> nat (sint (ro_StderrLimit opts))"
    and "\<And>c. pr_cause run = Some c \<Longrightarrow> \<not> errors_is c ErrOutputLimitExceeded"
  shows "\<not> ps_OutputLimit (run_process opts run)"
  using assms run_fits_chunks [OF assms(1)]
  by (auto simp: run_process_def Let_def run_fits_def stream_output_def bw_run_fresh split: option.splits)

section \<open>Properties\<close>

text \<open>
  C14: what a finished process leaves: each stream is cut at its limit and holds the first bytes the
  process wrote, output beyond a limit is always reported as such, and the time-out flag tells a run
  the timer ended from one that ended by itself.
\<close>

theorem process_output_bounded:
  assumes "run_fits opts run" and "pr_start run = None"
  shows "ps_Stdout (run_process opts run) = take (nat (sint (ro_StdoutLimit opts))) (stream_output OutStream run) \<and>
    ps_Stderr (run_process opts run) = take (nat (sint (ro_StderrLimit opts))) (stream_output ErrStream run) \<and>
    (ps_OutputLimit (run_process opts run) \<longleftrightarrow>
       nat (sint (ro_StdoutLimit opts)) < length (stream_output OutStream run) \<or>
       nat (sint (ro_StderrLimit opts)) < length (stream_output ErrStream run) \<or>
       (\<exists>c. pr_cause run = Some c \<and> errors_is c ErrOutputLimitExceeded)) \<and>
    (ps_Timeout (run_process opts run) \<longleftrightarrow> pr_select run = TimerFired)"
  using run_process_output [OF assms] run_process_flags(1) [OF assms(2)] run_process_no_limit [OF assms]
  by (fastforce simp: run_process_def assms(2) Let_def split: option.splits)

definition options_example :: "i64 \<Rightarrow> run_options" where
  "options_example n =
     \<lparr>ro_Command = ''sh'', ro_Args = [], ro_Dir = [], ro_Stdin = None, ro_StdoutLimit = n, ro_StderrLimit = n,
      ro_Timeout = 1000\<rparr>"

definition run_example :: "select_case \<Rightarrow> goerror option \<Rightarrow> process_run" where
  "run_example sel cause =
     \<lparr>pr_start = None, pr_writes = [(OutStream, ''ab''), (ErrStream, ''x''), (OutStream, ''cd'')],
      pr_select = sel, pr_cause = cause\<rparr>"

lemma example_fits: "run_fits (options_example 3) (run_example sel cause)"
  by (simp add: run_fits_def options_example_def run_example_def)

theorem process_output_bounded_witness:
  "ps_Stdout (run_process (options_example 3) (run_example (ProcExited None) None)) = ''abc''"
  using process_output_bounded [OF example_fits, of "ProcExited None" None]
  by (simp add: run_example_def options_example_def stream_output_def stream_chunks_def)

text \<open>
  a run that the parent context cancelled looks like a success: killed in the middle of its output,
  it gives the very result of a process that wrote the same bytes and exited with status 0.
\<close>

theorem cancelled_run_looks_successful:
  assumes "pr_start run = None" and "pr_select run = CtxDone"
  shows "run_process opts run = run_process opts (run\<lparr>pr_select := ProcExited None\<rparr>) \<and>
    ps_ExitCode (run_process opts run) = 0 \<and> ps_Error (run_process opts run) = None \<and>
    \<not> ps_Timeout (run_process opts run)"
  using assms by (simp add: run_process_def select_exit_err_def exit_code_of_def Let_def)

theorem cancelled_run_looks_successful_witness:
  "ps_ExitCode (run_process (options_example 100) (run_example CtxDone (Some ContextCanceled))) = 0"
  by (rule cancelled_run_looks_successful [THEN conjunct2, THEN conjunct1]) (simp_all add: run_example_def)

end
