(* ===== verification/Sandbox.thy ===== *)
theory Sandbox imports Proc Go_Float "HOL-Library.Multiset" begin

text \<open>
  \<^verbatim>\<open>internal/sandbox\<close>: resource profiles (profile.go), the runtime interface (sandbox.go) and its
  Docker implementation (docker/runtime.go). The Docker command line, the processes it starts and the
  file system are not code of the repository: they are the functions of the record \<open>os_host\<close>, over
  a host state of any type \<open>'h\<close>.
\<close>

section \<open>Profiles (profile.go)\<close>

record profile =
  pf_Name :: string
  pf_Image :: string
  pf_MemoryLimitBytes :: i64
  pf_CPULimit :: f64
  pf_PidsLimit :: i64
  pf_TmpfsSizeBytes :: i64
  pf_Timeout :: i64 \<comment> \<open>\<^verbatim>\<open>time.Duration\<close>, nanoseconds\<close>
  pf_MaxOutputBytes :: i64

definition millisecond :: i64 where "millisecond = 1000000"

definition ProfileSmall :: profile where
  "ProfileSmall = \<lparr>pf_Name = ''SMALL'', pf_Image = [], pf_MemoryLimitBytes = 128 * 1024 * 1024,
     pf_CPULimit = F_Fin (1 / 2), pf_PidsLimit = 128, pf_TmpfsSizeBytes = 32 * 1024 * 1024,
     pf_Timeout = 2 * second, pf_MaxOutputBytes = 1024 * 1024\<rparr>"

definition ProfileMedium :: profile where
  "ProfileMedium = \<lparr>pf_Name = ''MEDIUM'', pf_Image = [], pf_MemoryLimitBytes = 256 * 1024 * 1024,
     pf_CPULimit = F_Fin 1, pf_PidsLimit = 256, pf_TmpfsSizeBytes = 64 * 1024 * 1024,
     pf_Timeout = 15 * second, pf_MaxOutputBytes = 5 * 1024 * 1024\<rparr>"

definition ProfileLarge :: profile where
  "ProfileLarge = \<lparr>pf_Name = ''LARGE'', pf_Image = [], pf_MemoryLimitBytes = 512 * 1024 * 1024,
     pf_CPULimit = F_Fin 2, pf_PidsLimit = 512, pf_TmpfsSizeBytes = 128 * 1024 * 1024,
     pf_Timeout = 10 * second, pf_MaxOutputBytes = 10 * 1024 * 1024\<rparr>"

definition get_profile_for_language :: "string \<Rightarrow> goerror + profile" where
  "get_profile_for_language lang =
     (if lang = ''python'' then Inr (ProfileMedium\<lparr>pf_Image := ''python:3.11-alpine''\<rparr>)
      else if lang = ''java'' then Inr (ProfileMedium\<lparr>pf_Image := ''eclipse-temurin:21-jdk-alpine''\<rparr>)
      else if lang = ''go'' then Inr (ProfileMedium\<lparr>pf_Image := ''golang:1.22-alpine''\<rparr>)
      else if lang = ''c'' \<or> lang = ''cpp'' then Inr (ProfileMedium\<lparr>pf_Image := ''gcc:13''\<rparr>)
      else if lang = ''sql'' then Inr (ProfileMedium\<lparr>pf_Image := ''keinos/sqlite3''\<rparr>)
      else Inl ErrUnsupportedLanguage)"

section \<open>The runtime interface (sandbox.go)\<close>

record exec_options =
  eo_Command :: string
  eo_Args :: "string list"
  eo_Stdin :: "string option"
  eo_StdoutLimit :: i64
  eo_StderrLimit :: i64
  eo_Timeout :: i64

record exec_result =
  xr_Stdout :: string
  xr_Stderr :: string
  xr_ExitCode :: int
  xr_Timeout :: bool
  xr_OutputLimit :: bool
  xr_Error :: "goerror option"

record 'h sandbox_runtime =
  rt_StartContainer :: "string \<Rightarrow> profile \<Rightarrow> 'h \<Rightarrow> (goerror + string) \<times> 'h"
  rt_Exec :: "string \<Rightarrow> exec_options \<Rightarrow> 'h \<Rightarrow> exec_result \<times> 'h"
  rt_DestroyContainer :: "string \<Rightarrow> 'h \<Rightarrow> goerror option \<times> 'h"

section \<open>The host\<close>

record 'h os_host =
  oh_docker :: "string list \<Rightarrow> 'h \<Rightarrow> (string \<times> goerror option) \<times> 'h"
    \<comment> \<open>\<^verbatim>\<open>exec.Command("docker", args...)\<close> run to its end: combined output and error\<close>
  oh_spawn :: "run_options \<Rightarrow> 'h \<Rightarrow> process_run \<times> 'h"
  oh_mkdir_temp :: "string \<Rightarrow> 'h \<Rightarrow> (goerror + string) \<times> 'h"
  oh_remove_all :: "string \<Rightarrow> 'h \<Rightarrow> 'h"
  oh_write_file :: "string \<Rightarrow> string \<Rightarrow> 'h \<Rightarrow> goerror option \<times> 'h"
  oh_chmod :: "string \<Rightarrow> nat \<Rightarrow> 'h \<Rightarrow> 'h"

section \<open>The Docker runtime (docker/runtime.go)\<close>

text \<open>The seccomp profile the runtime writes: a default action and the system calls it denies.\<close>

datatype seccomp_action = ScmpAllow | ScmpErrno

definition seccomp_default_action :: seccomp_action where
  "seccomp_default_action = ScmpAllow"

definition seccomp_denied :: "string list" where
  "seccomp_denied =
     [''mount'', ''umount2'', ''ptrace'', ''unshare'', ''setns'', ''bpf'',
      ''kexec_load'', ''kexec_file_load'', ''init_module'', ''finit_module'',
      ''delete_module'', ''create_module'', ''swapon'', ''swapoff'', ''reboot'',
      ''sethostname'', ''setdomainname'', ''iopl'', ''ioperm'', ''nfsservctl'',
      ''syslog'', ''vhangup'', ''pivot_root'', ''acct'', ''quotactl'', ''perf_event_open'',
      ''process_vm_readv'', ''process_vm_writev'']"

definition seccomp_action_of :: "string \<Rightarrow> seccomp_action" where
  "seccomp_action_of syscall =
     (if syscall \<in> set seccomp_denied then ScmpErrno else seccomp_default_action)"

text \<open>
  \<^verbatim>\<open>strconv.FormatFloat(x, 'f', -1, 64)\<close> for a value with a short decimal expansion, as the CPU limits
  of the profiles are: the expansion itself.
\<close>

fun frac_digits :: "nat \<Rightarrow> rat \<Rightarrow> string" where
  "frac_digits 0 q = []"
| "frac_digits (Suc n) q =
     (if q = 0 then [] else digit_char (nat \<lfloor>10 * q\<rfloor>) # frac_digits n (10 * q - of_int \<lfloor>10 * q\<rfloor>))"

fun format_float :: "f64 \<Rightarrow> string" where
  "format_float F_NaN = ''NaN''"
| "format_float (F_Inf n) = (if n then ''-Inf'' else ''+Inf'')"
| "format_float (F_Fin q) =
     (let a = \<bar>q\<bar>; f = a - of_int \<lfloor>a\<rfloor>
      in (if q < 0 then ''-'' else []) @ dec_of_int \<lfloor>a\<rfloor> @ (if f = 0 then [] else CHR ''.'' # frac_digits 20 f))"

definition docker_run_args :: "string \<Rightarrow> string \<Rightarrow> profile \<Rightarrow> string list" where
  "docker_run_args seccompPath workspace profile =
     [''run'', ''-d'', ''--rm'',
      ''--network'', ''none'',
      ''--read-only'',
      ''--cap-drop'', ''ALL'',
      ''--security-opt'', ''no-new-privileges'',
      ''--security-opt'', ''seccomp='' @ seccompPath,
      ''--memory'', dec_of_int (sint (pf_MemoryLimitBytes profile)),
      ''--cpus'', format_float (pf_CPULimit profile),
      ''--pids-limit'', dec_of_int (sint (pf_PidsLimit profile)),
      ''--tmpfs'', ''/tmp:rw,size='' @ dec_of_int (sint (pf_TmpfsSizeBytes profile)) @ '',mode=1777'',
      ''-v'', workspace @ '':/workspace'',
      pf_Image profile,
      ''sleep'', ''infinity'']"

definition docker_start_container ::
  "'h os_host \<Rightarrow> string \<Rightarrow> string \<Rightarrow> profile \<Rightarrow> 'h \<Rightarrow> (goerror + string) \<times> 'h" where
  "docker_start_container H seccompPath workspace profile h =
     (case oh_docker H (docker_run_args seccompPath workspace profile) h of
        ((out, Some err), h1) \<Rightarrow>
          (Inl (Wrapped ''failed to start sandbox container: '' err ('', output: '' @ out)), h1)
      | ((out, None), h1) \<Rightarrow>
          (let containerID = trim_space out
           in if length containerID = 0
              then (Inl (ErrMsg ''started sandbox container but got empty ID''), h1)
              else (Inr containerID, h1)))"

definition docker_exec_args :: "string \<Rightarrow> exec_options \<Rightarrow> string list" where
  "docker_exec_args containerID opts =
     [''exec'', ''-i'', ''--user'', ''1000:1000'', ''-w'', ''/workspace'', containerID, eo_Command opts]
     @ eo_Args opts"

definition docker_run_options :: "string \<Rightarrow> exec_options \<Rightarrow> run_options" where
  "docker_run_options containerID opts =
     \<lparr>ro_Command = ''docker'', ro_Args = docker_exec_args containerID opts, ro_Dir = [],
      ro_Stdin = eo_Stdin opts, ro_StdoutLimit = eo_StdoutLimit opts,
      ro_StderrLimit = eo_StderrLimit opts, ro_Timeout = eo_Timeout opts\<rparr>"

definition docker_exec :: "'h os_host \<Rightarrow> string \<Rightarrow> exec_options \<Rightarrow> 'h \<Rightarrow> exec_result \<times> 'h" where
  "docker_exec H containerID opts h =
     (let runOpts = docker_run_options containerID opts;
          (run, h1) = oh_spawn H runOpts h;
          res = run_process runOpts run
      in (\<lparr>xr_Stdout = ps_Stdout res, xr_Stderr = ps_Stderr res, xr_ExitCode = ps_ExitCode res,
           xr_Timeout = ps_Timeout res, xr_OutputLimit = ps_OutputLimit res, xr_Error = ps_Error res\<rparr>, h1))"

definition docker_destroy_container :: "'h os_host \<Rightarrow> string \<Rightarrow> 'h \<Rightarrow> goerror option \<times> 'h" where
  "docker_destroy_container H containerID h =
     (if containerID = [] then (None, h)
      else (let ((out, err), h1) = oh_docker H [''rm'', ''-f'', containerID] h in (err, h1)))"

definition docker_runtime :: "'h os_host \<Rightarrow> string \<Rightarrow> 'h sandbox_runtime" where
  "docker_runtime H seccompPath =
     \<lparr>rt_StartContainer = docker_start_container H seccompPath,
      rt_Exec = docker_exec H,
      rt_DestroyContainer = docker_destroy_container H\<rparr>"

section \<open>The resource contract of a runtime\<close>

text \<open>
  What a client of the runtime and of the host's temporary directories relies on to leave nothing
  behind: \<open>live\<close> counts the containers started and not destroyed, \<open>dirs\<close> the directories made
  and not removed.
\<close>

locale resource_host =
  fixes H :: "'h os_host" and R :: "'h sandbox_runtime"
    and live :: "'h \<Rightarrow> string multiset" and dirs :: "'h \<Rightarrow> string multiset"
  assumes start_ok: "rt_StartContainer R w p h = (Inr c, h1) \<Longrightarrow> live h1 = add_mset c (live h) \<and> dirs h1 = dirs h"
    and start_err: "rt_StartContainer R w p h = (Inl e, h1) \<Longrightarrow> live h1 = live h \<and> dirs h1 = dirs h"
    and start_nonempty: "rt_StartContainer R w p h = (Inr c, h1) \<Longrightarrow> c \<noteq> []"
    and exec_frame: "live (snd (rt_Exec R c opts h)) = live h \<and> dirs (snd (rt_Exec R c opts h)) = dirs h"
    and destroy_ok: "c \<noteq> [] \<Longrightarrow> live (snd (rt_DestroyContainer R c h)) = live h - {#c#} \<and>
                      dirs (snd (rt_DestroyContainer R c h)) = dirs h"
    and mkdir_ok: "oh_mkdir_temp H pat h = (Inr d, h1) \<Longrightarrow> live h1 = live h \<and> dirs h1 = add_mset d (dirs h)"
    and mkdir_err: "oh_mkdir_temp H pat h = (Inl e, h1) \<Longrightarrow> live h1 = live h \<and> dirs h1 = dirs h"
    and rmall_ok: "live (oh_remove_all H d h) = live h \<and> dirs (oh_remove_all H d h) = dirs h - {#d#}"
    and write_frame: "live (snd (oh_write_file H f s h)) = live h \<and> dirs (snd (oh_write_file H f s h)) = dirs h"
    and chmod_frame: "live (oh_chmod H f m h) = live h \<and> dirs (oh_chmod H f m h) = dirs h"
begin

lemma frame_simps [simp]:
  "live (snd (rt_Exec R c opts h)) = live h" "dirs (snd (rt_Exec R c opts h)) = dirs h"
  "live (snd (oh_write_file H f s h)) = live h" "dirs (snd (oh_write_file H f s h)) = dirs h"
  "live (oh_chmod H f m h) = live h" "dirs (oh_chmod H f m h) = dirs h"
  "live (oh_remove_all H d h) = live h" "dirs (oh_remove_all H d h) = dirs h - {#d#}"
  using exec_frame write_frame chmod_frame rmall_ok by auto

lemma exec_eq: "rt_Exec R c opts h = (r, h1) \<Longrightarrow> live h1 = live h \<and> dirs h1 = dirs h"
  using exec_frame [of c opts h] by simp

lemma write_eq: "oh_write_file H f s h = (e, h1) \<Longrightarrow> live h1 = live h \<and> dirs h1 = dirs h"
  using write_frame [of f s h] by simp

text \<open>A started container that is destroyed later, with nothing but framed calls between, is gone.\<close>

lemma start_destroy:
  assumes "rt_StartContainer R w p h = (Inr c, h1)" and "live h2 = live h1" and "dirs h2 = dirs h1"
  shows "live (snd (rt_DestroyContainer R c h2)) = live h" "dirs (snd (rt_DestroyContainer R c h2)) = dirs h"
  using start_ok [OF assms(1)] destroy_ok [OF start_nonempty [OF assms(1)], of h2] assms(2,3) by auto

lemma mkdir_remove:
  assumes "oh_mkdir_temp H pat h = (Inr d, h1)" and "live h2 = live h1" and "dirs h2 = dirs h1"
  shows "live (oh_remove_all H d h2) = live h" "dirs (oh_remove_all H d h2) = dirs h"
  using mkdir_ok [OF assms(1)] assms(2,3) by auto

end

text \<open>
  The log of a host: every container the Docker command line reported as started, every
  \<^verbatim>\<open>docker rm -f\<close>, every temporary directory made and removed. \<open>logged_host\<close> keeps the log beside the
  state of any host, and the Docker runtime over it satisfies the contract.
\<close>

datatype host_event = EvStarted string | EvRemoved string | EvMkdir string | EvRmdir string

definition docker_event :: "string list \<Rightarrow> string \<times> goerror option \<Rightarrow> host_event list" where
  "docker_event args res =
     (case args of
        a # rest \<Rightarrow>
          (if a = ''run'' \<and> snd res = None \<and> trim_space (fst res) \<noteq> [] then [EvStarted (trim_space (fst res))]
           else if a = ''rm'' \<and> rest \<noteq> [] then [EvRemoved (last rest)]
           else [])
      | [] \<Rightarrow> [])"

definition logged_host :: "'h os_host \<Rightarrow> ('h \<times> host_event list) os_host" where
  "logged_host H =
     \<lparr>oh_docker = (\<lambda>args (h, l). let (res, h1) = oh_docker H args h in (res, h1, docker_event args res @ l)),
      oh_spawn = (\<lambda>opts (h, l). let (run, h1) = oh_spawn H opts h in (run, h1, l)),
      oh_mkdir_temp = (\<lambda>pat (h, l). case oh_mkdir_temp H pat h of
          (Inr d, h1) \<Rightarrow> (Inr d, h1, EvMkdir d # l) | (Inl e, h1) \<Rightarrow> (Inl e, h1, l)),
      oh_remove_all = (\<lambda>d (h, l). (oh_remove_all H d h, EvRmdir d # l)),
      oh_write_file = (\<lambda>f s (h, l). let (e, h1) = oh_write_file H f s h in (e, h1, l)),
      oh_chmod = (\<lambda>f m (h, l). (oh_chmod H f m h, l))\<rparr>"

fun log_live :: "host_event list \<Rightarrow> string multiset" where
  "log_live [] = {#}"
| "log_live (EvStarted c # l) = add_mset c (log_live l)"
| "log_live (EvRemoved c # l) = log_live l - {#c#}"
| "log_live (_ # l) = log_live l"

fun log_dirs :: "host_event list \<Rightarrow> string multiset" where
  "log_dirs [] = {#}"
| "log_dirs (EvMkdir d # l) = add_mset d (log_dirs l)"
| "log_dirs (EvRmdir d # l) = log_dirs l - {#d#}"
| "log_dirs (_ # l) = log_dirs l"

lemma docker_event_run:
  "docker_event (docker_run_args s w p) (out, err) =
     (if err = None \<and> trim_space out \<noteq> [] then [EvStarted (trim_space out)] else [])"
  by (simp add: docker_event_def docker_run_args_def)

interpretation docker_host: resource_host "logged_host H" "docker_runtime (logged_host H) seccompPath"
    "\<lambda>h. log_live (snd h)" "\<lambda>h. log_dirs (snd h)" for H :: "'h os_host" and seccompPath
proof (unfold_locales, goal_cases)
  case (1 w p h c h1)
  then show ?case
    by (auto simp: docker_runtime_def docker_start_container_def logged_host_def docker_event_run Let_def
             split: prod.splits option.splits if_splits)
next
  case (2 w p h e h1)
  then show ?case
    by (auto simp: docker_runtime_def docker_start_container_def logged_host_def docker_event_run Let_def
             split: prod.splits option.splits if_splits)
next
  case (3 w p h c h1)
  then show ?case
    by (auto simp: docker_runtime_def docker_start_container_def Let_def split: prod.splits option.splits if_splits)
next
  case (4 c opts h)
  then show ?case
    by (auto simp: docker_runtime_def docker_exec_def logged_host_def Let_def split: prod.splits)
next
  case (5 c h)
  then show ?case
    by (auto simp: docker_runtime_def docker_destroy_container_def logged_host_def docker_event_def Let_def
             split: prod.splits)
qed (auto simp: logged_host_def Let_def split: prod.splits sum.splits)

section \<open>The command line of a container\<close>

text \<open>
  How the Docker command line reads \<^verbatim>\<open>docker run\<close>: options, some of them with a value, up to the first
  argument that is not one; that is the image, and the rest is the command. The values are taken as
  they are, so a value is never an option.
\<close>

definition docker_flags :: "string list" where
  "docker_flags = [''-d'', ''--rm'', ''--read-only'']"

definition docker_valued :: "string list" where
  "docker_valued =
     [''--network'', ''--cap-drop'', ''--security-opt'', ''--memory'', ''--cpus'', ''--pids-limit'', ''--tmpfs'', ''-v'']"

fun parse_options :: "string list \<Rightarrow> (string \<times> string option) list \<times> string list" where
  "parse_options [] = ([], [])"
| "parse_options [a] = (if a \<in> set docker_flags then ([(a, None)], []) else ([], [a]))"
| "parse_options (a # b # rest) =
     (if a \<in> set docker_flags then (let (os, cmd) = parse_options (b # rest) in ((a, None) # os, cmd))
      else if a \<in> set docker_valued then (let (os, cmd) = parse_options rest in ((a, Some b) # os, cmd))
      else ([], a # b # rest))"

lemmas parse_defs = docker_flags_def docker_valued_def

lemma docker_run_args_parse:
  assumes "pf_Image p \<notin> set docker_flags \<union> set docker_valued"
  shows "parse_options (tl (docker_run_args s w p)) =
    ([(''-d'', None), (''--rm'', None), (''--network'', Some ''none''), (''--read-only'', None),
      (''--cap-drop'', Some ''ALL''), (''--security-opt'', Some ''no-new-privileges''),
      (''--security-opt'', Some (''seccomp='' @ s)),
      (''--memory'', Some (dec_of_int (sint (pf_MemoryLimitBytes p)))),
      (''--cpus'', Some (format_float (pf_CPULimit p))),
      (''--pids-limit'', Some (dec_of_int (sint (pf_PidsLimit p)))),
      (''--tmpfs'', Some (''/tmp:rw,size='' @ dec_of_int (sint (pf_TmpfsSizeBytes p)) @ '',mode=1777'')),
      (''-v'', Some (w @ '':/workspace''))], [pf_Image p, ''sleep'', ''infinity''])"
  using assms by (simp add: docker_run_args_def parse_defs)

text \<open>No image of a profile is read as an option.\<close>

lemma if_InrE: "(if b then Inr x else r) = Inr p \<Longrightarrow> (p = x \<Longrightarrow> Q) \<Longrightarrow> (r = Inr p \<Longrightarrow> Q) \<Longrightarrow> Q"
  by (cases b) (simp_all only: if_True if_False sum.inject)

lemma profile_image: "get_profile_for_language lang = Inr p \<Longrightarrow> hd (pf_Image p) \<noteq> CHR ''-''"
  unfolding get_profile_for_language_def by (elim if_InrE) (simp_all split: if_splits)

lemma image_not_option: "hd i \<noteq> CHR ''-'' \<Longrightarrow> i \<notin> set docker_flags \<union> set docker_valued"
  by (auto simp: parse_defs)

section \<open>Properties\<close>



text \<open>
  whatever a language executor asks to run, the only process started on the host is \<^verbatim>\<open>docker exec\<close>
  into the given container as user 1000:1000 in the workspace, with the limits of the request; the
  command and its arguments come after all options, as single arguments of their own.
\<close>

theorem exec_runs_unprivileged:
  "\<exists>run. oh_spawn H (docker_run_options c opts) h = (run, snd (docker_exec H c opts h)) \<and>
     ro_Command (docker_run_options c opts) = ''docker'' \<and>
     ro_Args (docker_run_options c opts) =
       [''exec'', ''-i'', ''--user'', ''1000:1000'', ''-w'', ''/workspace'', c, eo_Command opts] @ eo_Args opts \<and>
     ro_StdoutLimit (docker_run_options c opts) = eo_StdoutLimit opts \<and>
     ro_Timeout (docker_run_options c opts) = eo_Timeout opts \<and>
     xr_Stdout (fst (docker_exec H c opts h)) = ps_Stdout (run_process (docker_run_options c opts) run)"
  by (simp add: docker_exec_def docker_run_options_def docker_exec_args_def Let_def split: prod.splits)

end
