(* ===== verification/Classify.thy ===== *)
theory Classify imports Sandbox Domain begin

text \<open>
  \<^verbatim>\<open>internal/sandbox/classifier/result.go\<close>: the map from the raw result of a sandboxed command to the
  status the API reports, in the order in which the code tests its conditions.
\<close>

definition out_of_memory_text :: "string \<Rightarrow> bool" where
  "out_of_memory_text err \<longleftrightarrow>
     contains_sub ''java.lang.OutOfMemoryError'' err \<or> contains_sub ''MemoryError'' err \<or>
     contains_sub ''out of memory'' err"

definition platform_error :: "exec_result \<Rightarrow> goerror option" where
  "platform_error res =
     (case xr_Error res of
        Some e \<Rightarrow> (if as_exit_error e = None then Some e else None)
      | None \<Rightarrow> None)"

definition classify :: "exec_result \<Rightarrow> execution_result" where
  "classify res =
     (case platform_error res of
        Some e \<Rightarrow> result_of StatusInternalError [] (''Internal Platform Error: '' @ error_text e) (- 1)
      | None \<Rightarrow>
          (if xr_Timeout res then
             result_of StatusTimeLimitExceeded (xr_Stdout res) (xr_Stderr res) (xr_ExitCode res)
           else if xr_OutputLimit res then
             result_of StatusOutputLimitExceeded (xr_Stdout res) (xr_Stderr res) (xr_ExitCode res)
           else if xr_ExitCode res = 137 then
             result_of StatusMemoryLimitExceeded (xr_Stdout res) ''Memory Limit Exceeded'' 137
           else if xr_ExitCode res \<noteq> 0 then
             (if out_of_memory_text (xr_Stderr res) then
                result_of StatusMemoryLimitExceeded (xr_Stdout res) (xr_Stderr res) (xr_ExitCode res)
              else
                result_of StatusRuntimeError (xr_Stdout res) (xr_Stderr res) (xr_ExitCode res))
           else result_of StatusSuccess (xr_Stdout res) (xr_Stderr res) 0))"

text \<open>When a raw result counts as a success.\<close>

definition clean_result :: "exec_result \<Rightarrow> bool" where
  "clean_result res \<longleftrightarrow>
     platform_error res = None \<and> \<not> xr_Timeout res \<and> \<not> xr_OutputLimit res \<and> xr_ExitCode res = 0"

lemma classify_success_iff: "rs_Status (classify res) = StatusSuccess \<longleftrightarrow> clean_result res"
  by (auto simp: classify_def clean_result_def split: option.splits)

lemma classify_internal_iff: "rs_Status (classify res) = StatusInternalError \<longleftrightarrow> platform_error res \<noteq> None"
  by (auto simp: classify_def split: option.splits)

lemma classify_timeout_iff:
  "rs_Status (classify res) = StatusTimeLimitExceeded \<longleftrightarrow> platform_error res = None \<and> xr_Timeout res"
  by (auto simp: classify_def split: option.splits)

lemma classify_output_iff:
  "rs_Status (classify res) = StatusOutputLimitExceeded \<longleftrightarrow>
     platform_error res = None \<and> \<not> xr_Timeout res \<and> xr_OutputLimit res"
  by (auto simp: classify_def split: option.splits)

lemma classify_memory_iff:
  "rs_Status (classify res) = StatusMemoryLimitExceeded \<longleftrightarrow>
     platform_error res = None \<and> \<not> xr_Timeout res \<and> \<not> xr_OutputLimit res \<and>
     (xr_ExitCode res = 137 \<or> xr_ExitCode res \<noteq> 0 \<and> out_of_memory_text (xr_Stderr res))"
  by (auto simp: classify_def split: option.splits)

lemma classify_runtime_iff:
  "rs_Status (classify res) = StatusRuntimeError \<longleftrightarrow>
     platform_error res = None \<and> \<not> xr_Timeout res \<and> \<not> xr_OutputLimit res \<and>
     xr_ExitCode res \<notin> {0, 137} \<and> \<not> out_of_memory_text (xr_Stderr res)"
  by (auto simp: classify_def split: option.splits)

lemmas classify_iffs =
  classify_success_iff classify_internal_iff classify_timeout_iff classify_output_iff
  classify_memory_iff classify_runtime_iff

definition classified_statuses :: "execution_status set" where
  "classified_statuses =
     {StatusSuccess, StatusInternalError, StatusTimeLimitExceeded, StatusOutputLimitExceeded,
      StatusMemoryLimitExceeded, StatusRuntimeError}"

lemma classify_status_range: "rs_Status (classify res) \<in> classified_statuses"
  by (auto simp: classify_def classified_statuses_def split: option.splits)

lemma classify_stdout: "platform_error res = None \<Longrightarrow> rs_Stdout (classify res) = xr_Stdout res"
  by (auto simp: classify_def)

lemma classify_exit_code: "platform_error res = None \<Longrightarrow> rs_ExitCode (classify res) = xr_ExitCode res"
  by (auto simp: classify_def)

section \<open>Properties\<close>

text \<open>
  the status of a raw result, as a decision table: an error that is not an exit status is an internal
  error whatever else holds; then the time limit, then the output limit, then exit code 137 or an
  out-of-memory message, then any other non-zero code decide, and only a clean exit is a success.
\<close>

theorem classify_table:
  "rs_Status (classify res) =
    (if platform_error res \<noteq> None then StatusInternalError
     else if xr_Timeout res then StatusTimeLimitExceeded
     else if xr_OutputLimit res then StatusOutputLimitExceeded
     else if xr_ExitCode res = 137 \<or> xr_ExitCode res \<noteq> 0 \<and> out_of_memory_text (xr_Stderr res)
     then StatusMemoryLimitExceeded
     else if xr_ExitCode res \<noteq> 0 then StatusRuntimeError else StatusSuccess) \<and>
   (platform_error res = None \<longrightarrow>
      rs_Stdout (classify res) = xr_Stdout res \<and> rs_ExitCode (classify res) = xr_ExitCode res)"
  by (auto simp: classify_def split: option.splits)

theorem classify_table_witness:
  "rs_Status (classify \<lparr>xr_Stdout = [], xr_Stderr = ''MemoryError'', xr_ExitCode = 1, xr_Timeout = False,
      xr_OutputLimit = False, xr_Error = Some (ExitError 1 ''exit status 1'')\<rparr>) = StatusMemoryLimitExceeded"
proof -
  have "out_of_memory_text ''MemoryError''" by code_simp
  then show ?thesis
    using classify_table [of "\<lparr>xr_Stdout = [], xr_Stderr = ''MemoryError'', xr_ExitCode = 1, xr_Timeout = False,
      xr_OutputLimit = False, xr_Error = Some (ExitError 1 ''exit status 1'')\<rparr>"]
    by (simp add: platform_error_def)
qed

end
