(* ===== verification/Languages.thy ===== *)
theory Languages imports Classify begin

text \<open>
  \<^verbatim>\<open>internal/language\<close>: the executors of the five languages (validation of the source, compilation and
  execution inside a container) and the registry that finds them. The interface
  \<^verbatim>\<open>LanguageExecutor\<close> is the locale \<open>executor_contract\<close>.
\<close>

section \<open>Steps the executors share\<close>

definition join_path :: "string \<Rightarrow> string \<Rightarrow> string" where
  "join_path dir file = dir @ ''/'' @ file"

text \<open>Write the source into the workspace and open its permissions (\<^verbatim>\<open>0777\<close>, \<^verbatim>\<open>0666\<close>).\<close>

definition write_source :: "'h os_host \<Rightarrow> string \<Rightarrow> string \<Rightarrow> string \<Rightarrow> 'h \<Rightarrow> goerror option \<times> 'h" where
  "write_source H workspaceDir file code h =
     (let sourcePath = join_path workspaceDir file
      in case oh_write_file H sourcePath code h of
           (Some err, h1) \<Rightarrow> (Some (Wrapped ''failed to write source file: '' err []), h1)
         | (None, h1) \<Rightarrow> (None, oh_chmod H sourcePath 438 (oh_chmod H workspaceDir 511 h1)))"

definition compile_with ::
  "'h os_host \<Rightarrow> 'h sandbox_runtime \<Rightarrow> string \<Rightarrow> string \<Rightarrow> exec_options \<Rightarrow> string \<Rightarrow> string \<Rightarrow> 'h
   \<Rightarrow> (goerror + exec_result option) \<times> 'h" where
  "compile_with H R file code opts workspaceDir containerID h =
     (case write_source H workspaceDir file code h of
        (Some err, h1) \<Rightarrow> (Inl err, h1)
      | (None, h1) \<Rightarrow> (let (res, h2) = rt_Exec R containerID opts h1 in (Inr (Some res), h2)))"

definition exec_opts :: "string \<Rightarrow> string list \<Rightarrow> string option \<Rightarrow> profile \<Rightarrow> i64 \<Rightarrow> exec_options" where
  "exec_opts cmd args stdin p timeout =
     \<lparr>eo_Command = cmd, eo_Args = args, eo_Stdin = stdin, eo_StdoutLimit = pf_MaxOutputBytes p,
      eo_StderrLimit = pf_MaxOutputBytes p, eo_Timeout = timeout\<rparr>"

text \<open>The standard input of a run: no reader for the empty input.\<close>

definition stdin_of :: "string \<Rightarrow> string option" where
  "stdin_of input = (if input \<noteq> [] then Some input else None)"

definition validate_nonempty :: "execution_request \<Rightarrow> goerror option" where
  "validate_nonempty req =
     (if trim_space (rq_SourceCode req) = [] then Some (ErrMsg ''source code cannot be empty'') else None)"

definition validate_with :: "string \<Rightarrow> string \<Rightarrow> execution_request \<Rightarrow> goerror option" where
  "validate_with needle msg req =
     (case validate_nonempty req of
        Some e \<Rightarrow> Some e
      | None \<Rightarrow> (if \<not> contains_sub needle (rq_SourceCode req) then Some (ErrMsg msg) else None))"

definition quoted :: "string \<Rightarrow> string" where
  "quoted s = CHR 0x27 # s @ [CHR 0x27]"

section \<open>The executors\<close>

definition java_validate :: "execution_request \<Rightarrow> goerror option" where
  "java_validate = validate_with ''public class Main'' (''java source must contain '' @ quoted ''public class Main'')"

definition java_compile where
  "java_compile H R p req =
     compile_with H R ''Main.java'' (rq_SourceCode req)
       (exec_opts ''javac'' [''-source'', ''1.8'', ''-target'', ''1.8'', ''Main.java''] None p (pf_Timeout p * 2))"

definition java_run :: "profile \<Rightarrow> execution_request \<Rightarrow> exec_options" where
  "java_run p req = exec_opts ''java'' [''Main''] (stdin_of (rq_Input req)) p (pf_Timeout p)"

definition python_validate :: "execution_request \<Rightarrow> goerror option" where
  "python_validate = validate_nonempty"

definition python_compile where
  "python_compile H R p req =
     compile_with H R ''main.py'' (rq_SourceCode req)
       (exec_opts ''python'' [''-m'', ''py_compile'', ''main.py''] None p (pf_Timeout p))"

definition python_run :: "profile \<Rightarrow> execution_request \<Rightarrow> exec_options" where
  "python_run p req = exec_opts ''python'' [''main.py''] (stdin_of (rq_Input req)) p (pf_Timeout p)"

definition go_validate :: "execution_request \<Rightarrow> goerror option" where
  "go_validate = validate_with ''package main'' (''go source must contain '' @ quoted ''package main'')"

definition go_compile where
  "go_compile H R p req =
     compile_with H R ''main.go'' (rq_SourceCode req)
       (exec_opts ''env'' [''GOCACHE=/tmp/go-build'', ''GOMAXPROCS=1'', ''go'', ''build'', ''-o'', ''program'', ''main.go'']
          None p (pf_Timeout p * 2))"

definition go_run :: "profile \<Rightarrow> execution_request \<Rightarrow> exec_options" where
  "go_run p req = exec_opts ''./program'' [] (stdin_of (rq_Input req)) p (pf_Timeout p)"

definition cpp_validate :: "execution_request \<Rightarrow> goerror option" where
  "cpp_validate = validate_with ''int main'' (''cpp source must contain '' @ quoted ''int main'')"

definition cpp_compile where
  "cpp_compile H R p req =
     compile_with H R ''main.cpp'' (rq_SourceCode req)
       (exec_opts ''g++'' [''-O2'', ''-std=c++20'', ''-o'', ''program'', ''main.cpp''] None p (pf_Timeout p * 2))"

definition cpp_run :: "profile \<Rightarrow> execution_request \<Rightarrow> exec_options" where
  "cpp_run p req = exec_opts ''./program'' [] (stdin_of (rq_Input req)) p (pf_Timeout p)"

definition sql_validate :: "execution_request \<Rightarrow> goerror option" where
  "sql_validate = validate_nonempty"

text \<open>SQL is not compiled: the setup script of the test case and the query are one standard input.\<close>

definition sql_script :: "execution_request \<Rightarrow> string" where
  "sql_script req =
     (if rq_Input req \<noteq> [] \<and> \<not> has_suffix [newline] (rq_Input req) then rq_Input req @ [newline] else rq_Input req)
     @ rq_SourceCode req"

definition sql_run :: "profile \<Rightarrow> execution_request \<Rightarrow> exec_options" where
  "sql_run p req =
     exec_opts ''sqlite3'' [''-header'', ''-list'', ''-separator'', ''|'', '':memory:''] (Some (sql_script req)) p (pf_Timeout p)"

datatype lang_executor =
  JavaExecutor profile | PythonExecutor profile | GoExecutor profile | CppExecutor profile | SqlExecutor profile

fun ex_Language :: "lang_executor \<Rightarrow> language" where
  "ex_Language (JavaExecutor p) = LanguageJava"
| "ex_Language (PythonExecutor p) = LanguagePython"
| "ex_Language (GoExecutor p) = LanguageGo"
| "ex_Language (CppExecutor p) = LanguageCpp"
| "ex_Language (SqlExecutor p) = LanguageSql"

fun ex_Profile :: "lang_executor \<Rightarrow> profile" where
  "ex_Profile (JavaExecutor p) = p"
| "ex_Profile (PythonExecutor p) = p"
| "ex_Profile (GoExecutor p) = p"
| "ex_Profile (CppExecutor p) = p"
| "ex_Profile (SqlExecutor p) = p"

fun ex_Validate :: "lang_executor \<Rightarrow> execution_request \<Rightarrow> goerror option" where
  "ex_Validate (JavaExecutor p) req = java_validate req"
| "ex_Validate (PythonExecutor p) req = python_validate req"
| "ex_Validate (GoExecutor p) req = go_validate req"
| "ex_Validate (CppExecutor p) req = cpp_validate req"
| "ex_Validate (SqlExecutor p) req = sql_validate req"

fun ex_Compile ::
  "'h os_host \<Rightarrow> 'h sandbox_runtime \<Rightarrow> lang_executor \<Rightarrow> execution_request \<Rightarrow> string \<Rightarrow> string \<Rightarrow> 'h
   \<Rightarrow> (goerror + exec_result option) \<times> 'h" where
  "ex_Compile H R (JavaExecutor p) req ws cid h = java_compile H R p req ws cid h"
| "ex_Compile H R (PythonExecutor p) req ws cid h = python_compile H R p req ws cid h"
| "ex_Compile H R (GoExecutor p) req ws cid h = go_compile H R p req ws cid h"
| "ex_Compile H R (CppExecutor p) req ws cid h = cpp_compile H R p req ws cid h"
| "ex_Compile H R (SqlExecutor p) req ws cid h = (Inr None, h)"

fun ex_run_options :: "lang_executor \<Rightarrow> execution_request \<Rightarrow> exec_options" where
  "ex_run_options (JavaExecutor p) req = java_run p req"
| "ex_run_options (PythonExecutor p) req = python_run p req"
| "ex_run_options (GoExecutor p) req = go_run p req"
| "ex_run_options (CppExecutor p) req = cpp_run p req"
| "ex_run_options (SqlExecutor p) req = sql_run p req"

text \<open>\<^verbatim>\<open>Execute\<close> of every language passes its options to the runtime; it has no error of its own.\<close>

definition ex_Execute ::
  "'h sandbox_runtime \<Rightarrow> lang_executor \<Rightarrow> execution_request \<Rightarrow> string \<Rightarrow> 'h \<Rightarrow> (goerror + exec_result) \<times> 'h" where
  "ex_Execute R ex req cid h = (let (res, h1) = rt_Exec R cid (ex_run_options ex req) h in (Inr res, h1))"

lemmas compile_defs = java_compile_def python_compile_def go_compile_def cpp_compile_def
lemmas run_defs = java_run_def python_run_def go_run_def cpp_run_def sql_run_def exec_opts_def
lemmas validate_defs =
  java_validate_def python_validate_def go_validate_def cpp_validate_def sql_validate_def
  validate_with_def validate_nonempty_def

section \<open>The registry (registry.go)\<close>

type_synonym language_registry = "language \<rightharpoonup> lang_executor"

definition new_map_registry :: language_registry where
  "new_map_registry = Map.empty"

definition register_executor :: "lang_executor \<Rightarrow> language_registry \<Rightarrow> language_registry" where
  "register_executor ex r = r(ex_Language ex \<mapsto> ex)"

definition get_executor :: "language_registry \<Rightarrow> language \<Rightarrow> goerror + lang_executor" where
  "get_executor r lang = (case r lang of None \<Rightarrow> Inl ErrUnsupportedLanguage | Some ex \<Rightarrow> Inr ex)"

definition supported_languages :: "language_registry \<Rightarrow> language set" where
  "supported_languages r = dom r"

text \<open>Every executor is filed under its own language.\<close>

definition registry_ok :: "language_registry \<Rightarrow> bool" where
  "registry_ok r \<longleftrightarrow> (\<forall>lang ex. r lang = Some ex \<longrightarrow> ex_Language ex = lang)"

lemma registry_ok_new: "registry_ok new_map_registry"
  by (simp add: registry_ok_def new_map_registry_def)

lemma registry_ok_register: "registry_ok r \<Longrightarrow> registry_ok (register_executor ex r)"
  by (auto simp: registry_ok_def register_executor_def)

lemma get_executor_register:
  "get_executor (register_executor ex r) lang =
     (if lang = ex_Language ex then Inr ex else get_executor r lang)"
  by (simp add: get_executor_def register_executor_def)

text \<open>The registry \<^verbatim>\<open>main\<close> builds: a profile that cannot be found is the zero profile (its error is dropped).\<close>

definition profile_or_zero :: "string \<Rightarrow> profile" where
  "profile_or_zero lang =
     (case get_profile_for_language lang of
        Inr p \<Rightarrow> p
      | Inl e \<Rightarrow> \<lparr>pf_Name = [], pf_Image = [], pf_MemoryLimitBytes = 0, pf_CPULimit = F_Fin 0, pf_PidsLimit = 0,
                  pf_TmpfsSizeBytes = 0, pf_Timeout = 0, pf_MaxOutputBytes = 0\<rparr>)"

definition main_registry :: language_registry where
  "main_registry =
     register_executor (SqlExecutor (profile_or_zero ''sql''))
    (register_executor (CppExecutor (profile_or_zero ''cpp''))
    (register_executor (GoExecutor (profile_or_zero ''go''))
    (register_executor (PythonExecutor (profile_or_zero ''python''))
    (register_executor (JavaExecutor (profile_or_zero ''java'')) new_map_registry))))"

section \<open>The contract of an executor\<close>

locale executor_contract = resource_host H R live dirs
  for H :: "'h os_host" and R :: "'h sandbox_runtime"
    and live :: "'h \<Rightarrow> string multiset" and dirs :: "'h \<Rightarrow> string multiset" +
  fixes validate :: "execution_request \<Rightarrow> goerror option"
    and compile :: "execution_request \<Rightarrow> string \<Rightarrow> string \<Rightarrow> 'h \<Rightarrow> (goerror + exec_result option) \<times> 'h"
    and execute :: "execution_request \<Rightarrow> string \<Rightarrow> 'h \<Rightarrow> (goerror + exec_result) \<times> 'h"
  assumes rejects_blank: "all_space (rq_SourceCode req) \<Longrightarrow> validate req \<noteq> None"
    and compile_frame: "live (snd (compile req ws cid h)) = live h \<and> dirs (snd (compile req ws cid h)) = dirs h"
    and execute_frame: "live (snd (execute req cid h)) = live h \<and> dirs (snd (execute req cid h)) = dirs h"
    and execute_total: "\<exists>res. fst (execute req cid h) = Inr res"
begin

lemma accepted_not_blank: "validate req = None \<Longrightarrow> trim_space (rq_SourceCode req) \<noteq> []"
  using rejects_blank [of req] by (auto simp: trim_space_empty_iff)

lemma compile_then_execute_frame:
  "live (snd (execute req2 cid2 (snd (compile req ws cid h)))) = live h"
  "dirs (snd (execute req2 cid2 (snd (compile req ws cid h)))) = dirs h"
  using compile_frame execute_frame by auto

end

context resource_host
begin

lemma compile_with_frame:
  "live (snd (compile_with H R f code opts ws cid h)) = live h \<and>
   dirs (snd (compile_with H R f code opts ws cid h)) = dirs h"
  by (auto simp: compile_with_def write_source_def Let_def split: prod.splits option.splits
           dest!: exec_eq write_eq)

lemma ex_Compile_frame:
  "live (snd (ex_Compile H R ex req ws cid h)) = live h \<and> dirs (snd (ex_Compile H R ex req ws cid h)) = dirs h"
  by (cases ex) (simp_all add: compile_defs compile_with_frame)

lemma ex_Execute_frame:
  "live (snd (ex_Execute R ex req cid h)) = live h \<and> dirs (snd (ex_Execute R ex req cid h)) = dirs h"
  by (auto simp: ex_Execute_def split: prod.splits dest!: exec_eq)

end

lemma ex_Validate_blank: "all_space (rq_SourceCode req) \<Longrightarrow> ex_Validate ex req \<noteq> None"
  by (cases ex) (auto simp: validate_defs trim_space_empty_iff)

lemma ex_Execute_total: "\<exists>res. fst (ex_Execute R ex req cid h) = Inr res"
  by (auto simp: ex_Execute_def split: prod.splits)

interpretation docker_executor: executor_contract "logged_host H" "docker_runtime (logged_host H) seccompPath"
    "\<lambda>h. log_live (snd h)" "\<lambda>h. log_dirs (snd h)"
    "ex_Validate ex" "ex_Compile (logged_host H) (docker_runtime (logged_host H) seccompPath) ex"
    "ex_Execute (docker_runtime (logged_host H) seccompPath) ex"
  for H :: "'h os_host" and seccompPath and ex
  by unfold_locales
    (rule ex_Validate_blank docker_host.ex_Compile_frame docker_host.ex_Execute_frame ex_Execute_total; assumption?)+

section \<open>Properties\<close>

lemma main_registry_simps:
  "main_registry ''java'' = Some (JavaExecutor (profile_or_zero ''java''))"
  "main_registry ''python'' = Some (PythonExecutor (profile_or_zero ''python''))"
  "main_registry ''go'' = Some (GoExecutor (profile_or_zero ''go''))"
  "main_registry ''cpp'' = Some (CppExecutor (profile_or_zero ''cpp''))"
  "main_registry ''sql'' = Some (SqlExecutor (profile_or_zero ''sql''))"
  by (simp_all add: main_registry_def register_executor_def language_defs)

lemma main_registry_dom: "dom main_registry = {''java'', ''python'', ''go'', ''cpp'', ''sql''}"
  by (auto simp: main_registry_def register_executor_def new_map_registry_def language_defs)

lemma main_registry_ok: "registry_ok main_registry"
  by (simp add: main_registry_def registry_ok_register registry_ok_new)

text \<open>
  the registry of the running program: a language has an executor exactly when it is one of the five,
  the executor is the language's own and carries the profile of that language with a container image;
  any other name is \<^verbatim>\<open>ErrUnsupportedLanguage\<close>.
\<close>

theorem main_registry_complete:
  "(\<forall>lang ex. get_executor main_registry lang = Inr ex \<longrightarrow>
      ex_Language ex = lang \<and> get_profile_for_language lang = Inr (ex_Profile ex) \<and> pf_Image (ex_Profile ex) \<noteq> []) \<and>
   (\<forall>lang. get_executor main_registry lang = Inl ErrUnsupportedLanguage \<longleftrightarrow>
      lang \<notin> {''java'', ''python'', ''go'', ''cpp'', ''sql''})"
proof (intro conjI allI impI)
  fix lang ex assume g: "get_executor main_registry lang = Inr ex"
  then have r: "main_registry lang = Some ex" by (auto simp: get_executor_def split: option.splits)
  then have "lang \<in> dom main_registry" by blast
  then consider "lang = ''java''" | "lang = ''python''" | "lang = ''go''" | "lang = ''cpp''" | "lang = ''sql''"
    by (auto simp: main_registry_dom)
  then show "ex_Language ex = lang"
    and "get_profile_for_language lang = Inr (ex_Profile ex)" and "pf_Image (ex_Profile ex) \<noteq> []"
    using r main_registry_ok
    by (cases; auto simp: main_registry_simps language_defs profile_or_zero_def get_profile_for_language_def)+
next
  fix lang
  show "(get_executor main_registry lang = Inl ErrUnsupportedLanguage) =
      (lang \<notin> {''java'', ''python'', ''go'', ''cpp'', ''sql''})"
    unfolding main_registry_dom [symmetric] by (auto simp: get_executor_def split: option.splits)
qed

theorem main_registry_complete_witness: "get_executor main_registry ''rust'' = Inl ErrUnsupportedLanguage"
  using main_registry_complete by simp

text \<open>
  The source of a SQL run is one script: the setup of the test case, if there is one, ends with a line
  feed before the query begins, so neither runs into the other, and nothing else is added.
\<close>

theorem sql_script_separates:
  assumes "rq_Input req \<noteq> []"
  shows "\<exists>setup. sql_script req = setup @ [newline] @ rq_SourceCode req \<and>
    (rq_Input req = setup \<and> last setup \<noteq> newline \<or> rq_Input req = setup @ [newline])"
proof (cases "rq_Input req" rule: rev_cases)
  case (snoc s c)
  then show ?thesis
    by (cases "c = newline") (auto simp: sql_script_def has_suffix_def has_prefix_def)
qed (use assms in simp)

theorem sql_script_separates_witness:
  "\<exists>setup. sql_script \<lparr>rq_Language = ''sql'', rq_SourceCode = ''SELECT 1;'', rq_Input = ''CREATE TABLE t(a);''\<rparr> =
     setup @ [newline] @ ''SELECT 1;''"
  using sql_script_separates
    [of "\<lparr>rq_Language = ''sql'', rq_SourceCode = ''SELECT 1;'', rq_Input = ''CREATE TABLE t(a);''\<rparr>"] by auto

end
