(* ===== verification/Exec_Service.thy ===== *)
theory Exec_Service imports Languages begin

text \<open>
  \<^verbatim>\<open>internal/execution/service.go\<close>: \<^verbatim>\<open>Service.Execute\<close>, the pipeline of one run: look the executor up,
  validate, make a workspace, start a container, compile, run, classify. The deferred clean-ups run
  in the functions that open what they close, in the reverse order of the \<^verbatim>\<open>defer\<close>s.
\<close>

text \<open>The status of a failed compilation: a non-zero exit is a compilation error, a time-out a compilation time-out.\<close>

definition compile_status :: "execution_result \<Rightarrow> execution_result" where
  "compile_status r =
     (if rs_Status r = StatusRuntimeError then r\<lparr>rs_Status := StatusCompilationError\<rparr>
      else if rs_Status r = StatusTimeLimitExceeded then r\<lparr>rs_Status := StatusCompilationTimeout\<rparr>
      else r)"

definition run_in_container ::
  "'h sandbox_runtime \<Rightarrow> lang_executor \<Rightarrow> execution_request \<Rightarrow> string \<Rightarrow> 'h \<Rightarrow> (goerror + execution_result) \<times> 'h" where
  "run_in_container R ex req containerID h =
     (case ex_Execute R ex req containerID h of
        (Inl err, h1) \<Rightarrow> (Inl (Wrapped ''internal execution error: '' err []), h1)
      | (Inr runRes, h1) \<Rightarrow> (Inr (classify runRes), h1))"

definition execute_in_container ::
  "'h os_host \<Rightarrow> 'h sandbox_runtime \<Rightarrow> lang_executor \<Rightarrow> execution_request \<Rightarrow> string \<Rightarrow> string \<Rightarrow> 'h
   \<Rightarrow> (goerror + execution_result) \<times> 'h" where
  "execute_in_container H R ex req workspace containerID h =
     (case ex_Compile H R ex req workspace containerID h of
        (Inl err, h1) \<Rightarrow> (Inl (Wrapped ''internal compile error: '' err []), h1)
      | (Inr (Some compileRes), h1) \<Rightarrow>
          (if rs_Status (classify compileRes) \<noteq> StatusSuccess
           then (Inr (compile_status (classify compileRes)), h1)
           else run_in_container R ex req containerID h1)
      | (Inr None, h1) \<Rightarrow> run_in_container R ex req containerID h1)"

definition execute_in_workspace ::
  "'h os_host \<Rightarrow> 'h sandbox_runtime \<Rightarrow> lang_executor \<Rightarrow> execution_request \<Rightarrow> string \<Rightarrow> 'h
   \<Rightarrow> (goerror + execution_result) \<times> 'h" where
  "execute_in_workspace H R ex req workspace h =
     (case rt_StartContainer R workspace (ex_Profile ex) h of
        (Inl err, h1) \<Rightarrow> (Inl (Wrapped ''failed to start sandbox: '' err []), h1)
      | (Inr containerID, h1) \<Rightarrow>
          (let (res, h2) = execute_in_container H R ex req workspace containerID h1
           in (res, snd (rt_DestroyContainer R containerID h2))))"

definition execute_request ::
  "'h os_host \<Rightarrow> 'h sandbox_runtime \<Rightarrow> language_registry \<Rightarrow> execution_request \<Rightarrow> 'h
   \<Rightarrow> (goerror + execution_result) \<times> 'h" where
  "execute_request H R registry req h =
     (case get_executor registry (rq_Language req) of
        Inl err \<Rightarrow> (Inl (Wrapped ''failed to get language executor: '' err []), h)
      | Inr ex \<Rightarrow>
          (case ex_Validate ex req of
             Some err \<Rightarrow>
               (Inr (result_of StatusCompilationError [] (''Validation Error: '' @ error_text err) 0), h)
           | None \<Rightarrow>
               (case oh_mkdir_temp H (''code-executor-'' @ rq_Language req @ ''-*'') h of
                  (Inl err, h1) \<Rightarrow> (Inl (Wrapped ''failed to create temp directory: '' err []), h1)
                | (Inr workspace, h1) \<Rightarrow>
                    (let (res, h2) = execute_in_workspace H R ex req workspace h1
                     in (res, oh_remove_all H workspace h2)))))"

section \<open>Resources\<close>

context resource_host
begin

lemma ex_Compile_eq: "ex_Compile H R ex req ws cid h = (r, h1) \<Longrightarrow> live h1 = live h \<and> dirs h1 = dirs h"
  using ex_Compile_frame [of ex req ws cid h] by simp

lemma ex_Execute_eq: "ex_Execute R ex req cid h = (r, h1) \<Longrightarrow> live h1 = live h \<and> dirs h1 = dirs h"
  using ex_Execute_frame [of ex req cid h] by simp

lemma run_in_container_frame:
  "run_in_container R ex req cid h = (res, h1) \<Longrightarrow> live h1 = live h \<and> dirs h1 = dirs h"
  by (auto simp: run_in_container_def split: prod.splits sum.splits dest!: ex_Execute_eq)

lemma execute_in_container_frame:
  "execute_in_container H R ex req ws cid h = (res, h1) \<Longrightarrow> live h1 = live h \<and> dirs h1 = dirs h"
  by (auto simp: execute_in_container_def split: prod.splits sum.splits option.splits if_splits
           dest!: ex_Compile_eq run_in_container_frame)

lemma execute_in_workspace_frame:
  assumes "execute_in_workspace H R ex req ws h = (res, h1)"
  shows "live h1 = live h \<and> dirs h1 = dirs h"
proof (cases "rt_StartContainer R ws (ex_Profile ex) h")
  case (Pair r h0)
  show ?thesis
  proof (cases r)
    case (Inl e)
    with assms Pair show ?thesis by (auto simp: execute_in_workspace_def dest: start_err)
  next
    case (Inr c)
    obtain res2 h2 where run: "execute_in_container H R ex req ws c h0 = (res2, h2)" by fastforce
    with assms Pair Inr have "h1 = snd (rt_DestroyContainer R c h2)"
      by (auto simp: execute_in_workspace_def)
    with start_destroy [of ws "ex_Profile ex" h c h0 h2] Pair Inr execute_in_container_frame [OF run]
    show ?thesis by simp
  qed
qed

lemma execute_request_balanced:
  assumes "execute_request H R registry req h = (res, h1)"
  shows "live h1 = live h \<and> dirs h1 = dirs h"
proof (cases "get_executor registry (rq_Language req)")
  case (Inl e)
  with assms show ?thesis by (auto simp: execute_request_def)
next
  case (Inr ex)
  note reg = Inr
  show ?thesis
  proof (cases "ex_Validate ex req")
    case (Some e)
    with assms reg show ?thesis by (auto simp: execute_request_def)
  next
    case None
    obtain d h0 where mk: "oh_mkdir_temp H (''code-executor-'' @ rq_Language req @ ''-*'') h = (d, h0)"
      by fastforce
    show ?thesis
    proof (cases d)
      case (Inl e)
      with assms reg None mk show ?thesis by (auto simp: execute_request_def dest: mkdir_err)
    next
      case (Inr ws)
      obtain r2 h2 where run: "execute_in_workspace H R ex req ws h0 = (r2, h2)" by fastforce
      with assms reg None mk Inr have "h1 = oh_remove_all H ws h2" by (auto simp: execute_request_def)
      with mkdir_remove [of _ h ws h0 h2] mk Inr execute_in_workspace_frame [OF run]
      show ?thesis by simp
    qed
  qed
qed

end

section \<open>Outcomes\<close>

lemma run_in_container_cases:
  "run_in_container R ex req cid h =
     (let (res, h1) = rt_Exec R cid (ex_run_options ex req) h in (Inr (classify res), h1))"
  by (simp add: run_in_container_def ex_Execute_def split: prod.splits)

text \<open>The statuses a run can end with: those of the classifier and the two of a failed compilation.\<close>

definition run_statuses :: "execution_status set" where
  "run_statuses = classified_statuses \<union> {StatusCompilationError, StatusCompilationTimeout}"

lemma compilation_error_status: "StatusCompilationError \<in> run_statuses"
  by (simp add: run_statuses_def)

lemma compile_status_range:
  "rs_Status (compile_status (classify r)) \<in> run_statuses"
  using classify_status_range [of r]
  by (auto simp: compile_status_def run_statuses_def classified_statuses_def)

lemma execute_in_container_status:
  "execute_in_container H R ex req ws cid h = (Inr res, h1) \<Longrightarrow> rs_Status res \<in> run_statuses"
  using compile_status_range classify_status_range
  by (auto simp: execute_in_container_def run_in_container_cases run_statuses_def
           split: prod.splits sum.splits option.splits if_splits)

lemma execute_request_status:
  "execute_request H R registry req h = (Inr res, h1) \<Longrightarrow> rs_Status res \<in> run_statuses"
  by (auto simp: execute_request_def execute_in_workspace_def compilation_error_status
           split: prod.splits sum.splits option.splits dest!: execute_in_container_status)

text \<open>A compiled run that did not fail to compile: the result is the classified result of the program.\<close>

lemma execute_in_container_run:
  assumes "ex_Compile H R ex req ws cid h = (Inr c, h1)"
    and "\<And>r. c = Some r \<Longrightarrow> clean_result r"
  shows "execute_in_container H R ex req ws cid h = run_in_container R ex req cid h1"
  using assms by (cases c) (auto simp: execute_in_container_def classify_success_iff)

lemma execute_in_container_compile_failure:
  assumes "ex_Compile H R ex req ws cid h = (Inr (Some r), h1)" and "\<not> clean_result r"
  shows "execute_in_container H R ex req ws cid h = (Inr (compile_status (classify r)), h1)"
  using assms by (auto simp: execute_in_container_def classify_success_iff)

section \<open>Properties\<close>


definition host_example :: "nat os_host" where
  "host_example =
     \<lparr>oh_docker = (\<lambda>args n. ((''c1'' @ [newline], None), Suc n)),
      oh_spawn = (\<lambda>opts n. (\<lparr>pr_start = None, pr_writes = [(OutStream, ''ok'')], pr_select = ProcExited None,
                             pr_cause = None\<rparr>, n)),
      oh_mkdir_temp = (\<lambda>pat n. (Inr ''/tmp/w'', n)),
      oh_remove_all = (\<lambda>d n. n),
      oh_write_file = (\<lambda>f s n. (None, n)),
      oh_chmod = (\<lambda>f m n. n)\<rparr>"

definition request_example :: execution_request where
  "request_example = \<lparr>rq_Language = ''python'', rq_SourceCode = ''x'', rq_Input = []\<rparr>"


text \<open>
  C11: a result is a success only if the source passed validation, the compilation (where the language has
  one) was clean and the run was clean; it then carries exactly what the run wrote, with exit code 0.
\<close>

theorem success_means_clean_run:
  assumes "execute_request H R registry req h = (Inr res, h1)" and "rs_Status res = StatusSuccess"
  shows "\<exists>ex ws cid comp run h2 h3 h4.
    get_executor registry (rq_Language req) = Inr ex \<and> ex_Validate ex req = None \<and>
    ex_Compile H R ex req ws cid h2 = (Inr comp, h3) \<and> (\<forall>c. comp = Some c \<longrightarrow> clean_result c) \<and>
    rt_Exec R cid (ex_run_options ex req) h3 = (run, h4) \<and> clean_result run \<and>
    rs_Stdout res = xr_Stdout run \<and> rs_ExitCode res = 0"
  using assms
  by (fastforce simp: execute_request_def execute_in_workspace_def execute_in_container_def run_in_container_cases
        classify_success_iff classify_stdout classify_exit_code clean_result_def compile_status_def
      split: prod.splits sum.splits option.splits if_splits)


definition runtime_example :: "nat sandbox_runtime" where
  "runtime_example =
     \<lparr>rt_StartContainer = (\<lambda>w p n. (Inr ''c1'', n)),
      rt_Exec = (\<lambda>c opts n. (\<lparr>xr_Stdout = ''ok'', xr_Stderr = [], xr_ExitCode = 0, xr_Timeout = False,
                               xr_OutputLimit = False, xr_Error = None\<rparr>, n)),
      rt_DestroyContainer = (\<lambda>c n. (None, n))\<rparr>"

lemma request_example_valid: "python_validate request_example = None"
proof -
  have "trim_space ''x'' = ''x''" by code_simp
  then show ?thesis by (simp add: validate_defs request_example_def)
qed

lemma execute_example:
  "execute_request host_example runtime_example main_registry request_example 0 =
     (Inr (result_of StatusSuccess ''ok'' [] 0), 0)"
proof -
  have "get_executor main_registry (rq_Language request_example) = Inr (PythonExecutor (profile_or_zero ''python''))"
    by (simp add: get_executor_def request_example_def main_registry_simps)
  then show ?thesis
    by (simp add: execute_request_def request_example_valid execute_in_workspace_def execute_in_container_def
        run_in_container_def ex_Execute_def compile_defs compile_with_def write_source_def Let_def host_example_def
        runtime_example_def classify_def platform_error_def)
qed

theorem success_means_clean_run_witness:
  "\<exists>run. clean_result run \<and> xr_Stdout run = ''ok''"
  using success_means_clean_run [OF execute_example] by auto

end
