(* ===== verification/Job_Model.thy ===== *)
theory Job_Model imports Domain begin

text \<open>
  \<^verbatim>\<open>internal/jobs/job.go\<close> and \<^verbatim>\<open>memory_store.go\<close>: the execution job, its deep copy, and the in-memory
  store. A pointer field is an \<open>option\<close>; times are microseconds.
\<close>

section \<open>Jobs (job.go)\<close>

datatype job_status = JobQueued | JobClaimed | JobRunning | JobCompleted | JobDeadLettered

record execution_job =
  ej_ID :: string
  ej_Language :: language
  ej_SourceCode :: string
  ej_Inputs :: "string slice"
  ej_Status :: job_status
  ej_Results :: "execution_result slice"
  ej_CreatedAt :: int
  ej_ClaimedAt :: "int option"
  ej_StartedAt :: "int option"
  ej_CompletedAt :: "int option"
  ej_WorkerID :: "string option"
  ej_AttemptCount :: int
  ej_MaxAttempts :: int
  ej_NextRetryAt :: "int option"
  ej_LeaseExpiresAt :: "int option"
  ej_LastError :: "string option"
  ej_DeadLetteredAt :: "int option"
  ej_LastDispatchedAt :: "int option"

definition clone_job :: "execution_job \<Rightarrow> execution_job" where
  "clone_job j =
     \<lparr>ej_ID = ej_ID j, ej_Language = ej_Language j, ej_SourceCode = ej_SourceCode j,
      ej_Inputs = copy_slice (ej_Inputs j),
      ej_Status = ej_Status j,
      ej_Results = (case ej_Results j of None \<Rightarrow> None | Some rs \<Rightarrow> copy_slice (Some rs)),
      ej_CreatedAt = ej_CreatedAt j,
      ej_ClaimedAt = ej_ClaimedAt j, ej_StartedAt = ej_StartedAt j, ej_CompletedAt = ej_CompletedAt j,
      ej_WorkerID = ej_WorkerID j,
      ej_AttemptCount = ej_AttemptCount j, ej_MaxAttempts = ej_MaxAttempts j,
      ej_NextRetryAt = ej_NextRetryAt j, ej_LeaseExpiresAt = ej_LeaseExpiresAt j,
      ej_LastError = ej_LastError j, ej_DeadLetteredAt = ej_DeadLetteredAt j,
      ej_LastDispatchedAt = ej_LastDispatchedAt j\<rparr>"

definition same_job :: "execution_job \<Rightarrow> execution_job \<Rightarrow> bool" where
  "same_job a b \<longleftrightarrow>
     a = b\<lparr>ej_Inputs := ej_Inputs a, ej_Results := ej_Results a\<rparr> \<and>
     elems (ej_Inputs a) = elems (ej_Inputs b) \<and> elems (ej_Results a) = elems (ej_Results b)"

text \<open>The copy has the same contents; only an empty slice that is not nil becomes nil.\<close>

lemma clone_same: "same_job (clone_job j) j"
  by (cases j) (auto simp: same_job_def clone_job_def split: option.splits)

lemma clone_exact:
  "ej_Inputs j \<noteq> Some [] \<Longrightarrow> ej_Results j \<noteq> Some [] \<Longrightarrow> clone_job j = j"
  by (cases j) (auto simp: clone_job_def copy_slice_def elems_def split: option.splits)

lemma clone_sel [simp]:
  "ej_ID (clone_job j) = ej_ID j" "ej_Status (clone_job j) = ej_Status j"
  "ej_Language (clone_job j) = ej_Language j" "ej_SourceCode (clone_job j) = ej_SourceCode j"
  "elems (ej_Inputs (clone_job j)) = elems (ej_Inputs j)"
  "elems (ej_Results (clone_job j)) = elems (ej_Results j)"
  by (auto simp: clone_job_def split: option.splits)

lemma clone_idem [simp]: "clone_job (clone_job j) = clone_job j"
  by (cases j) (auto simp: clone_job_def copy_slice_def elems_def split: option.splits)

section \<open>The in-memory store (memory_store.go)\<close>

type_synonym memory_store = "string \<rightharpoonup> execution_job"

definition new_memory_store :: memory_store where
  "new_memory_store = Map.empty"

definition mem_create :: "execution_job \<Rightarrow> memory_store \<Rightarrow> goerror option \<times> memory_store" where
  "mem_create job s =
     (if ej_Status job \<noteq> JobQueued then (Some ErrInvalidState, s)
      else (None, s(ej_ID job \<mapsto> clone_job job)))"

definition mem_get :: "string \<Rightarrow> memory_store \<Rightarrow> goerror + execution_job" where
  "mem_get jobID s = (case s jobID of None \<Rightarrow> Inl ErrJobNotFound | Some job \<Rightarrow> Inr (clone_job job))"

definition mem_mark_running :: "int \<Rightarrow> string \<Rightarrow> memory_store \<Rightarrow> goerror option \<times> memory_store" where
  "mem_mark_running now jobID s =
     (case s jobID of
        None \<Rightarrow> (Some ErrJobNotFound, s)
      | Some job \<Rightarrow>
          (if ej_Status job \<noteq> JobQueued then (Some ErrInvalidState, s)
           else (None, s(jobID \<mapsto> job\<lparr>ej_Status := JobRunning, ej_StartedAt := Some now\<rparr>))))"

definition mem_complete ::
  "int \<Rightarrow> string \<Rightarrow> string \<Rightarrow> execution_result slice \<Rightarrow> memory_store \<Rightarrow> goerror option \<times> memory_store" where
  "mem_complete now jobID workerID results s =
     (case s jobID of
        None \<Rightarrow> (Some ErrJobNotFound, s)
      | Some job \<Rightarrow>
          (if ej_Status job \<noteq> JobRunning then (Some ErrInvalidState, s)
           else (None, s(jobID \<mapsto> job\<lparr>ej_Status := JobCompleted, ej_CompletedAt := Some now,
                                  ej_Results := copy_slice results\<rparr>))))"

lemmas mem_defs = mem_create_def mem_get_def mem_mark_running_def mem_complete_def

lemma mem_error_unchanged:
  "mem_create job s = (Some e, s1) \<Longrightarrow> s1 = s"
  "mem_mark_running now jobID s = (Some e, s1) \<Longrightarrow> s1 = s"
  "mem_complete now jobID w rs s = (Some e, s1) \<Longrightarrow> s1 = s"
  by (auto simp: mem_defs split: option.splits if_splits)

end
