(* ===== verification/Database.thy ===== *)
theory Database imports Job_Model Go_Float begin

text \<open>
  The PostgreSQL side of the program: the tables of the migrations, and what executing one
  statement can do. The statements themselves are modelled where the code issues them, from their
  SQL text. What the server and the connection do is the script of the database state: for each
  statement, how much time passes before it and whether it is applied, refused, or applied with the
  reply lost, so a theorem over all states covers every pattern of delays and failures. Once the
  script is used up, statements are applied without delay.
\<close>

datatype outcome = Applied | Refused goerror | ReplyLost goerror

section \<open>Rows\<close>

text \<open>A row of \<^verbatim>\<open>executions\<close>; a nullable column is an \<open>option\<close>.\<close>

record execution_row =
  er_id :: string
  er_language :: string
  er_source_code :: string
  er_inputs :: "string jsonb"
  er_job_status :: job_status
  er_results :: "execution_result jsonb option"
  er_created_at :: int
  er_claimed_at :: "int option"
  er_started_at :: "int option"
  er_completed_at :: "int option"
  er_worker_id :: "string option"
  er_attempt_count :: int
  er_max_attempts :: int
  er_next_retry_at :: "int option"
  er_lease_expires_at :: "int option"
  er_last_error :: "string option"
  er_dead_lettered_at :: "int option"
  er_last_dispatched_at :: "int option"

datatype worker_status = WorkerStarting | WorkerActive | WorkerDraining | WorkerStopped

record worker_row =
  wr_worker_id :: string
  wr_status :: worker_status
  wr_started_at :: int
  wr_last_heartbeat_at :: int
  wr_updated_at :: int

record database =
  db_now :: int
  db_script :: "(nat \<times> outcome) list"
  db_executions :: "execution_row list"
  db_workers :: "worker_row list"
  db_problems :: "f64 problem list"
  db_test_cases :: "test_case list"
  db_submissions :: "submission list"
  db_uuid_in :: "string \<Rightarrow> string option" \<comment> \<open>the canonical spelling of a text that the type \<^verbatim>\<open>UUID\<close> reads\<close>
  db_uuid :: "nat \<Rightarrow> string" \<comment> \<open>\<^verbatim>\<open>gen_random_uuid()\<close>\<close>
  db_seq :: nat

section \<open>Executing a statement\<close>

text \<open>A statement gives its result and the new state, or an error of its own (a violated constraint).\<close>

type_synonym 'a statement = "database \<Rightarrow> goerror + ('a \<times> database)"

definition apply_stmt :: "'a statement \<Rightarrow> database \<Rightarrow> (goerror + 'a) \<times> database" where
  "apply_stmt f d = (case f d of Inl e \<Rightarrow> (Inl e, d) | Inr (x, d1) \<Rightarrow> (Inr x, d1))"

definition run_stmt :: "'a statement \<Rightarrow> database \<Rightarrow> (goerror + 'a) \<times> database" where
  "run_stmt f d =
     (case db_script d of
        [] \<Rightarrow> apply_stmt f d
      | (delay, out) # rest \<Rightarrow>
          (let d0 = d\<lparr>db_now := db_now d + int delay, db_script := rest\<rparr>
           in case out of
                Applied \<Rightarrow> apply_stmt f d0
              | Refused e \<Rightarrow> (Inl e, d0)
              | ReplyLost e \<Rightarrow> (Inl e, snd (apply_stmt f d0))))"

text \<open>A query reads the state and leaves it as it is.\<close>

definition query :: "(database \<Rightarrow> goerror + 'a) \<Rightarrow> 'a statement" where
  "query f d = (case f d of Inl e \<Rightarrow> Inl e | Inr x \<Rightarrow> Inr (x, d))"

text \<open>An \<^verbatim>\<open>UPDATE executions\<close>; predicate and assignment may read \<^verbatim>\<open>NOW()\<close>.\<close>

definition update_executions ::
  "(int \<Rightarrow> execution_row \<Rightarrow> bool) \<Rightarrow> (int \<Rightarrow> execution_row \<Rightarrow> execution_row) \<Rightarrow> nat statement" where
  "update_executions p f d =
     Inr (rows_affected (p (db_now d)) (db_executions d),
          d\<lparr>db_executions := update_where (p (db_now d)) (f (db_now d)) (db_executions d)\<rparr>)"

text \<open>The time and script of a state moved on, nothing else.\<close>

definition later :: "database \<Rightarrow> database \<Rightarrow> bool" where
  "later d d0 \<longleftrightarrow> db_now d \<le> db_now d0 \<and> d0 = d\<lparr>db_now := db_now d0, db_script := db_script d0\<rparr>"

lemma later_refl [simp]: "later d d"
  by (simp add: later_def)

lemma later_tables:
  "later d d0 \<Longrightarrow> db_executions d0 = db_executions d \<and> db_workers d0 = db_workers d \<and>
     db_problems d0 = db_problems d \<and> db_test_cases d0 = db_test_cases d \<and>
     db_submissions d0 = db_submissions d \<and> db_now d \<le> db_now d0"
  by (cases d; cases d0) (auto simp: later_def)

lemma later_trans: "later d d0 \<Longrightarrow> later d0 d1 \<Longrightarrow> later d d1"
  by (cases d; cases d0; cases d1) (auto simp: later_def)

text \<open>The three ways a statement can end, in terms of the state it ran in.\<close>

lemma run_stmt_cases:
  obtains (refused) e d0 where "run_stmt f d = (Inl e, d0)" "later d d0"
  | (applied) d0 x d1 where "run_stmt f d = (Inr x, d1)" "later d d0" "f d0 = Inr (x, d1)"
  | (lost) d0 x d1 e where "run_stmt f d = (Inl e, d1)" "later d d0" "f d0 = Inr (x, d1)"
proof (cases "db_script d")
  case Nil
  then show thesis
    using refused [of _ d] applied [of _ _ d] later_refl
    by (cases "f d") (auto simp: run_stmt_def apply_stmt_def)
next
  case (Cons en rest)
  obtain delay out where en: "en = (delay, out)" by (cases en)
  let ?d0 = "d\<lparr>db_now := db_now d + int delay, db_script := rest\<rparr>"
  have l: "later d ?d0" by (simp add: later_def)
  show thesis
  proof (cases out)
    case Applied
    with Cons en show thesis
      using refused [OF _ l] applied [OF _ l] by (cases "f ?d0") (auto simp: run_stmt_def apply_stmt_def)
  next
    case (Refused e)
    with Cons en show thesis using refused [OF _ l] by (auto simp: run_stmt_def)
  next
    case (ReplyLost e)
    with Cons en show thesis
      using refused [OF _ l] lost [OF _ l]
      by (cases "f ?d0") (auto simp: run_stmt_def apply_stmt_def split: prod.splits)
  qed
qed

lemma run_stmt_InrD:
  "run_stmt f d = (Inr x, d1) \<Longrightarrow> \<exists>d0. later d d0 \<and> f d0 = Inr (x, d1)"
  by (rule run_stmt_cases [of f d]) auto

lemma run_stmt_preserves:
  assumes "I d" and "\<And>d d0. later d d0 \<Longrightarrow> I d \<Longrightarrow> I d0"
    and "\<And>d x d1. I d \<Longrightarrow> f d = Inr (x, d1) \<Longrightarrow> I d1"
  shows "I (snd (run_stmt f d))"
proof (rule run_stmt_cases [of f d])
  fix e d0 assume "run_stmt f d = (Inl e, d0)" "later d d0"
  then show ?thesis using assms(1) assms(2) [of d d0] by simp
next
  fix d0 x d1 assume "run_stmt f d = (Inr x, d1)" "later d d0" "f d0 = Inr (x, d1)"
  then show ?thesis using assms(1) assms(2) [of d d0] assms(3) [of d0 x d1] by simp
next
  fix d0 x d1 e assume "run_stmt f d = (Inl e, d1)" "later d d0" "f d0 = Inr (x, d1)"
  then show ?thesis using assms(1) assms(2) [of d d0] assms(3) [of d0 x d1] by simp
qed

lemma query_InrD: "query f d = Inr (x, d1) \<Longrightarrow> d1 = d \<and> f d = Inr x"
  by (auto simp: query_def split: sum.splits)

lemma run_query_later: "later d (snd (run_stmt (query f) d))"
proof (rule run_stmt_cases [of "query f" d])
  fix d0 x d1 e
  assume "run_stmt (query f) d = (Inl e, d1)" "later d d0" "query f d0 = Inr (x, d1)"
  then show ?thesis by (auto dest: query_InrD)
next
  fix d0 x d1
  assume "run_stmt (query f) d = (Inr x, d1)" "later d d0" "query f d0 = Inr (x, d1)"
  then show ?thesis by (auto dest: query_InrD)
qed simp

lemma run_query_InrD: "run_stmt (query f) d = (Inr x, d1) \<Longrightarrow> later d d1 \<and> f d1 = Inr x"
  by (drule run_stmt_InrD) (auto dest: query_InrD)

end
