(* ===== verification/Job_Store.thy ===== *)
theory Job_Store imports Database begin

text \<open>
  \<^verbatim>\<open>internal/jobs/postgres_store.go\<close>: the PostgreSQL job store. Each method is one SQL statement; its
  \<^verbatim>\<open>WHERE\<close> clause and its \<^verbatim>\<open>SET\<close> list are the \<open>_where\<close> and \<open>_set\<close> definitions, and the method turns
  a failed statement or zero affected rows into the error the code returns. Intervals are whole
  microseconds, the resolution of a PostgreSQL timestamp.
\<close>

section \<open>Statements\<close>

definition int4_max :: int where "int4_max = 2147483647"

text \<open>
  A \<^verbatim>\<open>TEXT\<close> value is UTF-8 without the NUL byte, and a \<^verbatim>\<open>JSONB\<close> value has no NUL in its strings
  (invalid UTF-8 never reaches it, \<^verbatim>\<open>json.Marshal\<close> replaces it); the server refuses a statement with another.
\<close>

definition no_nul :: "string \<Rightarrow> bool" where
  "no_nul s \<longleftrightarrow> CHR 0x00 \<notin> set s"

definition text_ok :: "string \<Rightarrow> bool" where
  "text_ok s \<longleftrightarrow> valid_utf8 s \<and> no_nul s"

definition result_storable :: "execution_result \<Rightarrow> bool" where
  "result_storable r \<longleftrightarrow> no_nul (rs_Stdout r) \<and> no_nul (rs_Stderr r)"

text \<open>\<^verbatim>\<open>INSERT INTO executions\<close>: the columns it does not name take their defaults.\<close>

definition insert_execution :: "execution_job \<Rightarrow> nat statement" where
  "insert_execution job d =
     (if find_row er_id (ej_ID job) (db_executions d) \<noteq> None
      then Inl (ExternalError ''duplicate key value violates unique constraint'')
      else if ej_MaxAttempts job > int4_max \<or> ej_MaxAttempts job < - int4_max - 1
      then Inl (ExternalError ''value out of range for type integer'')
      else if \<not> (text_ok (ej_SourceCode job) \<and> list_all no_nul (elems (ej_Inputs job)))
      then Inl (ExternalError ''invalid byte sequence or unsupported escape'')
      else Inr (1, d\<lparr>db_executions := db_executions d @
        [\<lparr>er_id = ej_ID job, er_language = ej_Language job, er_source_code = ej_SourceCode job,
          er_inputs = marshal to_valid_utf8 (ej_Inputs job), er_job_status = ej_Status job, er_results = None,
          er_created_at = ej_CreatedAt job, er_claimed_at = None, er_started_at = None,
          er_completed_at = None, er_worker_id = None, er_attempt_count = 0,
          er_max_attempts = ej_MaxAttempts job, er_next_retry_at = None, er_lease_expires_at = None,
          er_last_error = None, er_dead_lettered_at = None, er_last_dispatched_at = None\<rparr>]\<rparr>))"

text \<open>The columns \<^verbatim>\<open>Get\<close> scans, as the job it returns.\<close>

definition job_of_row :: "execution_row \<Rightarrow> execution_job" where
  "job_of_row r =
     \<lparr>ej_ID = er_id r, ej_Language = er_language r, ej_SourceCode = er_source_code r,
      ej_Inputs = unmarshal (er_inputs r), ej_Status = er_job_status r,
      ej_Results = (case er_results r of None \<Rightarrow> None | Some j \<Rightarrow> unmarshal j),
      ej_CreatedAt = er_created_at r, ej_ClaimedAt = er_claimed_at r, ej_StartedAt = er_started_at r,
      ej_CompletedAt = er_completed_at r, ej_WorkerID = er_worker_id r,
      ej_AttemptCount = er_attempt_count r, ej_MaxAttempts = er_max_attempts r,
      ej_NextRetryAt = er_next_retry_at r, ej_LeaseExpiresAt = er_lease_expires_at r,
      ej_LastError = er_last_error r, ej_DeadLetteredAt = er_dead_lettered_at r,
      ej_LastDispatchedAt = er_last_dispatched_at r\<rparr>"

definition retry_due :: "int \<Rightarrow> execution_row \<Rightarrow> bool" where
  "retry_due now r \<longleftrightarrow> (case er_next_retry_at r of None \<Rightarrow> True | Some t \<Rightarrow> t \<le> now)"

definition claim_where :: "string \<Rightarrow> int \<Rightarrow> execution_row \<Rightarrow> bool" where
  "claim_where jobID now r \<longleftrightarrow> er_id r = jobID \<and> er_job_status r = JobQueued \<and> retry_due now r"

definition claim_set :: "string \<Rightarrow> int \<Rightarrow> int \<Rightarrow> execution_row \<Rightarrow> execution_row" where
  "claim_set workerID lease now r =
     r\<lparr>er_job_status := JobClaimed, er_worker_id := Some workerID, er_claimed_at := Some now,
       er_lease_expires_at := Some (now + lease), er_attempt_count := er_attempt_count r + 1\<rparr>"

definition running_where :: "string \<Rightarrow> string \<Rightarrow> int \<Rightarrow> execution_row \<Rightarrow> bool" where
  "running_where jobID workerID now r \<longleftrightarrow>
     er_id r = jobID \<and> er_job_status r = JobClaimed \<and> er_worker_id r = Some workerID"

definition running_set :: "int \<Rightarrow> execution_row \<Rightarrow> execution_row" where
  "running_set now r = r\<lparr>er_job_status := JobRunning, er_started_at := Some now\<rparr>"

definition complete_where :: "string \<Rightarrow> string \<Rightarrow> int \<Rightarrow> execution_row \<Rightarrow> bool" where
  "complete_where jobID workerID now r \<longleftrightarrow>
     er_id r = jobID \<and> er_job_status r = JobRunning \<and> er_worker_id r = Some workerID"

definition complete_set :: "execution_result slice \<Rightarrow> int \<Rightarrow> execution_row \<Rightarrow> execution_row" where
  "complete_set results now r =
     r\<lparr>er_job_status := JobCompleted, er_results := Some (marshal enc_result results),
       er_completed_at := Some now, er_worker_id := None, er_lease_expires_at := None\<rparr>"

definition active_status :: "job_status \<Rightarrow> bool" where
  "active_status s \<longleftrightarrow> s = JobClaimed \<or> s = JobRunning"

definition fail_where :: "string \<Rightarrow> string \<Rightarrow> int \<Rightarrow> execution_row \<Rightarrow> bool" where
  "fail_where jobID workerID now r \<longleftrightarrow>
     er_id r = jobID \<and> er_worker_id r = Some workerID \<and> active_status (er_job_status r)"

text \<open>The \<^verbatim>\<open>CASE\<close>s of the requeue-or-dead-letter update; \<open>retryAt\<close> is the new retry time.\<close>

definition fail_set :: "string \<Rightarrow> int \<Rightarrow> int \<Rightarrow> execution_row \<Rightarrow> execution_row" where
  "fail_set errMsg backoff now r =
     r\<lparr>er_job_status := (if er_attempt_count r < er_max_attempts r then JobQueued else JobDeadLettered),
       er_worker_id := None, er_lease_expires_at := None, er_last_error := Some errMsg,
       er_next_retry_at := (if er_attempt_count r < er_max_attempts r then Some (now + backoff) else None),
       er_dead_lettered_at := (if er_attempt_count r \<ge> er_max_attempts r then Some now else None)\<rparr>"

definition renew_where :: "string \<Rightarrow> string \<Rightarrow> int \<Rightarrow> execution_row \<Rightarrow> bool" where
  "renew_where jobID workerID now r \<longleftrightarrow>
     er_id r = jobID \<and> active_status (er_job_status r) \<and> er_worker_id r = Some workerID"

definition renew_set :: "int \<Rightarrow> int \<Rightarrow> execution_row \<Rightarrow> execution_row" where
  "renew_set lease now r = r\<lparr>er_lease_expires_at := Some (now + lease)\<rparr>"

text \<open>\<^verbatim>\<open>attempt_count + 1\<close> is 32-bit arithmetic: the statement fails where it overflows.\<close>

definition claim_stmt :: "string \<Rightarrow> string \<Rightarrow> int \<Rightarrow> nat statement" where
  "claim_stmt jobID workerID lease d =
     (if list_ex (\<lambda>r. claim_where jobID (db_now d) r \<and> er_attempt_count r = int4_max) (db_executions d)
      then Inl (ExternalError ''integer out of range'')
      else update_executions (claim_where jobID) (claim_set workerID lease) d)"

definition complete_stmt :: "string \<Rightarrow> string \<Rightarrow> execution_result slice \<Rightarrow> nat statement" where
  "complete_stmt jobID workerID results d =
     (if list_all result_storable (elems results)
      then update_executions (complete_where jobID workerID) (complete_set results) d
      else Inl (ExternalError ''unsupported Unicode escape sequence''))"

definition fail_stmt :: "string \<Rightarrow> string \<Rightarrow> string \<Rightarrow> int \<Rightarrow> nat statement" where
  "fail_stmt jobID workerID errMsg backoff d =
     (if text_ok errMsg then update_executions (fail_where jobID workerID) (fail_set errMsg backoff) d
      else Inl (ExternalError ''invalid byte sequence for encoding''))"

section \<open>Methods\<close>

text \<open>The tail of the mutating methods: a failed statement is wrapped, no affected row is \<open>ErrInvalidState\<close>.\<close>

definition affected_or :: "string \<Rightarrow> (goerror + nat) \<times> database \<Rightarrow> goerror option \<times> database" where
  "affected_or what res =
     (case res of
        (Inl err, d) \<Rightarrow> (Some (Wrapped what err []), d)
      | (Inr n, d) \<Rightarrow> (if n = 0 then (Some ErrInvalidState, d) else (None, d)))"

definition pg_create :: "execution_job \<Rightarrow> database \<Rightarrow> goerror option \<times> database" where
  "pg_create job d =
     (if ej_Status job \<noteq> JobQueued then (Some ErrInvalidState, d)
      else (case run_stmt (insert_execution job) d of
              (Inl err, d1) \<Rightarrow> (Some (Wrapped ''failed to insert job: '' err []), d1)
            | (Inr n, d1) \<Rightarrow> (None, d1)))"

definition pg_get :: "string \<Rightarrow> database \<Rightarrow> (goerror + execution_job) \<times> database" where
  "pg_get jobID d =
     (case run_stmt (query (\<lambda>d. Inr (find_row er_id jobID (db_executions d)))) d of
        (Inl err, d1) \<Rightarrow> (Inl (Wrapped ''failed to scan job: '' err []), d1)
      | (Inr None, d1) \<Rightarrow> (Inl ErrJobNotFound, d1)
      | (Inr (Some r), d1) \<Rightarrow> (Inr (job_of_row r), d1))"

definition pg_claim :: "string \<Rightarrow> string \<Rightarrow> int \<Rightarrow> database \<Rightarrow> goerror option \<times> database" where
  "pg_claim jobID workerID leaseDuration d =
     affected_or ''failed to claim job: '' (run_stmt (claim_stmt jobID workerID leaseDuration) d)"

definition pg_mark_running :: "string \<Rightarrow> string \<Rightarrow> database \<Rightarrow> goerror option \<times> database" where
  "pg_mark_running jobID workerID d =
     affected_or ''failed to mark running: ''
       (run_stmt (update_executions (running_where jobID workerID) running_set) d)"

definition pg_complete ::
  "string \<Rightarrow> string \<Rightarrow> execution_result slice \<Rightarrow> database \<Rightarrow> goerror option \<times> database" where
  "pg_complete jobID workerID results d =
     affected_or ''failed to complete job: ''
       (run_stmt (complete_stmt jobID workerID results) d)"

definition pg_fail_job :: "string \<Rightarrow> string \<Rightarrow> string \<Rightarrow> int \<Rightarrow> database \<Rightarrow> goerror option \<times> database" where
  "pg_fail_job jobID workerID errMsg backoff d =
     affected_or ''failed to fail job: ''
       (run_stmt (fail_stmt jobID workerID errMsg backoff) d)"

definition pg_renew_lease :: "string \<Rightarrow> string \<Rightarrow> int \<Rightarrow> database \<Rightarrow> goerror option \<times> database" where
  "pg_renew_lease jobID workerID leaseDuration d =
     affected_or ''failed to renew lease: ''
       (run_stmt (update_executions (renew_where jobID workerID) (renew_set leaseDuration)) d)"

definition find_queued_rows :: "int \<Rightarrow> execution_row list \<Rightarrow> execution_row list" where
  "find_queued_rows now t =
     sort_key er_created_at (filter (\<lambda>r. er_job_status r = JobQueued \<and> retry_due now r) t)"

definition pg_find_queued :: "int \<Rightarrow> database \<Rightarrow> (goerror + string list) \<times> database" where
  "pg_find_queued limit d =
     (case run_stmt (query (\<lambda>d.
             if limit < 0 then Inl (ExternalError ''LIMIT must not be negative'')
             else Inr (map er_id (take (nat limit) (find_queued_rows (db_now d) (db_executions d)))))) d of
        (Inl err, d1) \<Rightarrow> (Inl (Wrapped ''failed to query queued jobs: '' err []), d1)
      | (Inr ids, d1) \<Rightarrow> (Inr ids, d1))"

definition pg_recover_interrupted_running :: "database \<Rightarrow> (goerror + int) \<times> database" where
  "pg_recover_interrupted_running d = (Inr 0, d)"

definition pg_recover_expired_leases :: "database \<Rightarrow> (goerror + int) \<times> database" where
  "pg_recover_expired_leases d = (Inr 0, d)"

lemmas where_defs = claim_where_def running_where_def complete_where_def fail_where_def renew_where_def
lemmas set_defs = claim_set_def running_set_def complete_set_def fail_set_def renew_set_def

lemma set_er_id [simp]:
  "er_id (claim_set w l now r) = er_id r" "er_id (running_set now r) = er_id r"
  "er_id (complete_set rs now r) = er_id r" "er_id (fail_set m b now r) = er_id r"
  "er_id (renew_set l now r) = er_id r"
  by (simp_all add: set_defs)

section \<open>The invariant of a row\<close>

text \<open>
  How the columns of a row agree: an owner and a lease exactly while a worker holds the job,
  results and completion time exactly when it is completed, a dead-letter time exactly when it is
  dead-lettered, and an attempt budget of \<open>max 1 max_attempts\<close> claims, of which a queued job has one left.
\<close>

definition attempt_budget :: "execution_row \<Rightarrow> int" where
  "attempt_budget r = max 1 (er_max_attempts r)"

definition row_ok :: "execution_row \<Rightarrow> bool" where
  "row_ok r \<longleftrightarrow>
     (active_status (er_job_status r) \<longleftrightarrow> er_worker_id r \<noteq> None) \<and>
     (er_worker_id r \<noteq> None \<longleftrightarrow> er_lease_expires_at r \<noteq> None) \<and>
     (er_job_status r = JobCompleted \<longleftrightarrow> er_results r \<noteq> None) \<and>
     (er_job_status r = JobCompleted \<longleftrightarrow> er_completed_at r \<noteq> None) \<and>
     (er_job_status r = JobDeadLettered \<longleftrightarrow> er_dead_lettered_at r \<noteq> None) \<and>
     (er_job_status r = JobRunning \<longrightarrow> er_started_at r \<noteq> None) \<and>
     (er_job_status r \<noteq> JobQueued \<longrightarrow> er_claimed_at r \<noteq> None \<and> 1 \<le> er_attempt_count r) \<and>
     (er_job_status r = JobDeadLettered \<longrightarrow> er_last_error r \<noteq> None \<and> er_max_attempts r \<le> er_attempt_count r) \<and>
     (er_job_status r = JobQueued \<longrightarrow> er_attempt_count r < attempt_budget r) \<and>
     0 \<le> er_attempt_count r \<and> er_attempt_count r \<le> attempt_budget r \<and>
     er_max_attempts r \<le> int4_max"

definition table_ok :: "database \<Rightarrow> bool" where
  "table_ok d \<longleftrightarrow> distinct (map er_id (db_executions d)) \<and> (\<forall>r \<in> set (db_executions d). row_ok r)"

lemma claim_set_ok: "claim_where i now r \<Longrightarrow> row_ok r \<Longrightarrow> row_ok (claim_set w l now r)"
  by (auto simp: row_ok_def claim_where_def claim_set_def active_status_def attempt_budget_def)

lemma running_set_ok: "running_where i w now r \<Longrightarrow> row_ok r \<Longrightarrow> row_ok (running_set now r)"
  by (auto simp: row_ok_def running_where_def running_set_def active_status_def attempt_budget_def)

lemma complete_set_ok: "complete_where i w now r \<Longrightarrow> row_ok r \<Longrightarrow> row_ok (complete_set rs now r)"
  by (auto simp: row_ok_def complete_where_def complete_set_def active_status_def attempt_budget_def)

lemma fail_set_ok: "active_status (er_job_status r) \<Longrightarrow> row_ok r \<Longrightarrow> row_ok (fail_set m b now r)"
  by (auto simp: row_ok_def fail_set_def active_status_def attempt_budget_def)

lemma renew_set_ok: "renew_where i w now r \<Longrightarrow> row_ok r \<Longrightarrow> row_ok (renew_set l now r)"
  by (auto simp: row_ok_def renew_where_def renew_set_def active_status_def attempt_budget_def)

lemmas set_ok = claim_set_ok running_set_ok complete_set_ok fail_set_ok renew_set_ok

lemma table_ok_later: "later d d0 \<Longrightarrow> table_ok d \<Longrightarrow> table_ok d0"
  using later_tables [of d d0] by (simp add: table_ok_def)

lemma update_executions_ok:
  assumes "table_ok d" and "update_executions p f d = Inr (n, d1)"
    and "\<And>now r. er_id (f now r) = er_id r"
    and "\<And>now r. p now r \<Longrightarrow> row_ok r \<Longrightarrow> row_ok (f now r)"
  shows "table_ok d1"
proof -
  have d1: "d1 = d\<lparr>db_executions := update_where (p (db_now d)) (f (db_now d)) (db_executions d)\<rparr>"
    using assms(2) by (simp add: update_executions_def)
  show ?thesis
    using assms(1) update_where_invariant [of "db_executions d" row_ok "p (db_now d)" "f (db_now d)"]
    by (auto simp: table_ok_def d1 update_where_keys assms(3) assms(4))
qed

lemma run_update_ok:
  assumes "table_ok d" and "\<And>now r. er_id (f now r) = er_id r"
    and "\<And>now r. p now r \<Longrightarrow> row_ok r \<Longrightarrow> row_ok (f now r)"
  shows "table_ok (snd (run_stmt (update_executions p f) d))"
  using assms(1) by (rule run_stmt_preserves) (auto intro: table_ok_later update_executions_ok [OF _ _ assms(2,3)])

lemma snd_affected_or [simp]: "snd (affected_or m res) = snd res"
  by (auto simp: affected_or_def split: prod.splits sum.splits)

lemma affected_or_None: "affected_or m res = (None, d) \<longleftrightarrow> (\<exists>n. res = (Inr n, d) \<and> n \<noteq> 0)"
  by (auto simp: affected_or_def split: prod.splits sum.splits if_splits)

lemma pg_claim_ok: "table_ok d \<Longrightarrow> table_ok (snd (pg_claim i w l d))"
  unfolding pg_claim_def snd_affected_or
  by (erule run_stmt_preserves)
    (auto simp: claim_stmt_def intro: table_ok_later update_executions_ok [OF _ _ set_er_id(1) claim_set_ok] split: if_splits)

lemma pg_mark_running_ok: "table_ok d \<Longrightarrow> table_ok (snd (pg_mark_running i w d))"
  unfolding pg_mark_running_def snd_affected_or by (rule run_update_ok) (auto intro: running_set_ok)

lemma pg_complete_ok: "table_ok d \<Longrightarrow> table_ok (snd (pg_complete i w rs d))"
  unfolding pg_complete_def snd_affected_or
  by (erule run_stmt_preserves)
    (auto simp: complete_stmt_def intro: table_ok_later update_executions_ok [OF _ _ set_er_id(3) complete_set_ok] split: if_splits)

lemma pg_fail_job_ok: "table_ok d \<Longrightarrow> table_ok (snd (pg_fail_job i w m b d))"
  unfolding pg_fail_job_def snd_affected_or
  by (erule run_stmt_preserves)
    (auto simp: fail_stmt_def fail_where_def intro: table_ok_later update_executions_ok [OF _ _ set_er_id(4) fail_set_ok]
      split: if_splits)

lemma pg_renew_lease_ok: "table_ok d \<Longrightarrow> table_ok (snd (pg_renew_lease i w l d))"
  unfolding pg_renew_lease_def snd_affected_or by (rule run_update_ok) (auto intro: renew_set_ok)

lemma pg_get_later: "later d (snd (pg_get i d))"
proof -
  have "snd (pg_get i d) = snd (run_stmt (query (\<lambda>d. Inr (find_row er_id i (db_executions d)))) d)"
    by (auto simp: pg_get_def split: prod.splits sum.splits option.splits)
  then show ?thesis by (simp add: run_query_later)
qed

lemma pg_get_ok: "table_ok d \<Longrightarrow> table_ok (snd (pg_get i d))"
  by (rule table_ok_later [OF pg_get_later])

lemma insert_execution_ok:
  assumes "table_ok d" and "ej_Status job = JobQueued" and "insert_execution job d = Inr (n, d1)"
  shows "table_ok d1"
proof -
  have "ej_ID job \<notin> er_id ` set (db_executions d)"
    using assms(3) by (auto simp: insert_execution_def find_row_None_iff split: if_splits)
  moreover obtain r where "db_executions d1 = db_executions d @ [r]" "er_id r = ej_ID job" "row_ok r"
    using assms(2,3) by (auto simp: insert_execution_def row_ok_def active_status_def attempt_budget_def less_max_iff_disj le_max_iff_disj
        split: if_splits)
  ultimately show ?thesis using assms(1) by (auto simp: table_ok_def)
qed

lemma pg_create_ok: "table_ok d \<Longrightarrow> table_ok (snd (pg_create job d))"
proof -
  assume ok: "table_ok d"
  show ?thesis
  proof (cases "ej_Status job = JobQueued")
    case True
    then have "snd (pg_create job d) = snd (run_stmt (insert_execution job) d)"
      by (auto simp: pg_create_def split: prod.splits sum.splits)
    moreover have "table_ok (snd (run_stmt (insert_execution job) d))"
      using ok by (rule run_stmt_preserves) (auto intro: table_ok_later insert_execution_ok [OF _ True])
    ultimately show ?thesis by simp
  qed (use ok in \<open>simp add: pg_create_def\<close>)
qed

lemmas store_ok = pg_create_ok pg_get_ok pg_claim_ok pg_mark_running_ok pg_complete_ok pg_fail_job_ok pg_renew_lease_ok

section \<open>Effects of the methods\<close>

text \<open>A successful update keyed on \<open>i\<close> found the row, at a time \<open>now\<close>, and changed it alone.\<close>

definition row_updated ::
  "string \<Rightarrow> (int \<Rightarrow> execution_row \<Rightarrow> bool) \<Rightarrow> (int \<Rightarrow> execution_row \<Rightarrow> execution_row) \<Rightarrow> database \<Rightarrow> database \<Rightarrow> bool" where
  "row_updated i p f d d1 \<longleftrightarrow>
     (\<exists>r. find_row er_id i (db_executions d) = Some r \<and> p (db_now d1) r \<and> db_now d \<le> db_now d1 \<and>
        find_row er_id i (db_executions d1) = Some (f (db_now d1) r) \<and>
        (\<forall>j. j \<noteq> i \<longrightarrow> find_row er_id j (db_executions d1) = find_row er_id j (db_executions d)))"

text \<open>
  A statement that, where it succeeds, is the update \<open>p\<close>, \<open>f\<close> of the row with key \<open>i\<close>: the shape
  of all the mutating statements, some with a guard of their own.
\<close>

definition row_stmt ::
  "string \<Rightarrow> nat statement \<Rightarrow> (int \<Rightarrow> execution_row \<Rightarrow> bool) \<Rightarrow> (int \<Rightarrow> execution_row \<Rightarrow> execution_row) \<Rightarrow> bool" where
  "row_stmt i stmt p f \<longleftrightarrow>
     (\<forall>d n d1. stmt d = Inr (n, d1) \<longrightarrow> update_executions p f d = Inr (n, d1)) \<and>
     (\<forall>now r. p now r \<longrightarrow> er_id r = i) \<and> (\<forall>now r. er_id (f now r) = er_id r)"

lemma row_stmt_updated:
  assumes "row_stmt i stmt p f" and "table_ok d" and "stmt d0 = Inr (n, d1)" and "later d d0" and "n \<noteq> 0"
  shows "row_updated i p f d d1"
proof -
  have upd: "update_executions p f d0 = Inr (n, d1)" and key: "\<And>now r. p now r \<Longrightarrow> er_id r = i"
    and keep: "\<And>now r. er_id (f now r) = er_id r"
    using assms(1,3) by (auto simp: row_stmt_def)
  have t: "db_executions d0 = db_executions d" "db_now d \<le> db_now d0" using later_tables [OF assms(4)] by auto
  have now: "db_now d1 = db_now d0"
    and tab: "db_executions d1 = update_where (p (db_now d0)) (f (db_now d0)) (db_executions d)"
    and n: "n = rows_affected (p (db_now d0)) (db_executions d)"
    using upd t by (auto simp: update_executions_def)
  from n assms(5) obtain r where r: "r \<in> set (db_executions d)" "p (db_now d0) r"
    by (auto simp: rows_affected_def filter_empty_conv)
  have row: "find_row er_id i (db_executions d) = Some r"
    using r assms(2) key [OF r(2)] find_row_distinct [of er_id "db_executions d" r] by (simp add: table_ok_def)
  have others: "find_row er_id j (db_executions d1) = find_row er_id j (db_executions d)" if "j \<noteq> i" for j
  proof (cases "find_row er_id j (db_executions d)")
    case (Some q)
    then have "\<not> p (db_now d0) q" using that key find_row_SomeD [OF Some] by blast
    with Some show ?thesis by (simp add: tab find_row_update_where keep)
  qed (simp add: tab find_row_update_where keep)
  show ?thesis
    using row r(2) t(2) others unfolding row_updated_def now
    by (simp add: tab find_row_update_where keep)
qed

lemma affected_updated:
  assumes "row_stmt i stmt p f" and "table_ok d" and "affected_or m (run_stmt stmt d) = (None, d1)"
  shows "row_updated i p f d d1"
proof -
  from assms(3) obtain n where "run_stmt stmt d = (Inr n, d1)" "n \<noteq> 0" by (auto simp: affected_or_None)
  then obtain d0 where "later d d0" "stmt d0 = Inr (n, d1)" by (blast dest: run_stmt_InrD)
  then show ?thesis using row_stmt_updated [OF assms(1,2)] \<open>n \<noteq> 0\<close> by metis
qed

text \<open>Where the row is not in the state a method asks for, the method fails, whatever the database does.\<close>

lemma affected_fails:
  assumes "row_stmt i stmt p f" and "table_ok d"
    and "\<And>now r. find_row er_id i (db_executions d) = Some r \<Longrightarrow> \<not> p now r"
  shows "fst (affected_or m (run_stmt stmt d)) \<noteq> None"
proof
  assume "fst (affected_or m (run_stmt stmt d)) = None"
  then have "affected_or m (run_stmt stmt d) = (None, snd (affected_or m (run_stmt stmt d)))"
    by (metis prod.collapse)
  from affected_updated [OF assms(1,2) this] obtain r where
    "find_row er_id i (db_executions d) = Some r" "p (db_now (snd (affected_or m (run_stmt stmt d)))) r"
    unfolding row_updated_def by blast
  with assms(3) show False by blast
qed

lemma row_stmts:
  "row_stmt i (claim_stmt i w l) (claim_where i) (claim_set w l)"
  "row_stmt i (update_executions (running_where i w) running_set) (running_where i w) running_set"
  "row_stmt i (complete_stmt i w rs) (complete_where i w) (complete_set rs)"
  "row_stmt i (fail_stmt i w m b) (fail_where i w) (fail_set m b)"
  "row_stmt i (update_executions (renew_where i w) (renew_set l)) (renew_where i w) (renew_set l)"
  by (auto simp: row_stmt_def where_defs claim_stmt_def complete_stmt_def fail_stmt_def split: if_splits)

lemma pg_claim_updated:
  "table_ok d \<Longrightarrow> pg_claim i w l d = (None, d1) \<Longrightarrow> row_updated i (claim_where i) (claim_set w l) d d1"
  unfolding pg_claim_def by (rule affected_updated [OF row_stmts(1)])

lemma pg_mark_running_updated:
  "table_ok d \<Longrightarrow> pg_mark_running i w d = (None, d1) \<Longrightarrow> row_updated i (running_where i w) running_set d d1"
  unfolding pg_mark_running_def by (rule affected_updated [OF row_stmts(2)])

lemma pg_complete_updated:
  "table_ok d \<Longrightarrow> pg_complete i w rs d = (None, d1) \<Longrightarrow> row_updated i (complete_where i w) (complete_set rs) d d1"
  unfolding pg_complete_def by (rule affected_updated [OF row_stmts(3)])

lemma pg_fail_job_updated:
  "table_ok d \<Longrightarrow> pg_fail_job i w m b d = (None, d1) \<Longrightarrow> row_updated i (fail_where i w) (fail_set m b) d d1"
  unfolding pg_fail_job_def by (rule affected_updated [OF row_stmts(4)])

lemma pg_renew_lease_updated:
  "table_ok d \<Longrightarrow> pg_renew_lease i w l d = (None, d1) \<Longrightarrow> row_updated i (renew_where i w) (renew_set l) d d1"
  unfolding pg_renew_lease_def by (rule affected_updated [OF row_stmts(5)])

lemmas store_updated = pg_claim_updated pg_mark_running_updated pg_complete_updated pg_fail_job_updated
  pg_renew_lease_updated

text \<open>The methods that ask for the owner fail for everyone else.\<close>

lemma not_owner_fails:
  assumes "table_ok d" and "find_row er_id i (db_executions d) = Some r" and "er_worker_id r \<noteq> Some v"
  shows "fst (pg_mark_running i v d) \<noteq> None" "fst (pg_complete i v rs d) \<noteq> None"
    "fst (pg_fail_job i v m b d) \<noteq> None" "fst (pg_renew_lease i v l d) \<noteq> None"
  unfolding pg_mark_running_def pg_complete_def pg_fail_job_def pg_renew_lease_def
  by ((rule affected_fails [OF row_stmts(2) assms(1)] affected_fails [OF row_stmts(3) assms(1)]
        affected_fails [OF row_stmts(4) assms(1)] affected_fails [OF row_stmts(5) assms(1)],
       use assms(2,3) in \<open>simp add: where_defs\<close>))+

lemma held_claim_fails:
  assumes "table_ok d" and "find_row er_id i (db_executions d) = Some r" and "er_job_status r \<noteq> JobQueued"
  shows "fst (pg_claim i v l d) \<noteq> None"
  unfolding pg_claim_def
  by (rule affected_fails [OF row_stmts(1) assms(1)], use assms(2,3) in \<open>simp add: where_defs\<close>)

lemma pg_get_Inr:
  "pg_get i d = (Inr job, d1) \<Longrightarrow>
     later d d1 \<and> (\<exists>r. find_row er_id i (db_executions d) = Some r \<and> job = job_of_row r)"
  by (auto simp: pg_get_def split: prod.splits sum.splits option.splits dest!: run_query_InrD dest: later_tables)

lemma pg_create_Inr:
  assumes "pg_create job d = (None, d1)"
  shows "ej_Status job = JobQueued \<and> (\<exists>d0 n. later d d0 \<and> insert_execution job d0 = Inr (n, d1))"
  using assms by (auto simp: pg_create_def split: prod.splits sum.splits if_splits dest!: run_stmt_InrD)

section \<open>A small table\<close>

text \<open>One row and one database, for the concrete instances of the properties.\<close>

definition row_example :: "job_status \<Rightarrow> string option \<Rightarrow> int \<Rightarrow> int \<Rightarrow> execution_row" where
  "row_example st w n m =
     \<lparr>er_id = ''exec_1'', er_language = ''python'', er_source_code = ''print(1)'', er_inputs = JArray [[]],
      er_job_status = st, er_results = None, er_created_at = 0, er_claimed_at = (if st = JobQueued then None else Some 1),
      er_started_at = (if st = JobRunning then Some 2 else None), er_completed_at = None, er_worker_id = w,
      er_attempt_count = n, er_max_attempts = m, er_next_retry_at = None,
      er_lease_expires_at = (if w = None then None else Some 30), er_last_error = None,
      er_dead_lettered_at = None, er_last_dispatched_at = None\<rparr>"

definition database_example :: "execution_row list \<Rightarrow> database" where
  "database_example rows =
     \<lparr>db_now = 10, db_script = [], db_executions = rows, db_workers = [], db_problems = [], db_test_cases = [],
      db_submissions = [], db_uuid_in = Some, db_uuid = (\<lambda>n. []), db_seq = 0\<rparr>"

lemmas example_defs = row_example_def database_example_def

lemmas store_run_defs = affected_or_def run_stmt_def apply_stmt_def update_executions_def rows_affected_def
  update_where_def where_defs claim_stmt_def complete_stmt_def fail_stmt_def retry_due_def active_status_def

lemmas method_defs = pg_claim_def pg_mark_running_def pg_complete_def pg_fail_job_def pg_renew_lease_def

lemma example_ok: "m \<le> 2147483647 \<Longrightarrow> table_ok (database_example [row_example JobQueued None 0 m])"
  by (auto simp: table_ok_def row_ok_def example_defs active_status_def attempt_budget_def int4_max_def)

lemma example_held_ok:
  "st = JobClaimed \<or> st = JobRunning \<Longrightarrow> m \<le> 2147483647 \<Longrightarrow>
   table_ok (database_example [row_example st (Some w) 1 m])"
  by (auto simp: table_ok_def row_ok_def example_defs active_status_def attempt_budget_def int4_max_def)

text \<open>A call whose first component is known is the pair of that and the second.\<close>

lemma pair_of_fst: "fst p = x \<Longrightarrow> p = (x, snd p)"
  by (metis prod.collapse)

section \<open>Properties\<close>

text \<open>
  a claim succeeds only on a queued job whose retry time has come; it makes the caller the owner
  with a lease from the time of the statement, counts one attempt and touches no other job.
\<close>

theorem claim_takes_queued_job:
  assumes "table_ok d" and "pg_claim i w l d = (None, d1)"
  shows "\<exists>r q. find_row er_id i (db_executions d) = Some r \<and> er_job_status r = JobQueued \<and>
    retry_due (db_now d1) r \<and> find_row er_id i (db_executions d1) = Some q \<and>
    er_job_status q = JobClaimed \<and> er_worker_id q = Some w \<and>
    er_lease_expires_at q = Some (db_now d1 + l) \<and> er_attempt_count q = er_attempt_count r + 1 \<and>
    (\<forall>j. j \<noteq> i \<longrightarrow> find_row er_id j (db_executions d1) = find_row er_id j (db_executions d))"
  using pg_claim_updated [OF assms] by (auto simp: row_updated_def claim_where_def claim_set_def)

theorem claim_takes_queued_job_witness:
  "\<exists>q. find_row er_id ''exec_1'' (db_executions (snd (pg_claim ''exec_1'' ''w'' 30
          (database_example [row_example JobQueued None 0 5])))) = Some q \<and> er_worker_id q = Some ''w''"
proof -
  let ?d = "database_example [row_example JobQueued None 0 5]"
  have "fst (pg_claim ''exec_1'' ''w'' 30 ?d) = None"
    by (simp add: method_defs store_run_defs example_defs int4_max_def)
  from claim_takes_queued_job [OF example_ok pair_of_fst [OF this]] show ?thesis by auto
qed



text \<open>
  a completed job reads back: after \<^verbatim>\<open>Complete\<close> succeeds, \<^verbatim>\<open>Get\<close> returns the job as completed and
  ownerless with the results that were stored, as JSON keeps them; the job was running under the caller.
\<close>

theorem complete_then_get:
  assumes "table_ok d" and "pg_complete i w rs d = (None, d1)" and "pg_get i d1 = (Inr job, d2)"
  shows "ej_Status job = JobCompleted \<and> ej_Results job = map_option (map enc_result) rs \<and>
    ej_WorkerID job = None \<and> ej_LeaseExpiresAt job = None \<and>
    (\<exists>r. find_row er_id i (db_executions d) = Some r \<and> er_job_status r = JobRunning \<and> er_worker_id r = Some w)"
  using pg_complete_updated [OF assms(1,2)] pg_get_Inr [OF assms(3)]
  by (auto simp: row_updated_def complete_where_def complete_set_def job_of_row_def unmarshal_marshal)

theorem complete_then_get_witness:
  "\<exists>job. fst (pg_get ''exec_1'' (snd (pg_complete ''exec_1'' ''w'' (Some [result_of StatusSuccess ''1'' [] 0])
      (database_example [row_example JobRunning (Some ''w'') 1 5])))) = Inr job \<and> ej_Status job = JobCompleted"
proof -
  let ?d = "database_example [row_example JobRunning (Some ''w'') 1 5]"
  let ?rs = "Some [result_of StatusSuccess ''1'' [] 0]"
  let ?d1 = "snd (pg_complete ''exec_1'' ''w'' ?rs ?d)"
  have "fst (pg_complete ''exec_1'' ''w'' ?rs ?d) = None"
    by (simp add: method_defs store_run_defs example_defs result_storable_def no_nul_def)
  note c = pair_of_fst [OF this]
  have "\<exists>job. fst (pg_get ''exec_1'' ?d1) = Inr job"
    by (simp add: method_defs store_run_defs example_defs result_storable_def no_nul_def pg_get_def query_def
        complete_set_def)
  then obtain job where job: "fst (pg_get ''exec_1'' ?d1) = Inr job" ..
  have ok: "table_ok ?d" by (rule example_held_ok) simp_all
  from complete_then_get [OF ok c pair_of_fst [OF job]] job show ?thesis by blast
qed

text \<open>
  a recorded failure requeues the job with the backoff while attempts are left and dead-letters it
  otherwise; either way the job has no owner and no lease any more and keeps the error text.
\<close>

theorem failure_requeues_or_buries:
  assumes "table_ok d" and "pg_fail_job i w m b d = (None, d1)"
  shows "\<exists>r q. find_row er_id i (db_executions d) = Some r \<and> er_worker_id r = Some w \<and>
    find_row er_id i (db_executions d1) = Some q \<and>
    er_worker_id q = None \<and> er_lease_expires_at q = None \<and> er_last_error q = Some m \<and>
    er_attempt_count q = er_attempt_count r \<and>
    (if er_attempt_count r < er_max_attempts r
     then er_job_status q = JobQueued \<and> er_next_retry_at q = Some (db_now d1 + b) \<and> er_dead_lettered_at q = None
     else er_job_status q = JobDeadLettered \<and> er_next_retry_at q = None \<and>
          er_dead_lettered_at q = Some (db_now d1))"
proof -
  from pg_fail_job_updated [OF assms] obtain r where
    "find_row er_id i (db_executions d) = Some r" "fail_where i w (db_now d1) r"
    "find_row er_id i (db_executions d1) = Some (fail_set m b (db_now d1) r)" by (auto simp: row_updated_def)
  then show ?thesis
    by (intro exI [of _ r] exI [of _ "fail_set m b (db_now d1) r"]) (simp add: fail_where_def fail_set_def)
qed

theorem failure_requeues_or_buries_witness:
  "\<exists>q. find_row er_id ''exec_1'' (db_executions (snd (pg_fail_job ''exec_1'' ''w'' ''boom'' 2
      (database_example [row_example JobRunning (Some ''w'') 1 5])))) = Some q \<and> er_last_error q = Some ''boom''"
proof -
  let ?d = "database_example [row_example JobRunning (Some ''w'') 1 5]"
  have "fst (pg_fail_job ''exec_1'' ''w'' ''boom'' 2 ?d) = None"
    by (simp add: method_defs store_run_defs example_defs text_ok_def no_nul_def valid_utf8.simps rune_width.simps
        byte_in_def)
  from failure_requeues_or_buries [OF example_held_ok pair_of_fst [OF this]] show ?thesis by auto
qed

text \<open>
  the backoff is respected: whoever claims a job after a failure that requeued it, whatever time the
  database lets pass, does so at a time not before the failure plus the backoff.
\<close>

theorem backoff_respected:
  assumes "table_ok d" and "pg_fail_job i w m b d = (None, d1)" and "pg_claim i v l d1 = (None, d2)"
  shows "db_now d1 + b \<le> db_now d2"
proof -
  have ok: "table_ok d1" using pg_fail_job_ok [OF assms(1), of i w m b] assms(2) by simp
  from pg_fail_job_updated [OF assms(1,2)] pg_claim_updated [OF ok assms(3)] show ?thesis
    by (auto simp: row_updated_def claim_where_def fail_set_def retry_due_def split: if_splits)
qed

theorem backoff_respected_witness:
  "db_now (snd (pg_fail_job ''exec_1'' ''w'' ''boom'' 0 (database_example [row_example JobRunning (Some ''w'') 1 5])))
   \<le> db_now (snd (pg_claim ''exec_1'' ''v'' 30 (snd (pg_fail_job ''exec_1'' ''w'' ''boom'' 0
        (database_example [row_example JobRunning (Some ''w'') 1 5])))))"
proof -
  let ?d = "database_example [row_example JobRunning (Some ''w'') 1 5]"
  have f: "fst (pg_fail_job ''exec_1'' ''w'' ''boom'' 0 ?d) = None"
    by (simp add: method_defs store_run_defs example_defs text_ok_def no_nul_def valid_utf8.simps rune_width.simps
        byte_in_def)
  have c: "fst (pg_claim ''exec_1'' ''v'' 30 (snd (pg_fail_job ''exec_1'' ''w'' ''boom'' 0 ?d))) = None"
    by (simp add: method_defs store_run_defs example_defs text_ok_def no_nul_def valid_utf8.simps rune_width.simps
        byte_in_def fail_set_def int4_max_def)
  from backoff_respected [OF example_held_ok pair_of_fst [OF f] pair_of_fst [OF c]] show ?thesis by simp
qed

text \<open>
  a created job reads back: after \<^verbatim>\<open>Create\<close> succeeds, \<^verbatim>\<open>Get\<close> returns it queued, unowned and
  without attempts, with the payload it was given (the inputs as JSON keeps them) and its budget.
\<close>

theorem create_then_get:
  assumes "pg_create job d = (None, d1)" and "pg_get (ej_ID job) d1 = (Inr j, d2)"
  shows "j = job\<lparr>ej_Inputs := map_option (map to_valid_utf8) (ej_Inputs job), ej_Results := None,
      ej_ClaimedAt := None, ej_StartedAt := None, ej_CompletedAt := None, ej_WorkerID := None,
      ej_AttemptCount := 0, ej_NextRetryAt := None, ej_LeaseExpiresAt := None, ej_LastError := None,
      ej_DeadLetteredAt := None, ej_LastDispatchedAt := None\<rparr> \<and> ej_Status j = JobQueued"
  using pg_create_Inr [OF assms(1)] pg_get_Inr [OF assms(2)]
  by (cases job) (auto simp: insert_execution_def find_row_append job_of_row_def unmarshal_marshal split: if_splits)

definition job_example :: execution_job where
  "job_example =
     \<lparr>ej_ID = ''exec_1'', ej_Language = ''python'', ej_SourceCode = ''print(1)'', ej_Inputs = Some [[]],
      ej_Status = JobQueued, ej_Results = None, ej_CreatedAt = 0, ej_ClaimedAt = None, ej_StartedAt = None,
      ej_CompletedAt = None, ej_WorkerID = None, ej_AttemptCount = 0, ej_MaxAttempts = 5, ej_NextRetryAt = None,
      ej_LeaseExpiresAt = None, ej_LastError = None, ej_DeadLetteredAt = None, ej_LastDispatchedAt = None\<rparr>"

theorem create_then_get_witness:
  "\<exists>j. fst (pg_get (ej_ID job_example) (snd (pg_create job_example (database_example [])))) = Inr j \<and>
     ej_Status j = JobQueued"
proof -
  have c: "fst (pg_create job_example (database_example [])) = None"
    by (simp add: pg_create_def run_stmt_def apply_stmt_def insert_execution_def database_example_def
        job_example_def int4_max_def text_ok_def no_nul_def valid_utf8.simps rune_width.simps byte_in_def)
  have "\<exists>j. fst (pg_get (ej_ID job_example) (snd (pg_create job_example (database_example [])))) = Inr j"
    by (simp add: pg_create_def run_stmt_def apply_stmt_def insert_execution_def database_example_def
        job_example_def int4_max_def text_ok_def no_nul_def valid_utf8.simps rune_width.simps byte_in_def
        pg_get_def query_def)
  then obtain j where j: "fst (pg_get (ej_ID job_example) (snd (pg_create job_example (database_example [])))) = Inr j" ..
  from create_then_get [OF pair_of_fst [OF c] pair_of_fst [OF j]] j show ?thesis by blast
qed



end
