(* ===== verification/Msg_Queue.thy ===== *)
theory Msg_Queue imports Bounded_Writer Prelude begin

text \<open>
  \<^verbatim>\<open>internal/queue\<close>: the acknowledged job queue over a Redis stream (queue.go, redis_queue.go). The
  Redis client is not code of the repository: it is the record \<open>redis_client\<close>, functions over a
  state of any type \<open>'q\<close>, which also answers \<^verbatim>\<open>ctx.Err()\<close>.
\<close>

section \<open>Messages and the client\<close>

record queue_message =
  qm_ID :: string
  qm_JobID :: string
  qm_JobType :: string

text \<open>A stream entry: the values that are strings; a missing key fails the type assertion.\<close>

record stream_message =
  sm_ID :: string
  sm_Values :: "string \<rightharpoonup> string"

record 'q redis_client =
  rx_XGroupCreateMkStream :: "string \<Rightarrow> string \<Rightarrow> string \<Rightarrow> 'q \<Rightarrow> goerror option \<times> 'q"
  rx_XAdd :: "string \<Rightarrow> i64 \<Rightarrow> (string \<times> string) list \<Rightarrow> 'q \<Rightarrow> goerror option \<times> 'q"
  rx_XReadGroup :: "string \<Rightarrow> string \<Rightarrow> string \<Rightarrow> 'q \<Rightarrow> (goerror + stream_message list list) \<times> 'q"
    \<comment> \<open>the messages of each stream of the reply\<close>
  rx_XAck :: "string \<Rightarrow> string \<Rightarrow> string \<Rightarrow> 'q \<Rightarrow> goerror option \<times> 'q"
  rx_Publish :: "string \<Rightarrow> string \<Rightarrow> 'q \<Rightarrow> goerror option \<times> 'q"
  rx_XAutoClaim :: "string \<Rightarrow> string \<Rightarrow> string \<Rightarrow> i64 \<Rightarrow> string \<Rightarrow> i64 \<Rightarrow> 'q
                     \<Rightarrow> (goerror + stream_message list \<times> string) \<times> 'q"
  rx_ctx_err :: "'q \<Rightarrow> goerror option"

text \<open>The queue: \<open>rq_closed\<close> is the atomic flag \<^verbatim>\<open>closed\<close>.\<close>

record redis_queue =
  kq_stream :: string
  kq_group :: string
  kq_maxLen :: i64
  kq_closed :: bool

definition new_redis_queue :: "string \<Rightarrow> string \<Rightarrow> i64 \<Rightarrow> redis_queue" where
  "new_redis_queue stream grp maxLen =
     \<lparr>kq_stream = stream, kq_group = grp, kq_maxLen = maxLen, kq_closed = False\<rparr>"

section \<open>Operations (redis_queue.go)\<close>

definition ensure_group_exists :: "'q redis_client \<Rightarrow> redis_queue \<Rightarrow> 'q \<Rightarrow> goerror option \<times> 'q" where
  "ensure_group_exists C q s =
     (case rx_XGroupCreateMkStream C (kq_stream q) (kq_group q) ''0'' s of
        (Some err, s1) \<Rightarrow>
          (if error_text err = ''BUSYGROUP Consumer Group name already exists'' then (None, s1)
           else (Some (Wrapped ''failed to create consumer group: '' err []), s1))
      | (None, s1) \<Rightarrow> (None, s1))"

definition enqueue :: "'q redis_client \<Rightarrow> redis_queue \<Rightarrow> string \<Rightarrow> string \<Rightarrow> 'q \<Rightarrow> goerror option \<times> 'q" where
  "enqueue C q jobID jobType s =
     (if kq_closed q then (Some ErrQueueClosed, s)
      else (case rx_XAdd C (kq_stream q) (kq_maxLen q) [(''job_id'', jobID), (''job_type'', jobType)] s of
              (Some err, s1) \<Rightarrow> (Some (Wrapped ''failed to enqueue to redis stream: '' err []), s1)
            | (None, s1) \<Rightarrow> (None, s1)))"

text \<open>The first message of the first stream of a reply.\<close>

definition first_message :: "stream_message list list \<Rightarrow> stream_message option" where
  "first_message streams = (case streams of (m # ms) # rest \<Rightarrow> Some m | _ \<Rightarrow> None)"

text \<open>What \<^verbatim>\<open>Consume\<close> makes of a message: without a job id it is skipped, without a type it is a run.\<close>

definition decode_message :: "stream_message \<Rightarrow> queue_message option" where
  "decode_message m =
     (case sm_Values m ''job_id'' of
        None \<Rightarrow> None
      | Some jobID \<Rightarrow>
          Some \<lparr>qm_ID = sm_ID m, qm_JobID = jobID,
                qm_JobType = (case sm_Values m ''job_type'' of None \<Rightarrow> ''run'' | Some t \<Rightarrow> t)\<rparr>)"

text \<open>
  \<^verbatim>\<open>Consume\<close> loops until a message arrives, an error ends it or the queue is closed. Another
  goroutine may close the queue at any time: \<open>closed k\<close> is what the \<open>k\<close>-th read of the flag
  returns. The loop takes fuel; \<open>None\<close> is a loop that has not ended within it.
\<close>

fun consume ::
  "'q redis_client \<Rightarrow> redis_queue \<Rightarrow> (nat \<Rightarrow> bool) \<Rightarrow> string \<Rightarrow> nat \<Rightarrow> nat \<Rightarrow> 'q
   \<Rightarrow> ((goerror + queue_message) \<times> 'q) option" where
  "consume C q closed consumerName 0 k s = None"
| "consume C q closed consumerName (Suc fuel) k s =
     (if closed k then Some (Inl ErrQueueClosed, s)
      else (case rx_XReadGroup C (kq_group q) consumerName (kq_stream q) s of
              (Inl err, s1) \<Rightarrow>
                (if err = RedisNil then consume C q closed consumerName fuel (Suc k) s1
                 else (case rx_ctx_err C s1 of
                         Some e \<Rightarrow> Some (Inl e, s1)
                       | None \<Rightarrow> Some (Inl (Wrapped ''redis XREADGROUP error: '' err []), s1)))
            | (Inr streams, s1) \<Rightarrow>
                (case first_message streams of
                   None \<Rightarrow> consume C q closed consumerName fuel (Suc k) s1
                 | Some m \<Rightarrow>
                     (case decode_message m of
                        None \<Rightarrow> consume C q closed consumerName fuel (Suc k) s1
                      | Some msg \<Rightarrow> Some (Inr msg, s1)))))"

definition ack :: "'q redis_client \<Rightarrow> redis_queue \<Rightarrow> string \<Rightarrow> 'q \<Rightarrow> goerror option \<times> 'q" where
  "ack C q messageID s = rx_XAck C (kq_stream q) (kq_group q) messageID s"

definition publish_job_update :: "'q redis_client \<Rightarrow> string \<Rightarrow> string \<Rightarrow> 'q \<Rightarrow> goerror option \<times> 'q" where
  "publish_job_update C jobID payload s = rx_Publish C (''job-updates:'' @ jobID) payload s"

definition close_queue :: "redis_queue \<Rightarrow> redis_queue" where
  "close_queue q = q\<lparr>kq_closed := True\<rparr>"

section \<open>Consuming\<close>

text \<open>The loop ends at the latest at the first read of the flag that finds it set.\<close>

lemma consume_returns:
  "closed (k + n) \<Longrightarrow> \<exists>r. consume C q closed name (Suc n) k s = Some r"
proof (induction n arbitrary: k s)
  case 0
  then show ?case by simp
next
  case (Suc n)
  then have "\<And>s. \<exists>r. consume C q closed name (Suc n) (Suc k) s = Some r" by simp
  then show ?case by (subst consume.simps(2)) (auto split: prod.splits sum.splits option.splits)
qed

lemma consume_mono:
  "consume C q closed name fuel k s = Some r \<Longrightarrow> fuel \<le> fuel2 \<Longrightarrow> consume C q closed name fuel2 k s = Some r"
proof (induction fuel arbitrary: k s fuel2)
  case (Suc fuel)
  then obtain m where "fuel2 = Suc m" "fuel \<le> m" by (cases fuel2) auto
  with Suc show ?case by (auto split: prod.splits sum.splits option.splits if_splits)
qed simp

lemma decode_message_Some:
  "decode_message m = Some msg \<longleftrightarrow>
     (\<exists>j. sm_Values m ''job_id'' = Some j \<and>
          msg = \<lparr>qm_ID = sm_ID m, qm_JobID = j,
                 qm_JobType = (case sm_Values m ''job_type'' of None \<Rightarrow> ''run'' | Some t \<Rightarrow> t)\<rparr>)"
  by (auto simp: decode_message_def split: option.splits)

text \<open>
  How a call may end in its round \<open>j\<close>, read from the state \<open>s0\<close> of that round: with the decoded first
  message of the reply, with the flag found set, or with an error that is not a time-out.
\<close>

definition consume_end ::
  "'q redis_client \<Rightarrow> redis_queue \<Rightarrow> (nat \<Rightarrow> bool) \<Rightarrow> string \<Rightarrow> nat \<Rightarrow> 'q
   \<Rightarrow> goerror + queue_message \<Rightarrow> 'q \<Rightarrow> bool" where
  "consume_end C q closed name j s0 r s2 \<longleftrightarrow>
    (case r of
       Inr msg \<Rightarrow> \<not> closed j \<and>
         (\<exists>streams m. rx_XReadGroup C (kq_group q) name (kq_stream q) s0 = (Inr streams, s2) \<and>
            first_message streams = Some m \<and> decode_message m = Some msg)
     | Inl e \<Rightarrow> closed j \<and> e = ErrQueueClosed \<and> s2 = s0 \<or>
         \<not> closed j \<and>
         (\<exists>err. rx_XReadGroup C (kq_group q) name (kq_stream q) s0 = (Inl err, s2) \<and> err \<noteq> RedisNil \<and>
            e = (case rx_ctx_err C s2 of Some c \<Rightarrow> c | None \<Rightarrow> Wrapped ''redis XREADGROUP error: '' err [])))"

lemma consume_step:
  "consume C q closed name (Suc fuel) k s = Some (r, s2) \<Longrightarrow>
     consume_end C q closed name k s r s2 \<or>
     \<not> closed k \<and> (\<exists>s1. consume C q closed name fuel (Suc k) s1 = Some (r, s2))"
  by (auto simp: consume_end_def split: prod.splits sum.splits option.splits if_splits)

lemma consume_result:
  assumes "consume C q closed name fuel k s = Some (r, s2)"
  shows "\<exists>j s0. k \<le> j \<and> j < k + fuel \<and> (\<forall>i \<in> {k..<j}. \<not> closed i) \<and> consume_end C q closed name j s0 r s2"
  using assms
proof (induction fuel arbitrary: k s)
  case (Suc fuel)
  from consume_step [OF Suc.prems] show ?case
  proof (elim disjE conjE exE)
    assume "consume_end C q closed name k s r s2"
    then show ?thesis by (intro exI [of _ k] exI [of _ s]) simp
  next
    fix s1 assume k: "\<not> closed k" and "consume C q closed name fuel (Suc k) s1 = Some (r, s2)"
    from Suc.IH [OF this(2)] obtain j s0 where j: "Suc k \<le> j" "j < Suc k + fuel"
      "\<forall>i \<in> {Suc k..<j}. \<not> closed i" "consume_end C q closed name j s0 r s2" by blast
    have "{k..<j} = insert k {Suc k..<j}" using j(1) by auto
    with j k show ?thesis by (intro exI [of _ j] exI [of _ s0]) auto
  qed
qed simp

section \<open>The log of a client\<close>

text \<open>
  The requests a client was asked for, with what they answered, newest first. \<open>logged_redis\<close> keeps the
  log beside the state of any client; the properties of the queue's users are stated on it.
\<close>

datatype queue_event =
    EvAdd "(string \<times> string) list" bool \<comment> \<open>the values of an entry, and whether it was added\<close>
  | EvAck string bool
  | EvPublish string string
  | EvRead "goerror + stream_message list list"
  | EvAutoClaim

definition logged_redis :: "'q redis_client \<Rightarrow> ('q \<times> queue_event list) redis_client" where
  "logged_redis C =
     \<lparr>rx_XGroupCreateMkStream = (\<lambda>st g i (s, l). let (e, s1) = rx_XGroupCreateMkStream C st g i s in (e, s1, l)),
      rx_XAdd = (\<lambda>st n vs (s, l). let (e, s1) = rx_XAdd C st n vs s in (e, s1, EvAdd vs (e = None) # l)),
      rx_XReadGroup = (\<lambda>g c st (s, l). let (r, s1) = rx_XReadGroup C g c st s in (r, s1, EvRead r # l)),
      rx_XAck = (\<lambda>st g i (s, l). let (e, s1) = rx_XAck C st g i s in (e, s1, EvAck i (e = None) # l)),
      rx_Publish = (\<lambda>c p (s, l). let (e, s1) = rx_Publish C c p s in (e, s1, EvPublish c p # l)),
      rx_XAutoClaim = (\<lambda>st g c t i n (s, l). let (r, s1) = rx_XAutoClaim C st g c t i n s in (r, s1, EvAutoClaim # l)),
      rx_ctx_err = (\<lambda>(s, l). rx_ctx_err C s)\<rparr>"

text \<open>The job entries that were added, and the messages that were acknowledged, oldest first.\<close>

fun added :: "queue_event list \<Rightarrow> (string \<times> string) list list" where
  "added [] = []"
| "added (EvAdd vs ok # l) = added l @ (if ok then [vs] else [])"
| "added (_ # l) = added l"

fun acked :: "queue_event list \<Rightarrow> string list" where
  "acked [] = []"
| "acked (EvAck i ok # l) = acked l @ (if ok then [i] else [])"
| "acked (_ # l) = acked l"

definition job_entry :: "string \<Rightarrow> string \<Rightarrow> (string \<times> string) list" where
  "job_entry jobID jobType = [(''job_id'', jobID), (''job_type'', jobType)]"

lemma enqueue_logged:
  "enqueue (logged_redis C) q i t (s, l) = (e, s1, l1) \<Longrightarrow>
     acked l1 = acked l \<and> added l1 = added l @ (if e = None then [job_entry i t] else []) \<and>
     (kq_closed q \<longrightarrow> e = Some ErrQueueClosed \<and> l1 = l)"
  by (auto simp: enqueue_def logged_redis_def job_entry_def Let_def split: prod.splits option.splits if_splits)

lemma ack_logged:
  "ack (logged_redis C) q i (s, l) = (e, s1, l1) \<Longrightarrow>
     added l1 = added l \<and> acked l1 = acked l @ (if e = None then [i] else [])"
  by (auto simp: ack_def logged_redis_def Let_def split: prod.splits if_splits)

lemma publish_logged:
  "publish_job_update (logged_redis C) j p (s, l) = (e, s1, l1) \<Longrightarrow> added l1 = added l \<and> acked l1 = acked l"
  by (auto simp: publish_job_update_def logged_redis_def Let_def split: prod.splits)

section \<open>Properties\<close>

text \<open>
  a consumer always stops once the queue is closed: it returns at the latest in the round in which it
  finds the flag set, whatever Redis answers in between.
\<close>

theorem consume_stops_when_closed:
  assumes "closed (k + n)"
  shows "\<exists>r s1. consume C q closed name (Suc n) k s = Some (r, s1)"
  using consume_returns [of closed k n, OF assms] by fastforce

definition silent_redis :: "nat redis_client" where
  "silent_redis =
     \<lparr>rx_XGroupCreateMkStream = (\<lambda>st g i n. (None, n)), rx_XAdd = (\<lambda>st m vs n. (None, Suc n)),
      rx_XReadGroup = (\<lambda>g c st n. (Inl RedisNil, n)), rx_XAck = (\<lambda>st g i n. (None, n)),
      rx_Publish = (\<lambda>c p n. (None, n)), rx_XAutoClaim = (\<lambda>st g c t i m n. (Inr ([], ''0-0''), n)),
      rx_ctx_err = (\<lambda>n. None)\<rparr>"

theorem consume_stops_when_closed_witness:
  "\<exists>r s1. consume silent_redis (new_redis_queue ''jobs'' ''g'' 10) (\<lambda>k. 3 \<le> k) ''w'' (Suc 3) 0 0 = Some (r, s1)"
  by (rule consume_stops_when_closed) simp

text \<open>
  what a consumer returns: the decoded first message of a reply it read (its job id, and its type or
  \<^verbatim>\<open>run\<close> where it has none), \<^verbatim>\<open>ErrQueueClosed\<close> exactly when it found the flag set, and otherwise the
  context's error or the error of a read that was not a time-out; earlier rounds found the flag clear.
\<close>

theorem consume_returns_message:
  assumes "consume C q closed name fuel k s = Some (r, s2)"
  shows "\<exists>j s0. k \<le> j \<and> j < k + fuel \<and> (\<forall>i \<in> {k..<j}. \<not> closed i) \<and>
    (case r of
       Inr msg \<Rightarrow> \<not> closed j \<and>
         (\<exists>streams m jobID. rx_XReadGroup C (kq_group q) name (kq_stream q) s0 = (Inr streams, s2) \<and>
            first_message streams = Some m \<and> sm_Values m ''job_id'' = Some jobID \<and>
            msg = \<lparr>qm_ID = sm_ID m, qm_JobID = jobID,
                   qm_JobType = (case sm_Values m ''job_type'' of None \<Rightarrow> ''run'' | Some t \<Rightarrow> t)\<rparr>)
     | Inl e \<Rightarrow> closed j \<and> e = ErrQueueClosed \<and> s2 = s0 \<or>
         \<not> closed j \<and>
         (\<exists>err. rx_XReadGroup C (kq_group q) name (kq_stream q) s0 = (Inl err, s2) \<and> err \<noteq> RedisNil \<and>
            e = (case rx_ctx_err C s2 of Some c \<Rightarrow> c | None \<Rightarrow> Wrapped ''redis XREADGROUP error: '' err [])))"
proof -
  from consume_result [OF assms] obtain j s0 where j: "k \<le> j" "j < k + fuel" "\<forall>i \<in> {k..<j}. \<not> closed i"
      "consume_end C q closed name j s0 r s2" by blast
  then show ?thesis
    by (intro exI [of _ j] exI [of _ s0]) (auto simp: consume_end_def decode_message_Some split: sum.splits)
qed

theorem consume_returns_message_witness:
  "consume silent_redis (new_redis_queue ''jobs'' ''g'' 10) (\<lambda>k. True) ''w'' 1 0 0 = Some (Inl ErrQueueClosed, 0) \<and>
   (\<exists>j. 0 \<le> j \<and> j < 0 + 1 \<and> (\<forall>i \<in> {0..<j::nat}. \<not> True))"
proof
  show c: "consume silent_redis (new_redis_queue ''jobs'' ''g'' 10) (\<lambda>k. True) ''w'' 1 0 0 = Some (Inl ErrQueueClosed, 0)"
    by simp
  from consume_returns_message [OF c] show "\<exists>j. 0 \<le> j \<and> j < 0 + 1 \<and> (\<forall>i \<in> {0..<j::nat}. \<not> True)" by blast
qed

end
