(* ===== verification/Recovery.thy ===== *)
theory Recovery imports Job_Store Msg_Queue begin

text \<open>
  \<^verbatim>\<open>internal/recovery/service.go\<close>: the background service that requeues jobs whose lease has expired,
  dispatches jobs whose retry is due and stops workers that no longer report; and
  \<^verbatim>\<open>internal/worker/heartbeat.go\<close>, the writer of those reports. The dispatcher uses the database and
  the queue: its state is the pair of them.
\<close>

section \<open>Expired leases\<close>

definition expired_where :: "int \<Rightarrow> execution_row \<Rightarrow> bool" where
  "expired_where now r \<longleftrightarrow>
     active_status (er_job_status r) \<and> (case er_lease_expires_at r of None \<Rightarrow> False | Some t \<Rightarrow> t < now)"

definition expired_set :: "int \<Rightarrow> execution_row \<Rightarrow> execution_row" where
  "expired_set now r =
     r\<lparr>er_job_status := (if er_attempt_count r < er_max_attempts r then JobQueued else JobDeadLettered),
       er_worker_id := None, er_lease_expires_at := None, er_last_error := Some ''worker lease expired'',
       er_next_retry_at := (if er_attempt_count r < er_max_attempts r then Some now else None),
       er_dead_lettered_at := (if er_attempt_count r \<ge> er_max_attempts r then Some now else None)\<rparr>"

text \<open>The update of a lost lease is that of a failure with no backoff.\<close>

lemma expired_set_fail: "expired_set now r = fail_set ''worker lease expired'' 0 now r"
  by (simp add: expired_set_def fail_set_def)

definition recover_abandoned_jobs :: "database \<Rightarrow> database" where
  "recover_abandoned_jobs d = snd (run_stmt (update_executions expired_where expired_set) d)"

section \<open>Delayed jobs\<close>

definition dispatch_gap :: int where "dispatch_gap = 5000000"
definition dispatch_limit :: nat where "dispatch_limit = 100"

definition dispatch_where :: "int \<Rightarrow> execution_row \<Rightarrow> bool" where
  "dispatch_where now r \<longleftrightarrow>
     er_job_status r = JobQueued \<and> retry_due now r \<and>
     (case er_last_dispatched_at r of None \<Rightarrow> True | Some t \<Rightarrow> t < now - dispatch_gap)"

definition marker_set :: "int \<Rightarrow> execution_row \<Rightarrow> execution_row" where
  "marker_set now r = r\<lparr>er_last_dispatched_at := Some now\<rparr>"

definition mark_dispatched :: "string \<Rightarrow> database \<Rightarrow> database" where
  "mark_dispatched jobID d =
     snd (run_stmt (update_executions (\<lambda>now r. er_id r = jobID) marker_set) d)"

fun dispatch_loop ::
  "'q redis_client \<Rightarrow> redis_queue \<Rightarrow> string list \<Rightarrow> database \<times> 'q \<Rightarrow> database \<times> 'q" where
  "dispatch_loop C q [] (d, s) = (d, s)"
| "dispatch_loop C q (i # ids) (d, s) =
     (case enqueue C q i ''run'' s of
        (Some err, s1) \<Rightarrow> dispatch_loop C q ids (d, s1)
      | (None, s1) \<Rightarrow> dispatch_loop C q ids (mark_dispatched i d, s1))"

definition dispatch_delayed_jobs ::
  "'q redis_client \<Rightarrow> redis_queue \<Rightarrow> database \<times> 'q \<Rightarrow> database \<times> 'q" where
  "dispatch_delayed_jobs C q st =
     (case run_stmt (query (\<lambda>d. Inr (map er_id (take dispatch_limit
             (filter (dispatch_where (db_now d)) (db_executions d)))))) (fst st) of
        (Inl err, d1) \<Rightarrow> (d1, snd st)
      | (Inr ids, d1) \<Rightarrow> dispatch_loop C q ids (d1, snd st))"

section \<open>Workers\<close>

definition stale_where :: "int \<Rightarrow> int \<Rightarrow> worker_row \<Rightarrow> bool" where
  "stale_where timeout now w \<longleftrightarrow> wr_status w \<noteq> WorkerStopped \<and> wr_last_heartbeat_at w < now - timeout"

definition update_workers ::
  "(int \<Rightarrow> worker_row \<Rightarrow> bool) \<Rightarrow> (int \<Rightarrow> worker_row \<Rightarrow> worker_row) \<Rightarrow> nat statement" where
  "update_workers p f d =
     Inr (rows_affected (p (db_now d)) (db_workers d),
          d\<lparr>db_workers := update_where (p (db_now d)) (f (db_now d)) (db_workers d)\<rparr>)"

definition mark_stale_workers :: "int \<Rightarrow> database \<Rightarrow> database" where
  "mark_stale_workers timeout d =
     snd (run_stmt (update_workers (stale_where timeout) (\<lambda>now w. w\<lparr>wr_status := WorkerStopped\<rparr>)) d)"

text \<open>One tick of \<^verbatim>\<open>Start\<close>: reclaim, dispatch, mark.\<close>

definition recovery_tick ::
  "'q redis_client \<Rightarrow> redis_queue \<Rightarrow> int \<Rightarrow> database \<times> 'q \<Rightarrow> database \<times> 'q" where
  "recovery_tick C q timeout st =
     (let (d1, s1) = dispatch_delayed_jobs C q (recover_abandoned_jobs (fst st), snd st)
      in (mark_stale_workers timeout d1, s1))"

section \<open>Heartbeats (worker/heartbeat.go)\<close>

text \<open>\<^verbatim>\<open>INSERT .. ON CONFLICT (worker_id) DO UPDATE\<close>\<close>

definition upsert_worker :: "string \<Rightarrow> worker_status \<Rightarrow> nat statement" where
  "upsert_worker w st d =
     (if find_row wr_worker_id w (db_workers d) = None
      then Inr (1, d\<lparr>db_workers := db_workers d @
             [\<lparr>wr_worker_id = w, wr_status = st, wr_started_at = db_now d,
               wr_last_heartbeat_at = db_now d, wr_updated_at = db_now d\<rparr>]\<rparr>)
      else update_workers (\<lambda>now r. wr_worker_id r = w)
             (\<lambda>now r. r\<lparr>wr_status := st, wr_last_heartbeat_at := now, wr_updated_at := now\<rparr>) d)"

definition heartbeat_update_status :: "string \<Rightarrow> worker_status \<Rightarrow> database \<Rightarrow> goerror option \<times> database" where
  "heartbeat_update_status w st d =
     (case run_stmt (upsert_worker w st) d of (Inl err, d1) \<Rightarrow> (Some err, d1) | (Inr n, d1) \<Rightarrow> (None, d1))"

text \<open>One tick of \<^verbatim>\<open>Heartbeat.Run\<close>; a failed update is logged.\<close>

definition heartbeat_tick :: "string \<Rightarrow> database \<Rightarrow> database" where
  "heartbeat_tick w d =
     snd (run_stmt (update_workers (\<lambda>now r. wr_worker_id r = w)
            (\<lambda>now r. r\<lparr>wr_last_heartbeat_at := now, wr_updated_at := now\<rparr>)) d)"

section \<open>What the recovery leaves\<close>

lemma expired_set_id [simp]: "er_id (expired_set now r) = er_id r"
  by (simp add: expired_set_def)

lemma marker_set_sel [simp]:
  "er_id (marker_set now r) = er_id r" "er_job_status (marker_set now r) = er_job_status r"
  by (simp_all add: marker_set_def)

lemma marker_set_ok [simp]: "row_ok (marker_set now r) = row_ok r"
  by (simp add: marker_set_def row_ok_def attempt_budget_def)

lemma expired_set_ok: "expired_where now r \<Longrightarrow> row_ok r \<Longrightarrow> row_ok (expired_set now r)"
  unfolding expired_set_fail by (rule fail_set_ok) (simp_all add: expired_where_def)

lemma recover_abandoned_jobs_ok: "table_ok d \<Longrightarrow> table_ok (recover_abandoned_jobs d)"
  unfolding recover_abandoned_jobs_def by (rule run_update_ok) (auto intro: expired_set_ok)

lemma mark_dispatched_ok: "table_ok d \<Longrightarrow> table_ok (mark_dispatched i d)"
  unfolding mark_dispatched_def by (rule run_update_ok) auto

lemma table_ok_workers: "db_executions d1 = db_executions d \<Longrightarrow> table_ok d1 = table_ok d"
  by (simp add: table_ok_def)

lemma update_workers_executions: "update_workers p f d = Inr (n, d1) \<Longrightarrow> db_executions d1 = db_executions d"
  by (auto simp: update_workers_def)

lemma worker_stmt_executions:
  "db_executions (snd (run_stmt (update_workers p f) d)) = db_executions d"
  by (rule run_stmt_cases [of "update_workers p f" d])
    (auto dest!: update_workers_executions later_tables)

lemma mark_stale_workers_executions [simp]: "db_executions (mark_stale_workers t d) = db_executions d"
  by (simp add: mark_stale_workers_def worker_stmt_executions)

lemma heartbeat_tick_executions [simp]: "db_executions (heartbeat_tick w d) = db_executions d"
  by (simp add: heartbeat_tick_def worker_stmt_executions)

lemma upsert_worker_executions: "upsert_worker w st d = Inr (n, d1) \<Longrightarrow> db_executions d1 = db_executions d"
  by (auto simp: upsert_worker_def dest: update_workers_executions split: if_splits)

lemma heartbeat_update_status_executions [simp]:
  "db_executions (snd (heartbeat_update_status w st d)) = db_executions d"
proof -
  have "snd (heartbeat_update_status w st d) = snd (run_stmt (upsert_worker w st) d)"
    by (auto simp: heartbeat_update_status_def split: prod.splits sum.splits)
  then show ?thesis
    by (simp, rule_tac run_stmt_cases [of "upsert_worker w st" d])
      (auto dest!: upsert_worker_executions later_tables)
qed

section \<open>Dispatching\<close>

text \<open>What a dispatch adds to the queue: the selected jobs, in order, each as a run.\<close>

lemma dispatch_loop_logged:
  "\<not> kq_closed q \<Longrightarrow> dispatch_loop (logged_redis C) q ids (d, (s, l)) = (d1, (s1, l1)) \<Longrightarrow>
     acked l1 = acked l \<and> (\<exists>sent. added l1 = added l @ map (\<lambda>i. job_entry i ''run'') sent \<and> set sent \<subseteq> set ids \<and>
       length sent \<le> length ids)"
proof (induction ids arbitrary: d s l)
  case (Cons i ids)
  obtain e s2 l2 where e: "enqueue (logged_redis C) q i ''run'' (s, l) = (e, s2, l2)" by (metis prod.collapse)
  obtain d2 where loop: "dispatch_loop (logged_redis C) q ids (d2, (s2, l2)) = (d1, (s1, l1))"
    using Cons.prems(2) e by (cases e) auto
  from Cons.IH [OF Cons.prems(1) loop] obtain sent where
    "acked l1 = acked l2" "added l1 = added l2 @ map (\<lambda>i. job_entry i ''run'') sent"
    "set sent \<subseteq> set ids" "length sent \<le> length ids" by blast
  then show ?case using enqueue_logged [OF e]
    by (intro conjI exI [of _ "(if e = None then [i] else []) @ sent"]) auto
qed simp

lemma dispatch_loop_table:
  "table_ok d \<Longrightarrow> table_ok (fst (dispatch_loop C q ids (d, s)))"
  by (induction ids arbitrary: d s) (auto split: prod.splits option.splits intro: mark_dispatched_ok)

lemma dispatch_delayed_jobs_cases:
  obtains (failed) d1 where "later (fst st) d1" "dispatch_delayed_jobs C q st = (d1, snd st)"
  | (selected) d1 where "later (fst st) d1" "dispatch_delayed_jobs C q st = dispatch_loop C q
      (map er_id (take dispatch_limit (filter (dispatch_where (db_now d1)) (db_executions d1)))) (d1, snd st)"
proof -
  let ?sel = "\<lambda>d. Inr (map er_id (take dispatch_limit (filter (dispatch_where (db_now d)) (db_executions d))))"
  obtain r d1 where r: "run_stmt (query ?sel) (fst st) = (r, d1)" by fastforce
  then have l: "later (fst st) d1" using run_query_later [of "fst st" ?sel] by simp
  show thesis
  proof (cases r)
    case (Inl e)
    with r have "dispatch_delayed_jobs C q st = (d1, snd st)" by (simp add: dispatch_delayed_jobs_def)
    with l show thesis by (rule failed)
  next
    case (Inr ids)
    with r have "?sel d1 = Inr ids" using run_query_InrD [of ?sel "fst st" ids d1] by simp
    then have "ids = map er_id (take dispatch_limit (filter (dispatch_where (db_now d1)) (db_executions d1)))" by simp
    with l r Inr show thesis by (intro selected) (simp_all add: dispatch_delayed_jobs_def)
  qed
qed

lemma dispatch_delayed_jobs_ok: "table_ok (fst st) \<Longrightarrow> table_ok (fst (dispatch_delayed_jobs C q st))"
  by (rule dispatch_delayed_jobs_cases [of st C q]) (auto intro: dispatch_loop_table table_ok_later)

lemma expired_set_done: "\<not> expired_where now (expired_set now r)"
  by (simp add: expired_where_def expired_set_def active_status_def)

section \<open>Properties\<close>

text \<open>
  reclaiming lost leases: when the update is applied, every job whose lease has run out is requeued
  for an immediate retry while it has attempts left and dead-lettered otherwise, without owner or lease;
  every other job is left exactly as it is; and no held job with an expired lease remains.
\<close>

theorem recovery_reclaims_expired:
  assumes "db_script d = []"
  shows "(\<forall>i. find_row er_id i (db_executions (recover_abandoned_jobs d)) =
      map_option (\<lambda>r. if active_status (er_job_status r) \<and> (\<exists>t. er_lease_expires_at r = Some t \<and> t < db_now d)
                      then fail_set ''worker lease expired'' 0 (db_now d) r else r)
        (find_row er_id i (db_executions d))) \<and>
    (\<forall>r \<in> set (db_executions (recover_abandoned_jobs d)).
       active_status (er_job_status r) \<longrightarrow> (\<forall>t. er_lease_expires_at r = Some t \<longrightarrow> db_now d \<le> t))"
proof -
  have ex: "db_executions (recover_abandoned_jobs d) =
      update_where (expired_where (db_now d)) (expired_set (db_now d)) (db_executions d)"
    using assms by (simp add: recover_abandoned_jobs_def run_stmt_def apply_stmt_def update_executions_def)
  have w: "expired_where now r \<longleftrightarrow>
      active_status (er_job_status r) \<and> (\<exists>t. er_lease_expires_at r = Some t \<and> t < now)" for now r
    by (auto simp: expired_where_def split: option.splits)
  have "find_row er_id i (db_executions (recover_abandoned_jobs d)) =
      map_option (\<lambda>r. if active_status (er_job_status r) \<and> (\<exists>t. er_lease_expires_at r = Some t \<and> t < db_now d)
                      then fail_set ''worker lease expired'' 0 (db_now d) r else r)
        (find_row er_id i (db_executions d))" for i
    by (simp add: ex find_row_update_where w expired_set_fail [abs_def])
  moreover have "\<not> expired_where (db_now d) r" if "r \<in> set (db_executions (recover_abandoned_jobs d))" for r
  proof -
    from that obtain q where "r = (if expired_where (db_now d) q then expired_set (db_now d) q else q)"
      unfolding ex set_update_where by blast
    then show ?thesis by (cases "expired_where (db_now d) q") (simp_all add: expired_set_done)
  qed
  ultimately show ?thesis by (auto simp: w not_less)
qed

theorem recovery_reclaims_expired_witness:
  "\<exists>q. find_row er_id ''exec_1'' (db_executions (recover_abandoned_jobs
      (database_example [(row_example JobRunning (Some ''w'') 1 5)\<lparr>er_lease_expires_at := Some 9\<rparr>]))) = Some q \<and>
     er_job_status q = JobQueued"
proof -
  let ?d = "database_example [(row_example JobRunning (Some ''w'') 1 5)\<lparr>er_lease_expires_at := Some 9\<rparr>]"
  have "db_script ?d = []" by (simp add: example_defs)
  from recovery_reclaims_expired [OF this, THEN conjunct1, THEN spec, of "''exec_1''"] show ?thesis
    by (simp add: example_defs active_status_def fail_set_def)
qed

text \<open>
  a dispatch adds to the queue at most a hundred entries, each a run of a job that was queued, due
  and not dispatched within the last five seconds when the service looked; it acknowledges nothing.
\<close>

theorem dispatch_sends_due_jobs:
  assumes "dispatch_delayed_jobs (logged_redis C) q (d, (s, l)) = (d1, (s1, l1))" and "\<not> kq_closed q"
  shows "acked l1 = acked l \<and>
    (\<exists>now sent. db_now d \<le> now \<and> added l1 = added l @ map (\<lambda>i. job_entry i ''run'') sent \<and> length sent \<le> 100 \<and>
       (\<forall>i \<in> set sent. \<exists>r \<in> set (db_executions d). er_id r = i \<and> er_job_status r = JobQueued \<and> retry_due now r \<and>
          (\<forall>t. er_last_dispatched_at r = Some t \<longrightarrow> t < now - 5000000)))"
proof (rule dispatch_delayed_jobs_cases [of "(d, (s, l))" "logged_redis C" q])
  fix d0 :: database
  assume "later (fst (d, s, l)) d0" "dispatch_delayed_jobs (logged_redis C) q (d, s, l) = (d0, snd (d, s, l))"
  with assms(1) show ?thesis by (intro conjI exI [of _ "db_now d"] exI [of _ "[]"]) auto
next
  fix d0 :: database
  let ?ids = "map er_id (take dispatch_limit (filter (dispatch_where (db_now d0)) (db_executions d0)))"
  assume l: "later (fst (d, s, l)) d0"
    and "dispatch_delayed_jobs (logged_redis C) q (d, s, l) = dispatch_loop (logged_redis C) q ?ids (d0, snd (d, s, l))"
  with assms obtain sent where sent: "acked l1 = acked l"
      "added l1 = added l @ map (\<lambda>i. job_entry i ''run'') sent" "set sent \<subseteq> set ?ids" "length sent \<le> length ?ids"
    using dispatch_loop_logged [OF assms(2), of C ?ids d0 s l d1 s1 l1] by auto
  have tab: "db_executions d0 = db_executions d" "db_now d \<le> db_now d0" using later_tables [OF l] by auto
  have "\<exists>r \<in> set (db_executions d). er_id r = i \<and> er_job_status r = JobQueued \<and> retry_due (db_now d0) r \<and>
          (\<forall>t. er_last_dispatched_at r = Some t \<longrightarrow> t < db_now d0 - 5000000)" if "i \<in> set sent" for i
  proof -
    from that sent(3) obtain r where r: "er_id r = i" "r \<in> set (db_executions d0)" "dispatch_where (db_now d0) r"
      by (auto dest!: in_set_takeD)
    then show ?thesis
      by (intro bexI [of _ r]) (auto simp: tab dispatch_where_def dispatch_gap_def)
  qed
  moreover have "length sent \<le> 100" using sent(4) by (simp add: dispatch_limit_def)
  ultimately show ?thesis using sent(1,2) tab(2) by blast
qed

theorem dispatch_sends_due_jobs_witness:
  "\<exists>d1 s1 l1. dispatch_delayed_jobs (logged_redis silent_redis) (new_redis_queue ''jobs'' ''g'' 10)
      (database_example [row_example JobQueued None 0 5], (0, [])) = (d1, (s1, l1)) \<and> acked l1 = []"
proof -
  obtain d1 s1 l1 where e: "dispatch_delayed_jobs (logged_redis silent_redis) (new_redis_queue ''jobs'' ''g'' 10)
      (database_example [row_example JobQueued None 0 5], (0, [])) = (d1, (s1, l1))" by (metis prod.collapse)
  have "\<not> kq_closed (new_redis_queue ''jobs'' ''g'' 10)" by (simp add: new_redis_queue_def)
  from dispatch_sends_due_jobs [OF e this] e show ?thesis by auto
qed

end
