(* ===== verification/Job_Spec.thy ===== *)
theory Job_Spec imports Main begin

text \<open>
  What the job store promises, without tables and statements: the life of one job as a transition
  system. A job is queued, claimed by a worker, running on it, completed or dead-lettered; a claim
  uses one of its attempts; a held job that fails or loses its lease is requeued while attempts are
  left (\<open>n < m\<close>) and dead-lettered otherwise. The comments of \<^verbatim>\<open>jobs/job.go\<close> and
  \<^verbatim>\<open>jobs/store.go\<close> name these states and moves. The theory knows nothing of the program; the refinement to
  its statements is proved in \<open>Job_Refinement\<close>.
\<close>

datatype 'w phase = PQueued | PClaimed 'w | PRunning 'w | PCompleted | PDead

type_synonym 'w job_state = "'w phase \<times> int"

fun holder :: "'w phase \<Rightarrow> 'w option" where
  "holder (PClaimed w) = Some w"
| "holder (PRunning w) = Some w"
| "holder _ = None"

definition terminal :: "'w phase \<Rightarrow> bool" where
  "terminal p \<longleftrightarrow> p = PCompleted \<or> p = PDead"

inductive job_step :: "int \<Rightarrow> 'w job_state \<Rightarrow> 'w job_state \<Rightarrow> bool" for m :: int where
  claim: "job_step m (PQueued, n) (PClaimed w, n + 1)"
| start: "job_step m (PClaimed w, n) (PRunning w, n)"
| finish: "job_step m (PRunning w, n) (PCompleted, n)"
| requeue: "holder p \<noteq> None \<Longrightarrow> n < m \<Longrightarrow> job_step m (p, n) (PQueued, n)"
| bury: "holder p \<noteq> None \<Longrightarrow> m \<le> n \<Longrightarrow> job_step m (p, n) (PDead, n)"

inductive_cases job_step_fromE: "job_step m (p, n) s"
inductive_cases job_step_completedE: "job_step m s (PCompleted, n)"
inductive_simps job_step_queued_iff: "job_step m (PQueued, n) s"
inductive_simps job_step_terminal_iff [simp]: "job_step m (PCompleted, n) s" "job_step m (PDead, n) s"

section \<open>Attempts\<close>

text \<open>A queued job has an attempt left; no job has more than \<open>max 1 m\<close>.\<close>

definition attempts_ok :: "int \<Rightarrow> 'w job_state \<Rightarrow> bool" where
  "attempts_ok m s \<longleftrightarrow> 0 \<le> snd s \<and> snd s \<le> max 1 m \<and> (fst s = PQueued \<longrightarrow> snd s < max 1 m) \<and>
     (holder (fst s) \<noteq> None \<longrightarrow> 1 \<le> snd s)"

lemma attempts_ok_step: "job_step m s t \<Longrightarrow> attempts_ok m s \<Longrightarrow> attempts_ok m t"
  by (induction rule: job_step.induct) (auto simp: attempts_ok_def)

lemma attempts_ok_steps: "(job_step m)\<^sup>*\<^sup>* s t \<Longrightarrow> attempts_ok m s \<Longrightarrow> attempts_ok m t"
  by (induction rule: rtranclp_induct) (auto intro: attempts_ok_step)

lemma attempts_mono: "(job_step m)\<^sup>*\<^sup>* s t \<Longrightarrow> snd s \<le> snd t"
  by (induction rule: rtranclp_induct) (auto elim: job_step.cases)

lemma terminal_stuck: "terminal (fst s) \<Longrightarrow> job_step m s t \<Longrightarrow> False"
  by (cases s) (auto simp: terminal_def)

lemma terminal_steps: "(job_step m)\<^sup>*\<^sup>* s t \<Longrightarrow> terminal (fst s) \<Longrightarrow> t = s"
  by (induction rule: converse_rtranclp_induct) (auto dest: terminal_stuck)

text \<open>A job becomes completed only from a run of the worker that holds it.\<close>

lemma completed_only_from_running: "job_step m s (PCompleted, n) \<Longrightarrow> \<exists>w. s = (PRunning w, n)"
  by (auto elim: job_step_completedE)

text \<open>Two workers are never both holders: a new holder has claimed, which used an attempt.\<close>

lemma new_holder_new_attempt:
  "(job_step m)\<^sup>*\<^sup>* s t \<Longrightarrow> holder (fst s) = Some w \<Longrightarrow> holder (fst t) = Some v \<Longrightarrow> v \<noteq> w \<Longrightarrow> snd s < snd t"
proof -
  have "(job_step m)\<^sup>*\<^sup>* s t \<Longrightarrow> holder (fst s) = Some w \<Longrightarrow>
    snd s \<le> snd t \<and> (snd t = snd s \<longrightarrow> holder (fst t) = Some w \<or> holder (fst t) = None)"
  proof (induction rule: rtranclp_induct)
    case (step t u)
    then show ?case by (auto elim!: job_step.cases)
  qed simp
  moreover assume "(job_step m)\<^sup>*\<^sup>* s t" "holder (fst s) = Some w" "holder (fst t) = Some v" "v \<noteq> w"
  ultimately show "snd s < snd t" by force
qed

section \<open>Every job ends\<close>

text \<open>Steps use up attempts: the rank of a state bounds the steps that can still follow.\<close>

fun phase_rank :: "'w phase \<Rightarrow> nat" where
  "phase_rank PQueued = 0"
| "phase_rank (PClaimed w) = 2"
| "phase_rank (PRunning w) = 1"
| "phase_rank PCompleted = 0"
| "phase_rank PDead = 0"

definition job_rank :: "int \<Rightarrow> 'w job_state \<Rightarrow> nat" where
  "job_rank m s =
     (if terminal (fst s) then 0
      else 4 * nat (max 1 m - snd s) + phase_rank (fst s) + (if fst s = PQueued then 0 else 1))"

lemma holder_rank: "holder p \<noteq> None \<Longrightarrow> 0 < phase_rank p \<and> p \<noteq> PQueued \<and> \<not> terminal p"
  by (cases p) (auto simp: terminal_def)

lemma job_step_rank: "job_step m s t \<Longrightarrow> attempts_ok m s \<Longrightarrow> job_rank m t < job_rank m s"
proof (induction rule: job_step.induct)
  case (requeue p n)
  then show ?case using holder_rank [of p] by (auto simp: job_rank_def terminal_def)
next
  case (bury p n)
  then show ?case using holder_rank [of p] by (auto simp: job_rank_def terminal_def)
qed (auto simp: job_rank_def terminal_def attempts_ok_def)

text \<open>The number of steps of a path is at most the rank of its first state.\<close>

lemma path_length: "(job_step m ^^ k) s t \<Longrightarrow> attempts_ok m s \<Longrightarrow> k + job_rank m t \<le> job_rank m s"
proof (induction k arbitrary: t)
  case (Suc k)
  then obtain u where u: "(job_step m ^^ k) s u" "job_step m u t" by auto
  then have "attempts_ok m u"
    using Suc.prems(2) by (metis attempts_ok_steps relpowp_imp_rtranclp)
  with job_step_rank [OF u(2)] Suc.IH [OF u(1) Suc.prems(2)] show ?case by simp
qed simp

section \<open>The contract\<close>

text \<open>
  A system keeps the contract when every one of its steps moves every job by steps of the machine
  (none, for the jobs it does not touch) and leaves the budget of a job as it is.
\<close>

locale job_machine =
  fixes step :: "'s \<Rightarrow> 's \<Rightarrow> bool" and ok :: "'s \<Rightarrow> bool"
    and job :: "'s \<Rightarrow> 'k \<Rightarrow> 'w job_state option" and budget :: "'s \<Rightarrow> 'k \<Rightarrow> int"
  assumes ok_step: "ok s \<Longrightarrow> step s t \<Longrightarrow> ok t"
    and simulates: "ok s \<Longrightarrow> step s t \<Longrightarrow> job s i = Some a \<Longrightarrow>
          \<exists>b. job t i = Some b \<and> (job_step (budget s i))\<^sup>*\<^sup>* a b \<and> budget t i = budget s i"
    and ok_attempts: "ok s \<Longrightarrow> job s i = Some a \<Longrightarrow> attempts_ok (budget s i) a"
begin

lemma ok_reach: "step\<^sup>*\<^sup>* s t \<Longrightarrow> ok s \<Longrightarrow> ok t"
  by (induction rule: rtranclp_induct) (auto intro: ok_step)

lemma reach_simulates:
  assumes "step\<^sup>*\<^sup>* s t" and "ok s" and "job s i = Some a"
  shows "\<exists>b. job t i = Some b \<and> (job_step (budget s i))\<^sup>*\<^sup>* a b \<and> budget t i = budget s i"
  using assms
proof (induction rule: rtranclp_induct)
  case (step t u)
  then obtain b where b: "job t i = Some b" "(job_step (budget s i))\<^sup>*\<^sup>* a b" "budget t i = budget s i" by blast
  from simulates [OF ok_reach [OF step.hyps(1) step.prems(1)] step.hyps(2) b(1)] b show ?case
    by (metis rtranclp_trans)
qed auto

lemma terminal_forever:
  "step\<^sup>*\<^sup>* s t \<Longrightarrow> ok s \<Longrightarrow> job s i = Some a \<Longrightarrow> terminal (fst a) \<Longrightarrow> job t i = Some a"
  using reach_simulates terminal_steps by metis

lemma never_lost: "step\<^sup>*\<^sup>* s t \<Longrightarrow> ok s \<Longrightarrow> job s i \<noteq> None \<Longrightarrow> job t i \<noteq> None"
  using reach_simulates by fastforce

lemma attempts_bounded:
  "step\<^sup>*\<^sup>* s t \<Longrightarrow> ok s \<Longrightarrow> job t i = Some b \<Longrightarrow> snd b \<le> max 1 (budget t i)"
  using ok_attempts [of t i b] ok_reach by (auto simp: attempts_ok_def)

lemma holder_change_costs:
  "step\<^sup>*\<^sup>* s t \<Longrightarrow> ok s \<Longrightarrow> job s i = Some a \<Longrightarrow> job t i = Some b \<Longrightarrow>
   holder (fst a) = Some w \<Longrightarrow> holder (fst b) = Some v \<Longrightarrow> v \<noteq> w \<Longrightarrow> snd a < snd b"
  using reach_simulates new_holder_new_attempt by (metis option.inject)

end

end
