(* ===== verification/Job_Refinement.thy ===== *)
theory Job_Refinement imports Recovery Job_Spec begin

text \<open>
  The statements of the job store and of the recovery service refine the job machine: whatever
  operation runs, in whatever order and with whatever failures of the database, each row of
  \<^verbatim>\<open>executions\<close> moves by steps of the machine. The interpretation \<open>pg_jobs\<close> carries the machine's
  lemmas over to the tables.
\<close>

section \<open>The abstraction\<close>

definition phase_of :: "execution_row \<Rightarrow> string phase" where
  "phase_of r =
     (case er_job_status r of
        JobQueued \<Rightarrow> PQueued
      | JobClaimed \<Rightarrow> PClaimed (the (er_worker_id r))
      | JobRunning \<Rightarrow> PRunning (the (er_worker_id r))
      | JobCompleted \<Rightarrow> PCompleted
      | JobDeadLettered \<Rightarrow> PDead)"

definition abs_row :: "execution_row \<Rightarrow> string job_state" where
  "abs_row r = (phase_of r, er_attempt_count r)"

definition job_in :: "database \<Rightarrow> string \<Rightarrow> string job_state option" where
  "job_in d i = map_option abs_row (find_row er_id i (db_executions d))"

definition budget_in :: "database \<Rightarrow> string \<Rightarrow> int" where
  "budget_in d i = (case find_row er_id i (db_executions d) of None \<Rightarrow> 0 | Some r \<Rightarrow> er_max_attempts r)"

definition terminal_status :: "job_status \<Rightarrow> bool" where
  "terminal_status s \<longleftrightarrow> s = JobCompleted \<or> s = JobDeadLettered"

lemma terminal_phase: "terminal (phase_of r) = terminal_status (er_job_status r)"
  by (auto simp: terminal_def terminal_status_def phase_of_def split: job_status.splits)

lemma row_attempts_ok: "row_ok r \<Longrightarrow> attempts_ok (er_max_attempts r) (abs_row r)"
  by (auto simp: row_ok_def attempts_ok_def abs_row_def phase_of_def attempt_budget_def active_status_def
      split: job_status.splits)

section \<open>Rows\<close>

text \<open>
  How one row may change: its identity, payload and budget stay, its state moves by steps of the
  machine, and once it is terminal only the dispatch marker may still change.
\<close>

definition row_sim :: "execution_row \<Rightarrow> execution_row \<Rightarrow> bool" where
  "row_sim r q \<longleftrightarrow>
     er_id q = er_id r \<and> er_max_attempts q = er_max_attempts r \<and>
     er_language q = er_language r \<and> er_source_code q = er_source_code r \<and> er_inputs q = er_inputs r \<and>
     er_created_at q = er_created_at r \<and>
     (job_step (er_max_attempts r))\<^sup>*\<^sup>* (abs_row r) (abs_row q) \<and>
     (terminal_status (er_job_status r) \<longrightarrow> q = r\<lparr>er_last_dispatched_at := er_last_dispatched_at q\<rparr>)"

lemma row_sim_refl [simp]: "row_sim r r"
  by (simp add: row_sim_def)

lemma row_sim_trans:
  assumes "row_sim r q" and "row_sim q s"
  shows "row_sim r s"
proof -
  have steps: "(job_step (er_max_attempts r))\<^sup>*\<^sup>* (abs_row r) (abs_row s)"
    using assms by (auto simp: row_sim_def)
  moreover have "s = r\<lparr>er_last_dispatched_at := er_last_dispatched_at s\<rparr>"
    if "terminal_status (er_job_status r)"
  proof -
    have q: "q = r\<lparr>er_last_dispatched_at := er_last_dispatched_at q\<rparr>" using assms(1) that by (simp add: row_sim_def)
    have "er_job_status q = er_job_status r" by (subst q) simp
    then have "s = q\<lparr>er_last_dispatched_at := er_last_dispatched_at s\<rparr>"
      using assms(2) that by (simp add: row_sim_def)
    also have "\<dots> = r\<lparr>er_last_dispatched_at := er_last_dispatched_at s\<rparr>" by (subst q) simp
    finally show ?thesis .
  qed
  ultimately show ?thesis using assms by (simp add: row_sim_def)
qed

text \<open>An update of a row that is not terminal and steps at most once.\<close>

lemma row_simI:
  assumes "\<not> terminal_status (er_job_status r)"
    and "er_id q = er_id r" "er_max_attempts q = er_max_attempts r" "er_language q = er_language r"
      "er_source_code q = er_source_code r" "er_inputs q = er_inputs r" "er_created_at q = er_created_at r"
    and "abs_row q = abs_row r \<or> job_step (er_max_attempts r) (abs_row r) (abs_row q)"
  shows "row_sim r q"
  using assms by (auto simp: row_sim_def)

lemma active_holder: "active_status (er_job_status r) \<Longrightarrow> holder (phase_of r) = Some (the (er_worker_id r))"
  by (auto simp: active_status_def phase_of_def)

lemma active_not_terminal: "active_status s \<Longrightarrow> \<not> terminal_status s"
  by (auto simp: active_status_def terminal_status_def)

lemma claim_row_sim: "claim_where i now r \<Longrightarrow> row_sim r (claim_set w l now r)"
  by (rule row_simI) (auto simp: claim_where_def claim_set_def terminal_status_def abs_row_def phase_of_def
      intro: job_step.claim)

lemma running_row_sim: "running_where i w now r \<Longrightarrow> row_sim r (running_set now r)"
  by (rule row_simI) (auto simp: running_where_def running_set_def terminal_status_def abs_row_def phase_of_def
      intro: job_step.start)

lemma complete_row_sim: "complete_where i w now r \<Longrightarrow> row_sim r (complete_set rs now r)"
  by (rule row_simI) (auto simp: complete_where_def complete_set_def terminal_status_def abs_row_def phase_of_def
      intro: job_step.finish)

lemma fail_phase:
  "phase_of (fail_set m b now r) = (if er_attempt_count r < er_max_attempts r then PQueued else PDead)"
  by (simp add: phase_of_def fail_set_def)

lemma fail_row_sim: "active_status (er_job_status r) \<Longrightarrow> row_sim r (fail_set m b now r)"
proof (rule row_simI)
  assume a: "active_status (er_job_status r)"
  then show "\<not> terminal_status (er_job_status r)" by (rule active_not_terminal)
  have "er_attempt_count (fail_set m b now r) = er_attempt_count r" by (simp add: fail_set_def)
  then show "abs_row (fail_set m b now r) = abs_row r \<or>
      job_step (er_max_attempts r) (abs_row r) (abs_row (fail_set m b now r))"
    by (simp add: abs_row_def fail_phase active_holder [OF a] job_step.requeue job_step.bury)
qed (simp_all add: fail_set_def)

lemma renew_phase: "phase_of (renew_set l now r) = phase_of r"
  by (simp add: phase_of_def renew_set_def split: job_status.split)

lemma renew_row_sim: "renew_where i w now r \<Longrightarrow> row_sim r (renew_set l now r)"
  by (rule row_simI) (auto simp: renew_where_def active_not_terminal abs_row_def renew_phase, simp_all add: renew_set_def)

lemma marker_row_sim: "row_sim r (marker_set now r)"
  by (simp add: row_sim_def marker_set_def abs_row_def phase_of_def split: job_status.split)

section \<open>Tables\<close>

definition table_sim :: "database \<Rightarrow> database \<Rightarrow> bool" where
  "table_sim d d1 \<longleftrightarrow>
     (\<forall>i r. find_row er_id i (db_executions d) = Some r \<longrightarrow>
        (\<exists>q. find_row er_id i (db_executions d1) = Some q \<and> row_sim r q))"

lemma table_sim_same: "db_executions d1 = db_executions d \<Longrightarrow> table_sim d d1"
  by (simp add: table_sim_def)

lemma table_simD:
  "table_sim d d1 \<Longrightarrow> find_row er_id i (db_executions d) = Some r \<Longrightarrow>
     \<exists>q. find_row er_id i (db_executions d1) = Some q \<and> row_sim r q"
  by (simp add: table_sim_def)

lemma table_sim_trans: "table_sim d d1 \<Longrightarrow> table_sim d1 d2 \<Longrightarrow> table_sim d d2"
  unfolding table_sim_def by (meson row_sim_trans)

lemma table_sim_later: "later d d0 \<Longrightarrow> table_sim d d0"
  by (rule table_sim_same) (simp add: later_tables)

lemma update_executions_sim:
  assumes "update_executions p f d = Inr (n, d1)"
    and "\<And>now r. er_id (f now r) = er_id r" and "\<And>now r. p now r \<Longrightarrow> row_sim r (f now r)"
  shows "table_sim d d1"
proof -
  have "db_executions d1 = update_where (p (db_now d)) (f (db_now d)) (db_executions d)"
    using assms(1) by (auto simp: update_executions_def)
  then show ?thesis using assms(3) by (auto simp: table_sim_def find_row_update_where assms(2))
qed

lemma run_stmt_sim:
  assumes "\<And>d n d1. f d = Inr (n, d1) \<Longrightarrow> table_sim d d1"
  shows "table_sim d (snd (run_stmt f d))"
proof (rule run_stmt_preserves)
  show "table_sim d d" by (simp add: table_sim_same)
  show "table_sim d d1" if "table_sim d d0" "f d0 = Inr (x, d1)" for d0 x d1
    using that assms table_sim_trans by blast
  show "table_sim d d1" if "later d0 d1" "table_sim d d0" for d0 d1
    using that table_sim_later table_sim_trans by blast
qed

lemma run_update_sim:
  assumes "\<And>now r. er_id (f now r) = er_id r" and "\<And>now r. p now r \<Longrightarrow> row_sim r (f now r)"
  shows "table_sim d (snd (run_stmt (update_executions p f) d))"
  by (rule run_stmt_sim) (rule update_executions_sim [OF _ assms])

lemma insert_execution_sim: "insert_execution job d = Inr (n, d1) \<Longrightarrow> table_sim d d1"
  by (auto simp: insert_execution_def table_sim_def find_row_append split: if_splits)

lemma claim_stmt_sim: "claim_stmt i w l d = Inr (n, d1) \<Longrightarrow> table_sim d d1"
  by (auto simp: claim_stmt_def split: if_splits elim!: update_executions_sim intro: claim_row_sim)

lemma complete_stmt_sim: "complete_stmt i w rs d = Inr (n, d1) \<Longrightarrow> table_sim d d1"
  by (auto simp: complete_stmt_def split: if_splits elim!: update_executions_sim intro: complete_row_sim)

lemma fail_stmt_sim: "fail_stmt i w m b d = Inr (n, d1) \<Longrightarrow> table_sim d d1"
  by (auto simp: fail_stmt_def fail_where_def split: if_splits elim!: update_executions_sim intro: fail_row_sim)

lemma pg_create_sim: "table_sim d (snd (pg_create job d))"
proof (cases "ej_Status job = JobQueued")
  case True
  then have "snd (pg_create job d) = snd (run_stmt (insert_execution job) d)"
    by (auto simp: pg_create_def split: prod.splits sum.splits)
  then show ?thesis using run_stmt_sim insert_execution_sim by metis
qed (simp add: pg_create_def table_sim_same)

lemma pg_find_queued_later: "later d (snd (pg_find_queued limit d))"
proof -
  have "snd (pg_find_queued limit d) =
    snd (run_stmt (query (\<lambda>d. if limit < 0 then Inl (ExternalError ''LIMIT must not be negative'')
             else Inr (map er_id (take (nat limit) (find_queued_rows (db_now d) (db_executions d)))))) d)"
    by (auto simp: pg_find_queued_def split: prod.splits sum.splits)
  then show ?thesis by (simp only: run_query_later)
qed

section \<open>Operations\<close>

text \<open>Every operation of the program that touches the job tables, as data, and its effect.\<close>

datatype job_op =
    OpCreate execution_job
  | OpGet string
  | OpFindQueued int
  | OpClaim string string int
  | OpMarkRunning string string
  | OpComplete string string "execution_result slice"
  | OpFail string string string int
  | OpRenew string string int
  | OpRecoverAbandoned
  | OpMarkDispatched string
  | OpMarkStale int
  | OpHeartbeat string
  | OpWorkerStatus string worker_status

fun exec_op :: "job_op \<Rightarrow> database \<Rightarrow> database" where
  "exec_op (OpCreate job) d = snd (pg_create job d)"
| "exec_op (OpGet i) d = snd (pg_get i d)"
| "exec_op (OpFindQueued n) d = snd (pg_find_queued n d)"
| "exec_op (OpClaim i w l) d = snd (pg_claim i w l d)"
| "exec_op (OpMarkRunning i w) d = snd (pg_mark_running i w d)"
| "exec_op (OpComplete i w rs) d = snd (pg_complete i w rs d)"
| "exec_op (OpFail i w m b) d = snd (pg_fail_job i w m b d)"
| "exec_op (OpRenew i w l) d = snd (pg_renew_lease i w l d)"
| "exec_op OpRecoverAbandoned d = recover_abandoned_jobs d"
| "exec_op (OpMarkDispatched i) d = mark_dispatched i d"
| "exec_op (OpMarkStale t) d = mark_stale_workers t d"
| "exec_op (OpHeartbeat w) d = heartbeat_tick w d"
| "exec_op (OpWorkerStatus w st) d = snd (heartbeat_update_status w st d)"

lemma worker_ops_ok [simp]:
  "table_ok (mark_stale_workers t d) = table_ok d" "table_ok (heartbeat_tick w d) = table_ok d"
  "table_ok (snd (heartbeat_update_status w st d)) = table_ok d"
  by (rule table_ok_workers, simp)+

lemma exec_op_ok: "table_ok d \<Longrightarrow> table_ok (exec_op op d)"
  by (cases op) (simp_all add: store_ok recover_abandoned_jobs_ok mark_dispatched_ok
      table_ok_later [OF pg_find_queued_later])

lemma pg_claim_sim: "table_sim d (snd (pg_claim i w l d))"
  by (simp add: pg_claim_def) (rule run_stmt_sim, rule claim_stmt_sim)

lemma pg_mark_running_sim: "table_sim d (snd (pg_mark_running i w d))"
  by (simp add: pg_mark_running_def) (rule run_update_sim, simp, rule running_row_sim)

lemma pg_complete_sim: "table_sim d (snd (pg_complete i w rs d))"
  by (simp add: pg_complete_def) (rule run_stmt_sim, rule complete_stmt_sim)

lemma pg_fail_job_sim: "table_sim d (snd (pg_fail_job i w m b d))"
  by (simp add: pg_fail_job_def) (rule run_stmt_sim, rule fail_stmt_sim)

lemma pg_renew_lease_sim: "table_sim d (snd (pg_renew_lease i w l d))"
  by (simp add: pg_renew_lease_def) (rule run_update_sim, simp, rule renew_row_sim)

lemma recover_abandoned_jobs_sim: "table_sim d (recover_abandoned_jobs d)"
  unfolding recover_abandoned_jobs_def
  by (rule run_update_sim, simp) (simp add: expired_set_fail expired_where_def fail_row_sim)

lemma mark_dispatched_sim: "table_sim d (mark_dispatched i d)"
  unfolding mark_dispatched_def by (rule run_update_sim, simp, rule marker_row_sim)

lemmas op_sims = pg_create_sim pg_claim_sim pg_mark_running_sim pg_complete_sim pg_fail_job_sim
  pg_renew_lease_sim recover_abandoned_jobs_sim mark_dispatched_sim

lemma exec_op_sim: "table_sim d (exec_op op d)"
  by (cases op) (simp_all add: op_sims table_sim_same table_sim_later pg_get_later pg_find_queued_later)

text \<open>One step of the database: some operation of some goroutine of some process.\<close>

inductive op_step :: "database \<Rightarrow> database \<Rightarrow> bool" where
  op: "op_step d (exec_op op d)"

lemma op_step_sim: "op_step d d1 \<Longrightarrow> table_sim d d1"
  by (auto elim: op_step.cases intro: exec_op_sim)

lemma op_step_ok: "op_step d d1 \<Longrightarrow> table_ok d \<Longrightarrow> table_ok d1"
  by (auto elim: op_step.cases intro: exec_op_ok)

interpretation pg_jobs: job_machine op_step table_ok job_in budget_in
proof
  fix d d1 :: database and i a
  show "table_ok d \<Longrightarrow> op_step d d1 \<Longrightarrow> table_ok d1" by (rule op_step_ok)
  show "\<exists>b. job_in d1 i = Some b \<and> (job_step (budget_in d i))\<^sup>*\<^sup>* a b \<and> budget_in d1 i = budget_in d i"
    if "op_step d d1" "job_in d i = Some a"
  proof -
    from that(2) obtain r where r: "find_row er_id i (db_executions d) = Some r" "a = abs_row r"
      by (auto simp: job_in_def)
    with op_step_sim [OF that(1)] obtain q where "find_row er_id i (db_executions d1) = Some q" "row_sim r q"
      by (auto simp: table_sim_def)
    with r show ?thesis by (auto simp: job_in_def budget_in_def row_sim_def)
  qed
  show "attempts_ok (budget_in d i) a" if "table_ok d" "job_in d i = Some a"
    using that find_row_SomeD [of er_id i "db_executions d"]
    by (auto simp: job_in_def budget_in_def table_ok_def intro!: row_attempts_ok)
qed

lemma op_steps_sim: "op_step\<^sup>*\<^sup>* d d1 \<Longrightarrow> table_sim d d1"
  by (induction rule: rtranclp_induct) (auto intro: table_sim_same table_sim_trans op_step_sim)

lemma op_steps_ok: "op_step\<^sup>*\<^sup>* d d1 \<Longrightarrow> table_ok d \<Longrightarrow> table_ok d1"
  by (rule pg_jobs.ok_reach)

section \<open>Properties\<close>

text \<open>
  every operation on the job tables refines the job machine: whatever operation of whatever process
  runs, and whether its statement is applied, refused or applied with the reply lost, the tables stay
  consistent and each job keeps its budget and moves by the machine's steps.
\<close>

theorem operations_refine_machine:
  assumes "table_ok d" and "job_in d i = Some a"
  shows "table_ok (exec_op op d) \<and>
    (\<exists>b. job_in (exec_op op d) i = Some b \<and> (job_step (budget_in d i))\<^sup>*\<^sup>* a b \<and>
       budget_in (exec_op op d) i = budget_in d i)"
  using exec_op_ok [OF assms(1)] pg_jobs.simulates [OF assms(1) op_step.op assms(2)] by blast

lemma example_job: "job_in (database_example [row_example JobQueued None 0 5]) ''exec_1'' = Some (PQueued, 0)"
  by (simp add: job_in_def abs_row_def phase_of_def example_defs)

theorem operations_refine_machine_witness:
  "\<exists>b. job_in (exec_op (OpClaim ''exec_1'' ''w'' 30) (database_example [row_example JobQueued None 0 5])) ''exec_1'' = Some b"
  using operations_refine_machine [OF example_ok example_job, of "OpClaim ''exec_1'' ''w'' 30"] by auto

text \<open>
  a finished job is final: once a job is completed or dead-lettered, no sequence of operations changes
  anything of its row but the dispatch marker, so its results and its verdict stay what they are.
\<close>

theorem finished_jobs_are_final:
  assumes "op_step\<^sup>*\<^sup>* d d1" and "find_row er_id i (db_executions d) = Some r"
    and "er_job_status r = JobCompleted \<or> er_job_status r = JobDeadLettered"
  shows "\<exists>q. find_row er_id i (db_executions d1) = Some q \<and>
    q = r\<lparr>er_last_dispatched_at := er_last_dispatched_at q\<rparr> \<and> er_results q = er_results r"
proof -
  from op_steps_sim [OF assms(1)] assms(2) obtain q where
    q: "find_row er_id i (db_executions d1) = Some q" "row_sim r q" by (auto simp: table_sim_def)
  then have e: "q = r\<lparr>er_last_dispatched_at := er_last_dispatched_at q\<rparr>"
    using assms(3) by (simp add: row_sim_def terminal_status_def)
  have "er_results q = er_results r" by (subst e) simp
  with q(1) e show ?thesis by blast
qed

theorem finished_jobs_are_final_witness:
  "\<exists>q. find_row er_id ''exec_1'' (db_executions (exec_op OpRecoverAbandoned
      (database_example [(row_example JobRunning None 1 5)\<lparr>er_job_status := JobCompleted, er_results := Some JNull\<rparr>])))
     = Some q \<and> er_results q = Some JNull"
proof -
  let ?r = "(row_example JobRunning None 1 5)\<lparr>er_job_status := JobCompleted, er_results := Some JNull\<rparr>"
  have "op_step\<^sup>*\<^sup>* (database_example [?r]) (exec_op OpRecoverAbandoned (database_example [?r]))"
    by (rule r_into_rtranclp) (rule op_step.op)
  moreover have "find_row er_id ''exec_1'' (db_executions (database_example [?r])) = Some ?r"
    by (simp add: example_defs)
  ultimately show ?thesis
    using finished_jobs_are_final [of "database_example [?r]" "exec_op OpRecoverAbandoned (database_example [?r])" "''exec_1''" ?r]
    by auto
qed

text \<open>
  attempts are bounded: in a database that started without jobs, after any operations in any order, no
  job has been claimed more often than its maximal number of attempts (or once, where that is less than
  one), and the keys, owners, leases and times of all rows agree with their states.
\<close>

theorem attempts_never_exceed_budget:
  assumes "op_step\<^sup>*\<^sup>* d d1" and "db_executions d = []" and "r \<in> set (db_executions d1)"
  shows "er_attempt_count r \<le> max 1 (er_max_attempts r) \<and>
    (er_job_status r = JobQueued \<longrightarrow> er_attempt_count r < max 1 (er_max_attempts r)) \<and>
    (active_status (er_job_status r) \<longleftrightarrow> er_worker_id r \<noteq> None) \<and>
    (er_worker_id r \<noteq> None \<longleftrightarrow> er_lease_expires_at r \<noteq> None) \<and>
    (er_job_status r = JobCompleted \<longleftrightarrow> er_results r \<noteq> None) \<and>
    (er_job_status r = JobDeadLettered \<longleftrightarrow> er_dead_lettered_at r \<noteq> None)"
proof -
  have "table_ok d" using assms(2) by (simp add: table_ok_def)
  with op_steps_ok [OF assms(1)] have "row_ok r" using assms(3) by (simp add: table_ok_def)
  then show ?thesis by (simp add: row_ok_def attempt_budget_def)
qed

theorem attempts_never_exceed_budget_witness:
  "\<exists>r \<in> set (db_executions (exec_op (OpCreate job_example) (database_example []))). er_attempt_count r \<le> 5"
proof -
  have c: "op_step\<^sup>*\<^sup>* (database_example []) (exec_op (OpCreate job_example) (database_example []))"
    by (rule r_into_rtranclp) (rule op_step.op)
  have e: "db_executions (database_example []) = []" by (simp add: database_example_def)
  have "\<exists>r \<in> set (db_executions (exec_op (OpCreate job_example) (database_example []))). er_max_attempts r = 5"
    by (simp add: pg_create_def run_stmt_def apply_stmt_def insert_execution_def database_example_def
        job_example_def int4_max_def text_ok_def no_nul_def valid_utf8.simps rune_width.simps byte_in_def)
  then obtain r where r: "r \<in> set (db_executions (exec_op (OpCreate job_example) (database_example [])))"
    "er_max_attempts r = 5" by blast
  from attempts_never_exceed_budget [OF c e r(1)] r show ?thesis by (intro bexI [of _ r]) auto
qed

text \<open>
  two workers never hold a job in the same attempt: if one worker holds it now and another after any
  operations, the job has been claimed again in between.
\<close>

theorem new_owner_needs_new_attempt:
  assumes "table_ok d" and "op_step\<^sup>*\<^sup>* d d1"
    and "find_row er_id i (db_executions d) = Some r" and "er_worker_id r = Some w"
    and "find_row er_id i (db_executions d1) = Some q" and "er_worker_id q = Some v" and "v \<noteq> w"
  shows "er_attempt_count r < er_attempt_count q"
proof -
  have ok: "table_ok d1" by (rule op_steps_ok [OF assms(2,1)])
  have "row_ok r" "row_ok q" using assms(1,3,5) ok by (auto simp: table_ok_def dest: find_row_SomeD)
  then have "active_status (er_job_status r)" "active_status (er_job_status q)"
    using assms(4,6) by (auto simp: row_ok_def)
  from active_holder [OF this(1)] active_holder [OF this(2)] assms show ?thesis
    using pg_jobs.holder_change_costs [OF assms(2,1), of i "abs_row r" "abs_row q" w v]
    by (simp add: job_in_def abs_row_def)
qed

theorem new_owner_needs_new_attempt_witness:
  "er_attempt_count (row_example JobClaimed (Some ''w'') 1 5) <
     er_attempt_count (the (find_row er_id ''exec_1'' (db_executions
        (exec_op (OpClaim ''exec_1'' ''v'' 30) (exec_op OpRecoverAbandoned
          (database_example [row_example JobClaimed (Some ''w'') 1 5]\<lparr>db_now := 40\<rparr>))))))"
proof -
  let ?d = "database_example [row_example JobClaimed (Some ''w'') 1 5]\<lparr>db_now := 40\<rparr>"
  let ?d1 = "exec_op (OpClaim ''exec_1'' ''v'' 30) (exec_op OpRecoverAbandoned ?d)"
  have ok: "table_ok ?d" using example_held_ok [of JobClaimed 5 "''w''"] by (simp add: table_ok_def)
  have steps: "op_step\<^sup>*\<^sup>* ?d ?d1"
    by (rule rtranclp.rtrancl_into_rtrancl [OF r_into_rtranclp]) (rule op_step.op)+
  have r: "find_row er_id ''exec_1'' (db_executions ?d) = Some (row_example JobClaimed (Some ''w'') 1 5)"
    "er_worker_id (row_example JobClaimed (Some ''w'') 1 5) = Some ''w''"
    by (simp_all add: example_defs)
  have "\<exists>q. find_row er_id ''exec_1'' (db_executions ?d1) = Some q \<and> er_worker_id q = Some ''v''"
    by (simp add: method_defs store_run_defs example_defs recover_abandoned_jobs_def expired_where_def
        expired_set_def claim_set_def int4_max_def)
  then obtain q where q: "find_row er_id ''exec_1'' (db_executions ?d1) = Some q" "er_worker_id q = Some ''v''"
    by blast
  from new_owner_needs_new_attempt [OF ok steps r q] q(1) show ?thesis by simp
qed

text \<open>
  every job ends: starting from any consistent row, no path of the job machine (and so no sequence of
  operations that change its state) has more than four steps per attempt left and three more.
\<close>

theorem job_life_is_finite:
  assumes "row_ok r" and "(job_step (er_max_attempts r) ^^ k) (abs_row r) s"
  shows "int k \<le> 4 * (max 1 (er_max_attempts r) - er_attempt_count r) + 3"
proof -
  have ok: "attempts_ok (er_max_attempts r) (abs_row r)" by (rule row_attempts_ok [OF assms(1)])
  have le: "0 \<le> max 1 (er_max_attempts r) - er_attempt_count r"
    using assms(1) by (simp add: row_ok_def attempt_budget_def)
  have "phase_rank (phase_of r) \<le> 2" by (cases "phase_of r") auto
  then have "int (job_rank (er_max_attempts r) (abs_row r)) \<le>
      4 * (max 1 (er_max_attempts r) - er_attempt_count r) + 3"
    using le by (auto simp: job_rank_def abs_row_def)
  with path_length [OF assms(2) ok] show ?thesis by linarith
qed

theorem job_life_is_finite_witness:
  "int 1 \<le> 4 * (max 1 5 - 0) + (3 :: int)"
proof -
  let ?r = "row_example JobQueued None 0 5"
  have ok: "row_ok ?r" using example_ok [of 5] by (simp add: table_ok_def database_example_def)
  have "(job_step (er_max_attempts ?r) ^^ 1) (abs_row ?r) (PClaimed ''w'', 0 + 1)"
    using job_step.claim [of 5 0 "''w''"] by (simp add: abs_row_def phase_of_def row_example_def eq_OO)
  from job_life_is_finite [OF ok this] show ?thesis by (simp add: row_example_def)
qed

end
