(* ===== verification/Job_Service.thy ===== *)
theory Job_Service imports Job_Refinement Languages begin

text \<open>
  \<^verbatim>\<open>internal/jobs/service.go\<close>: the service behind the API that accepts a job and looks one up. The ULID
  and the clock are arguments. The store is the PostgreSQL store, the queue the Redis queue; the state
  is the pair of the database and the Redis client's state.
\<close>

definition new_job :: "string \<Rightarrow> int \<Rightarrow> job_request \<Rightarrow> execution_job" where
  "new_job ulid now req =
     \<lparr>ej_ID = ''exec_'' @ ulid, ej_Language = jr_Language req, ej_SourceCode = jr_SourceCode req,
      ej_Inputs = jr_Inputs req, ej_Status = JobQueued, ej_Results = None, ej_CreatedAt = now,
      ej_ClaimedAt = None, ej_StartedAt = None, ej_CompletedAt = None, ej_WorkerID = None,
      ej_AttemptCount = 0, ej_MaxAttempts = 0, ej_NextRetryAt = None, ej_LeaseExpiresAt = None,
      ej_LastError = None, ej_DeadLetteredAt = None, ej_LastDispatchedAt = None\<rparr>"

definition create_execution ::
  "'q redis_client \<Rightarrow> redis_queue \<Rightarrow> language_registry \<Rightarrow> string \<Rightarrow> int \<Rightarrow> job_request \<Rightarrow> database \<times> 'q
   \<Rightarrow> (goerror + execution_job) \<times> database \<times> 'q" where
  "create_execution C q registry ulid now req st =
     (let (d, s) = st
      in if jr_Language req = [] \<or> jr_SourceCode req = []
         then (Inl (ErrMsg ''language and source_code are required''), d, s)
         else (case get_executor registry (jr_Language req) of
                 Inl err \<Rightarrow> (Inl (ErrMsg (''unsupported language: '' @ jr_Language req)), d, s)
               | Inr ex \<Rightarrow>
                   (let job = new_job ulid now req
                    in case pg_create job d of
                         (Some err, d1) \<Rightarrow> (Inl (Wrapped ''failed to store job: '' err []), d1, s)
                       | (None, d1) \<Rightarrow>
                           (case enqueue C q (ej_ID job) ''run'' s of
                              (Some err, s1) \<Rightarrow> (Inl err, d1, s1)
                            | (None, s1) \<Rightarrow> (Inr (clone_job job), d1, s1)))))"

definition get_execution :: "string \<Rightarrow> database \<Rightarrow> (goerror + execution_job) \<times> database" where
  "get_execution jobID d = pg_get jobID d"

section \<open>Accepted jobs\<close>

text \<open>The row of a job that was just stored.\<close>

lemma pg_create_row:
  assumes "pg_create job d = (None, d1)"
  shows "\<exists>r. find_row er_id (ej_ID job) (db_executions d1) = Some r \<and> er_job_status r = JobQueued \<and>
    er_max_attempts r = ej_MaxAttempts job \<and> er_attempt_count r = 0 \<and> er_next_retry_at r = None \<and>
    er_last_dispatched_at r = None \<and> er_inputs r = marshal to_valid_utf8 (ej_Inputs job) \<and>
    er_language r = ej_Language job \<and> er_source_code r = ej_SourceCode job"
  using pg_create_Inr [OF assms]
  by (auto simp: insert_execution_def find_row_append split: if_splits)

lemma create_execution_stored:
  assumes "create_execution C q registry ulid now req (d, s) = (res, d1, s1)" and "d1 \<noteq> d \<or> s1 \<noteq> s \<or> isl res = False"
  shows "jr_Language req \<noteq> [] \<and> jr_SourceCode req \<noteq> [] \<and> (\<exists>ex. get_executor registry (jr_Language req) = Inr ex)"
  using assms by (auto simp: create_execution_def split: if_splits sum.splits)

lemma create_execution_Inr:
  assumes "create_execution C q registry ulid now req (d, s) = (Inr job, d1, s1)"
  shows "pg_create (new_job ulid now req) d = (None, d1) \<and> enqueue C q (''exec_'' @ ulid) ''run'' s = (None, s1) \<and>
    job = clone_job (new_job ulid now req)"
  using assms
  by (auto simp: create_execution_def Let_def new_job_def split: if_splits sum.splits prod.splits option.splits)

lemma create_execution_ok:
  "table_ok d \<Longrightarrow> create_execution C q registry ulid now req (d, s) = (res, d1, s1) \<Longrightarrow> table_ok d1"
  using pg_create_ok [of d "new_job ulid now req"]
  by (auto simp: create_execution_def Let_def split: if_splits sum.splits prod.splits option.splits)

section \<open>Properties\<close>

text \<open>
  an accepted job is stored and enqueued: where the API answers with a job, the database has its row,
  queued with the request's payload, and exactly one entry, a run of this job, was added to the queue.
\<close>

theorem accepted_job_is_stored_and_queued:
  assumes "create_execution (logged_redis C) q registry ulid now req (d, (s, l)) = (Inr job, d1, (s1, l1))"
  shows "\<exists>r. find_row er_id (ej_ID job) (db_executions d1) = Some r \<and> er_job_status r = JobQueued \<and>
    er_language r = jr_Language req \<and> er_source_code r = jr_SourceCode req \<and>
    elems (unmarshal (er_inputs r)) = map to_valid_utf8 (elems (jr_Inputs req)) \<and>
    added l1 = added l @ [job_entry (ej_ID job) ''run''] \<and> acked l1 = acked l \<and> \<not> kq_closed q"
proof -
  from create_execution_Inr [OF assms] have
    c: "pg_create (new_job ulid now req) d = (None, d1)"
    and e: "enqueue (logged_redis C) q (''exec_'' @ ulid) ''run'' (s, l) = (None, s1, l1)"
    and j: "ej_ID job = ''exec_'' @ ulid"
    by (auto simp: new_job_def)
  have i: "elems (unmarshal (marshal to_valid_utf8 (jr_Inputs req))) = map to_valid_utf8 (elems (jr_Inputs req))"
    by (cases "jr_Inputs req") auto
  from pg_create_row [OF c] enqueue_logged [OF e] i show ?thesis
    unfolding j by (auto simp: new_job_def)
qed

definition job_request_example :: job_request where
  "job_request_example = \<lparr>jr_Language = ''python'', jr_SourceCode = ''x'', jr_Inputs = Some [[], ''1'']\<rparr>"

lemma create_example:
  "\<exists>d1 s1 l1. create_execution (logged_redis silent_redis) (new_redis_queue ''jobs'' ''g'' 10) main_registry ''01'' 5
     job_request_example (database_example [], (0, [])) =
     (Inr (clone_job (new_job ''01'' 5 job_request_example)), d1, (s1, l1))"
proof -
  have "get_executor main_registry ''python'' = Inr (PythonExecutor (profile_or_zero ''python''))"
    by (simp add: get_executor_def main_registry_simps)
  then show ?thesis
    by (simp add: create_execution_def job_request_example_def pg_create_def run_stmt_def apply_stmt_def
        insert_execution_def database_example_def new_job_def int4_max_def text_ok_def no_nul_def valid_utf8.simps
        rune_width.simps byte_in_def enqueue_def new_redis_queue_def logged_redis_def silent_redis_def Let_def)
qed

theorem accepted_job_is_stored_and_queued_witness:
  "\<exists>job d1 s1 l1. create_execution (logged_redis silent_redis) (new_redis_queue ''jobs'' ''g'' 10) main_registry ''01'' 5
     job_request_example (database_example [], (0, [])) = (Inr job, d1, (s1, l1)) \<and>
     added l1 = [job_entry (ej_ID job) ''run'']"
proof -
  obtain d1 s1 l1 where e: "create_execution (logged_redis silent_redis) (new_redis_queue ''jobs'' ''g'' 10) main_registry
      ''01'' 5 job_request_example (database_example [], (0, [])) =
      (Inr (clone_job (new_job ''01'' 5 job_request_example)), d1, (s1, l1))" using create_example by blast
  from accepted_job_is_stored_and_queued [OF e] e show ?thesis by auto
qed



text \<open>
  no accepted job is forgotten: once its row is stored, whether or not the entry could be added to the
  queue, the job is one the recovery service selects for dispatch at any time while it is queued and
  unclaimed; for a job whose entry was added this means a second entry for the same run.
\<close>

theorem stored_job_will_be_dispatched:
  assumes "pg_create (new_job ulid now req) d = (None, d1)"
  shows "\<exists>r \<in> set (db_executions d1). er_id r = ''exec_'' @ ulid \<and> dispatch_where (db_now d1 + t) r"
proof -
  from pg_create_row [OF assms(1)] obtain r where
    r: "find_row er_id (''exec_'' @ ulid) (db_executions d1) = Some r" "er_job_status r = JobQueued"
      "er_next_retry_at r = None" "er_last_dispatched_at r = None" by (auto simp: new_job_def)
  then show ?thesis using find_row_SomeD [OF r(1)]
    by (intro bexI [of _ r]) (auto simp: dispatch_where_def retry_due_def)
qed

theorem stored_job_will_be_dispatched_witness:
  "\<exists>r \<in> set (db_executions (snd (pg_create (new_job ''01'' 5 job_request_example) (database_example [])))).
     er_id r = ''exec_'' @ ''01''"
proof -
  let ?c = "pg_create (new_job ''01'' 5 job_request_example) (database_example [])"
  have f: "fst ?c = None"
    by (simp add: job_request_example_def pg_create_def run_stmt_def apply_stmt_def
        insert_execution_def database_example_def new_job_def int4_max_def text_ok_def no_nul_def valid_utf8.simps
        rune_width.simps byte_in_def)
  from stored_job_will_be_dispatched [OF pair_of_fst [OF f], of 0] show ?thesis by blast
qed

end
