(* ===== verification/Pending.thy ===== *)
theory Pending imports Job_Refinement begin

text \<open>
  \<^verbatim>\<open>internal/jobs/pending_recovery.go\<close>: the sweep over messages that were delivered and not
  acknowledged. One message is handled by \<open>handle_pending\<close>, one round of \<^verbatim>\<open>XAUTOCLAIM\<close> by the loop of
  \<open>run_recovery\<close>, which takes fuel.
\<close>

record pending_recovery =
  pc_stream :: string
  pc_group :: string
  pc_idleTimeout :: i64
  pc_claimBatchSize :: i64
  pc_queue :: redis_queue

definition xack :: "'q redis_client \<Rightarrow> pending_recovery \<Rightarrow> string \<Rightarrow> 'q \<Rightarrow> 'q" where
  "xack C pr i s = snd (rx_XAck C (pc_stream pr) (pc_group pr) i s)"

text \<open>The body of the loop over the messages.\<close>

definition handle_pending ::
  "'q redis_client \<Rightarrow> pending_recovery \<Rightarrow> stream_message \<Rightarrow> database \<times> 'q \<Rightarrow> database \<times> 'q" where
  "handle_pending C pr msg st =
     (let (d, s) = st
      in case sm_Values msg ''job_id'' of
           None \<Rightarrow> (d, xack C pr (sm_ID msg) s)
         | Some jobID \<Rightarrow>
             (case pg_get jobID d of
                (Inl err, d1) \<Rightarrow>
                  (if err = ErrJobNotFound then (d1, xack C pr (sm_ID msg) s) else (d1, s))
              | (Inr job, d1) \<Rightarrow>
                  (if ej_Status job = JobCompleted then (d1, xack C pr (sm_ID msg) s)
                   else if ej_Status job = JobRunning then (d1, xack C pr (sm_ID msg) s)
                   else if ej_Status job = JobQueued
                   then (d1, snd (enqueue C (pc_queue pr) jobID ''run'' (xack C pr (sm_ID msg) s)))
                   else (d1, s))))"

fun handle_all ::
  "'q redis_client \<Rightarrow> pending_recovery \<Rightarrow> stream_message list \<Rightarrow> database \<times> 'q \<Rightarrow> database \<times> 'q" where
  "handle_all C pr [] st = st"
| "handle_all C pr (m # ms) st = handle_all C pr ms (handle_pending C pr m st)"

fun run_recovery ::
  "'q redis_client \<Rightarrow> pending_recovery \<Rightarrow> nat \<Rightarrow> string \<Rightarrow> database \<times> 'q \<Rightarrow> (database \<times> 'q) option" where
  "run_recovery C pr 0 start st = None"
| "run_recovery C pr (Suc fuel) start st =
     (let (d, s) = st
      in case rx_XAutoClaim C (pc_stream pr) (pc_group pr) ''system-recovery'' (pc_idleTimeout pr) start
                (pc_claimBatchSize pr) s of
           (Inl err, s1) \<Rightarrow> Some (d, s1)
         | (Inr (msgs, nextStart), s1) \<Rightarrow>
             (let st1 = handle_all C pr msgs (d, s1)
              in if nextStart = ''0-0'' \<or> msgs = [] then Some st1
                 else run_recovery C pr fuel nextStart st1))"

section \<open>One message\<close>

lemma pg_get_not_found:
  "pg_get i d = (Inl ErrJobNotFound, d1) \<Longrightarrow> find_row er_id i (db_executions d) = None"
  by (auto simp: pg_get_def split: prod.splits sum.splits option.splits dest!: run_query_InrD later_tables)

lemma handle_pending_db: "later (fst st) (fst (handle_pending C pr m st))"
proof (cases st)
  case (Pair d s)
  have "later d d1" if "pg_get i d = (r, d1)" for i r d1 using pg_get_later [of d i] that by simp
  with Pair show ?thesis
    by (auto simp: handle_pending_def Let_def split: option.splits prod.splits sum.splits)
qed

lemma handle_all_db: "later (fst st) (fst (handle_all C pr ms st))"
proof (induction ms arbitrary: st)
  case (Cons m ms)
  from later_trans [OF handle_pending_db Cons.IH] show ?case by simp
qed simp

lemma run_recovery_db: "run_recovery C pr fuel start st = Some st1 \<Longrightarrow> later (fst st) (fst st1)"
proof (induction fuel arbitrary: start st)
  case (Suc fuel)
  obtain d s where st: "st = (d, s)" by fastforce
  obtain r s1 where r: "rx_XAutoClaim C (pc_stream pr) (pc_group pr) ''system-recovery'' (pc_idleTimeout pr) start
      (pc_claimBatchSize pr) s = (r, s1)" by fastforce
  show ?case
  proof (cases r)
    case (Inr p)
    obtain ms nx where p: "p = (ms, nx)" by fastforce
    have h: "later d (fst (handle_all C pr ms (d, s1)))" using handle_all_db [of "(d, s1)" C pr ms] by simp
    with Suc st r Inr p show ?thesis
      by (auto simp: Let_def split: if_splits dest!: Suc.IH intro: later_trans)
  qed (use Suc st r in auto)
qed simp

lemma xack_logged: "acked (snd (xack (logged_redis C) pr i (s, l))) = acked l \<or>
     acked (snd (xack (logged_redis C) pr i (s, l))) = acked l @ [i]"
  "added (snd (xack (logged_redis C) pr i (s, l))) = added l"
  by (auto simp: xack_def logged_redis_def Let_def split: prod.splits)

section \<open>Termination\<close>

text \<open>
  A sweep ends when the cursor does: \<open>left\<close> bounds the rounds a cursor still needs, as Redis promises
  for a scan of a finite list of pending entries.
\<close>

lemma run_recovery_returns:
  assumes "\<And>start s msgs nx s1.
      rx_XAutoClaim C (pc_stream pr) (pc_group pr) ''system-recovery'' (pc_idleTimeout pr) start (pc_claimBatchSize pr) s =
        (Inr (msgs, nx), s1) \<Longrightarrow> nx \<noteq> ''0-0'' \<Longrightarrow> msgs \<noteq> [] \<Longrightarrow> left nx < (left start :: nat)"
  shows "left start < fuel \<Longrightarrow> \<exists>st1. run_recovery C pr fuel start st = Some st1"
proof (induction fuel arbitrary: start st)
  case (Suc fuel)
  obtain d s where st: "st = (d, s)" by fastforce
  obtain r s1 where r: "rx_XAutoClaim C (pc_stream pr) (pc_group pr) ''system-recovery'' (pc_idleTimeout pr) start
      (pc_claimBatchSize pr) s = (r, s1)" by fastforce
  show ?case
  proof (cases r)
    case (Inr p)
    obtain ms nx where p: "p = (ms, nx)" by fastforce
    show ?thesis
    proof (cases "nx = ''0-0'' \<or> ms = []")
      case False
      then have "left nx < fuel" using assms [OF r [unfolded Inr p]] Suc.prems by simp
      from Suc.IH [OF this] False st r Inr p show ?thesis by simp
    qed (use st r Inr p in simp)
  qed (use st r in simp)
qed simp

section \<open>Properties\<close>

text \<open>
  which messages the sweep acknowledges: only one without a job id, or one whose job does not exist,
  is completed, is running or is queued; a queued job is enqueued again in the same step, and nothing is
  added otherwise. The messages of dead-lettered jobs stay pending.
\<close>

theorem sweep_acknowledges:
  assumes "handle_pending (logged_redis C) pr msg (d, (s, l)) = (d1, (s1, l1))" and "acked l1 \<noteq> acked l"
  shows "acked l1 = acked l @ [sm_ID msg] \<and>
    (case sm_Values msg ''job_id'' of
       None \<Rightarrow> added l1 = added l
     | Some jobID \<Rightarrow>
         (case find_row er_id jobID (db_executions d) of
            None \<Rightarrow> added l1 = added l
          | Some r \<Rightarrow>
              er_job_status r \<in> {JobCompleted, JobRunning} \<and> added l1 = added l \<or>
              er_job_status r = JobQueued \<and>
                (added l1 = added l @ [job_entry jobID ''run''] \<or> added l1 = added l)))"
proof -
  obtain s0 l0 where x: "xack (logged_redis C) pr (sm_ID msg) (s, l) = (s0, l0)" by fastforce
  then have x2: "acked l0 = acked l \<or> acked l0 = acked l @ [sm_ID msg]" "added l0 = added l"
    using xack_logged [of C pr "sm_ID msg" s l] by auto
  show ?thesis
  proof (cases "sm_Values msg ''job_id''")
    case None
    with assms x x2 show ?thesis by (auto simp: handle_pending_def)
  next
    case (Some jobID)
    obtain r d2 where g: "pg_get jobID d = (r, d2)" by fastforce
    show ?thesis
    proof (cases r)
      case (Inl e)
      with assms Some x x2 g have "e = ErrJobNotFound" "l1 = l0" by (auto simp: handle_pending_def split: if_splits)
      with pg_get_not_found [of jobID d d2] g Inl Some x2 assms show ?thesis by auto
    next
      case (Inr job)
      with g have "\<exists>r. find_row er_id jobID (db_executions d) = Some r \<and> er_job_status r = ej_Status job"
        using pg_get_Inr [of jobID d job d2] by (auto simp: job_of_row_def)
      then obtain row where row: "find_row er_id jobID (db_executions d) = Some row" "er_job_status row = ej_Status job"
        by blast
      obtain e s2 l2 where q: "enqueue (logged_redis C) (pc_queue pr) jobID ''run'' (s0, l0) = (e, s2, l2)"
        by (metis prod.collapse)
      show ?thesis
        using assms Some x x2 g Inr row q enqueue_logged [OF q]
        by (cases "ej_Status job") (auto simp: handle_pending_def)
    qed
  qed
qed

definition pending_example :: pending_recovery where
  "pending_example = \<lparr>pc_stream = ''jobs'', pc_group = ''g'', pc_idleTimeout = 60, pc_claimBatchSize = 10,
     pc_queue = new_redis_queue ''jobs'' ''g'' 10\<rparr>"

definition submission_message :: stream_message where
  "submission_message = \<lparr>sm_ID = ''1-0'', sm_Values = [''job_id'' \<mapsto> ''s1'', ''job_type'' \<mapsto> ''submission'']\<rparr>"

lemma sweep_example:
  "handle_pending (logged_redis silent_redis) pending_example submission_message (database_example [], (0, [])) =
     (database_example [], (0, [EvAck ''1-0'' True]))"
  by (simp add: handle_pending_def submission_message_def pg_get_def run_stmt_def apply_stmt_def query_def
      database_example_def xack_def logged_redis_def silent_redis_def)

theorem sweep_acknowledges_witness:
  "acked [EvAck ''1-0'' True] = acked [] @ [sm_ID submission_message]"
  using sweep_acknowledges [OF sweep_example] by simp

text \<open>
  C35: the sweep loses submissions: a pending message of a submission, whose id is never in the table of
  executions, is acknowledged as the message of a missing job and nothing is enqueued in its place.
\<close>

theorem sweep_drops_submissions:
  assumes "sm_Values msg ''job_id'' = Some sid" and "sm_Values msg ''job_type'' = Some ''submission''"
    and "find_row er_id sid (db_executions d) = None" and "db_script d = []"
    and "fst (rx_XAck C (pc_stream pr) (pc_group pr) (sm_ID msg) s) = None"
  shows "acked (snd (snd (handle_pending (logged_redis C) pr msg (d, (s, l))))) = acked l @ [sm_ID msg] \<and>
    added (snd (snd (handle_pending (logged_redis C) pr msg (d, (s, l))))) = added l"
proof -
  have "pg_get sid d = (Inl ErrJobNotFound, d)"
    using assms(3,4) by (simp add: pg_get_def run_stmt_def apply_stmt_def query_def)
  with assms(1,5) show ?thesis
    by (auto simp: handle_pending_def xack_def logged_redis_def split: prod.splits)
qed

theorem sweep_drops_submissions_witness:
  "acked (snd (snd (handle_pending (logged_redis silent_redis) pending_example submission_message
     (database_example [], (0, []))))) = [''1-0'']"
proof -
  have "acked (snd (snd (handle_pending (logged_redis silent_redis) pending_example submission_message
     (database_example [], (0, []))))) = acked [] @ [sm_ID submission_message]"
    by (rule sweep_drops_submissions [THEN conjunct1, of _ "''s1''"])
      (simp_all add: submission_message_def database_example_def silent_redis_def)
  then show ?thesis by (simp add: submission_message_def)
qed

text \<open>
  the sweep ends, and leaves the tables as they are: if Redis's cursor makes progress in every round
  that returned messages, as many rounds as the first cursor needs are enough, and the sweep changes
  nothing in the database.
\<close>

theorem sweep_terminates:
  assumes "\<And>start s msgs nx s1.
      rx_XAutoClaim C (pc_stream pr) (pc_group pr) ''system-recovery'' (pc_idleTimeout pr) start (pc_claimBatchSize pr) s =
        (Inr (msgs, nx), s1) \<Longrightarrow> nx \<noteq> ''0-0'' \<Longrightarrow> msgs \<noteq> [] \<Longrightarrow> left nx < (left start :: nat)"
  shows "\<exists>d1 s1. run_recovery C pr (Suc (left ''-'')) ''-'' (d, s) = Some (d1, s1) \<and>
    db_executions d1 = db_executions d"
proof -
  have "\<exists>st1. run_recovery C pr (Suc (left ''-'')) ''-'' (d, s) = Some st1"
    by (rule run_recovery_returns [where left = left, OF assms]) simp_all
  then obtain d1 s1 where r: "run_recovery C pr (Suc (left ''-'')) ''-'' (d, s) = Some (d1, s1)" by force
  with run_recovery_db [OF r] show ?thesis by (auto dest: later_tables)
qed

theorem sweep_terminates_witness:
  "\<exists>d1 s1. run_recovery silent_redis pending_example (Suc 0) ''-'' (database_example [], 0) = Some (d1, s1)"
  using sweep_terminates [of silent_redis pending_example "\<lambda>c. 0" "database_example []" 0]
  by (auto simp: silent_redis_def)

end
