(* ===== verification/Repositories.thy ===== *)
theory Repositories imports Job_Store begin

text \<open>
  \<^verbatim>\<open>internal/repository\<close>: problems, test cases and submissions in PostgreSQL. Each method is one
  statement; what the schema of the migrations refuses (a column too short, an integer out of range, a
  duplicate slug, an unknown problem) is an error of the statement. Identifiers are the values
  \<^verbatim>\<open>gen_random_uuid()\<close> returns, the sequence \<open>db_uuid\<close> of the database.
\<close>

section \<open>Columns\<close>

function rune_count :: "string \<Rightarrow> nat" where
  "rune_count [] = 0"
| "rune_count (c # s) = Suc (rune_count (drop (rune_width (c # s) - 1) s))"
  by pat_completeness auto
termination by (relation "measure length") auto

definition varchar_ok :: "nat \<Rightarrow> string \<Rightarrow> bool" where
  "varchar_ok n s \<longleftrightarrow> text_ok s \<and> rune_count s \<le> n"

definition int4_ok :: "int \<Rightarrow> bool" where
  "int4_ok i \<longleftrightarrow> - int4_max - 1 \<le> i \<and> i \<le> int4_max"

definition column_error :: goerror where
  "column_error = ExternalError ''value does not fit its column''"

text \<open>A parameter of type \<^verbatim>\<open>UUID\<close>: the server reads the text, and refuses one that is none.\<close>

definition with_uuid :: "string \<Rightarrow> (string \<Rightarrow> 'a statement) \<Rightarrow> 'a statement" where
  "with_uuid i f d =
     (case db_uuid_in d i of
        None \<Rightarrow> Inl (ExternalError ''invalid input syntax for type uuid'')
      | Some u \<Rightarrow> f u d)"

definition fresh_id :: "database \<Rightarrow> string" where
  "fresh_id d = db_uuid d (db_seq d)"

section \<open>Problems (problem_repo.go)\<close>

definition problem_storable :: "f64 problem \<Rightarrow> bool" where
  "problem_storable p \<longleftrightarrow>
     varchar_ok 255 (pb_Title p) \<and> varchar_ok 255 (pb_Slug p) \<and> text_ok (pb_Description p) \<and>
     text_ok (pb_InputDescription p) \<and> text_ok (pb_OutputDescription p) \<and> text_ok (pb_Constraints p) \<and>
     int4_ok (pb_TimeLimitMs p) \<and> int4_ok (pb_MemoryLimitMB p) \<and> varchar_ok 50 (pb_ComparisonMode p) \<and>
     varchar_ok 50 (pb_Status p)"

definition insert_problem :: "f64 problem \<Rightarrow> string statement" where
  "insert_problem p d =
     (if \<not> problem_storable p then Inl column_error
      else if find_row pb_Slug (pb_Slug p) (db_problems d) \<noteq> None \<or>
              find_row pb_ID (fresh_id d) (db_problems d) \<noteq> None
      then Inl (ExternalError ''duplicate key value violates unique constraint'')
      else Inr (fresh_id d, d\<lparr>db_problems := db_problems d @ [p\<lparr>pb_ID := fresh_id d\<rparr>], db_seq := Suc (db_seq d)\<rparr>))"

definition problem_create :: "f64 problem \<Rightarrow> database \<Rightarrow> (goerror + f64 problem) \<times> database" where
  "problem_create p d =
     (case run_stmt (insert_problem p) d of
        (Inl err, d1) \<Rightarrow> (Inl err, d1)
      | (Inr i, d1) \<Rightarrow> (Inr (p\<lparr>pb_ID := i\<rparr>), d1))"

definition problem_get_by_id :: "string \<Rightarrow> database \<Rightarrow> (goerror + f64 problem) \<times> database" where
  "problem_get_by_id i d =
     (case run_stmt (with_uuid i (\<lambda>u. query (\<lambda>d. Inr (find_row pb_ID u (db_problems d))))) d of
        (Inl err, d1) \<Rightarrow> (Inl err, d1)
      | (Inr None, d1) \<Rightarrow> (Inl ErrProblemNotFound, d1)
      | (Inr (Some p), d1) \<Rightarrow> (Inr p, d1))"

text \<open>\<^verbatim>\<open>ORDER BY created_at DESC\<close>\<close>

definition problem_list_all :: "database \<Rightarrow> (goerror + f64 problem list) \<times> database" where
  "problem_list_all d = run_stmt (query (\<lambda>d. Inr (sort_key (\<lambda>p. - pb_CreatedAt p) (db_problems d)))) d"

section \<open>Test cases (testcase_repo.go)\<close>

definition test_case_storable :: "test_case \<Rightarrow> bool" where
  "test_case_storable t \<longleftrightarrow>
     text_ok (tc_Input t) \<and> text_ok (tc_ExpectedOutput t) \<and> varchar_ok 50 (tc_Visibility t) \<and> int4_ok (tc_SortOrder t)"

definition insert_test_case :: "test_case \<Rightarrow> string statement" where
  "insert_test_case t =
     with_uuid (tc_ProblemID t) (\<lambda>u d.
      if \<not> test_case_storable t then Inl column_error
      else if find_row pb_ID u (db_problems d) = None
      then Inl (ExternalError ''insert violates foreign key constraint'')
      else if find_row tc_ID (fresh_id d) (db_test_cases d) \<noteq> None
      then Inl (ExternalError ''duplicate key value violates unique constraint'')
      else Inr (fresh_id d, d\<lparr>db_test_cases := db_test_cases d @ [t\<lparr>tc_ID := fresh_id d, tc_ProblemID := u\<rparr>], db_seq := Suc (db_seq d)\<rparr>))"

definition test_case_create :: "test_case \<Rightarrow> database \<Rightarrow> (goerror + test_case) \<times> database" where
  "test_case_create t d =
     (case run_stmt (insert_test_case t) d of
        (Inl err, d1) \<Rightarrow> (Inl err, d1)
      | (Inr i, d1) \<Rightarrow> (Inr (t\<lparr>tc_ID := i\<rparr>), d1))"

definition test_cases_of :: "string \<Rightarrow> bool \<Rightarrow> database \<Rightarrow> test_case list" where
  "test_cases_of problemID includeHidden d =
     sort_key tc_SortOrder
       (filter (\<lambda>t. tc_ProblemID t = problemID \<and> (\<not> includeHidden \<longrightarrow> tc_Visibility t = VisibilityPublic)) (db_test_cases d))"

definition test_case_get_by_problem_id ::
  "string \<Rightarrow> bool \<Rightarrow> database \<Rightarrow> (goerror + test_case list) \<times> database" where
  "test_case_get_by_problem_id problemID includeHidden d =
     run_stmt (with_uuid problemID (\<lambda>u. query (\<lambda>d. Inr (test_cases_of u includeHidden d)))) d"

section \<open>Submissions (submission_repo.go)\<close>

definition submission_storable :: "submission \<Rightarrow> bool" where
  "submission_storable s \<longleftrightarrow>
     varchar_ok 255 (sb_UserID s) \<and> varchar_ok 50 (sb_Language s) \<and> text_ok (sb_SourceCode s) \<and>
     int4_ok (sb_ExecutionTimeMs s) \<and> int4_ok (sb_PassedTestCases s) \<and> int4_ok (sb_TotalTestCases s) \<and>
     text_ok (sb_AITimeComplexity s) \<and> text_ok (sb_AISpaceComplexity s) \<and> text_ok (sb_AIFeedback s)"

text \<open>\<^verbatim>\<open>StartedAt\<close> has no column.\<close>

definition insert_submission :: "submission \<Rightarrow> string statement" where
  "insert_submission s =
     with_uuid (sb_ProblemID s) (\<lambda>u d.
      if \<not> submission_storable s then Inl column_error
      else if find_row pb_ID u (db_problems d) = None
      then Inl (ExternalError ''insert violates foreign key constraint'')
      else if find_row sb_ID (fresh_id d) (db_submissions d) \<noteq> None
      then Inl (ExternalError ''duplicate key value violates unique constraint'')
      else Inr (fresh_id d,
                d\<lparr>db_submissions := db_submissions d @ [s\<lparr>sb_ID := fresh_id d, sb_ProblemID := u, sb_StartedAt := None\<rparr>],
                  db_seq := Suc (db_seq d)\<rparr>))"

definition submission_create :: "submission \<Rightarrow> database \<Rightarrow> (goerror + submission) \<times> database" where
  "submission_create s d =
     (case run_stmt (insert_submission s) d of
        (Inl err, d1) \<Rightarrow> (Inl err, d1)
      | (Inr i, d1) \<Rightarrow> (Inr (s\<lparr>sb_ID := i\<rparr>), d1))"

definition submission_get_by_id :: "string \<Rightarrow> database \<Rightarrow> (goerror + submission) \<times> database" where
  "submission_get_by_id i d =
     (case run_stmt (with_uuid i (\<lambda>u. query (\<lambda>d. Inr (find_row sb_ID u (db_submissions d))))) d of
        (Inl err, d1) \<Rightarrow> (Inl err, d1)
      | (Inr None, d1) \<Rightarrow> (Inl ErrSubmissionNotFound, d1)
      | (Inr (Some s), d1) \<Rightarrow> (Inr s, d1))"

definition submission_set :: "submission \<Rightarrow> submission \<Rightarrow> submission" where
  "submission_set s r =
     r\<lparr>sb_Status := sb_Status s, sb_Verdict := sb_Verdict s, sb_ExecutionTimeMs := sb_ExecutionTimeMs s,
       sb_MemoryUsedBytes := sb_MemoryUsedBytes s, sb_PassedTestCases := sb_PassedTestCases s,
       sb_TotalTestCases := sb_TotalTestCases s, sb_AITimeComplexity := sb_AITimeComplexity s,
       sb_AISpaceComplexity := sb_AISpaceComplexity s, sb_AIFeedback := sb_AIFeedback s,
       sb_CompletedAt := sb_CompletedAt s\<rparr>"

definition update_submission :: "submission \<Rightarrow> nat statement" where
  "update_submission s =
     with_uuid (sb_ID s) (\<lambda>u d.
      if \<not> submission_storable s then Inl column_error
      else Inr (rows_affected (\<lambda>r. sb_ID r = u) (db_submissions d),
                d\<lparr>db_submissions := update_where (\<lambda>r. sb_ID r = u) (submission_set s) (db_submissions d)\<rparr>))"

definition submission_update :: "submission \<Rightarrow> database \<Rightarrow> goerror option \<times> database" where
  "submission_update s d =
     (case run_stmt (update_submission s) d of (Inl err, d1) \<Rightarrow> (Some err, d1) | (Inr n, d1) \<Rightarrow> (None, d1))"

section \<open>Lemmas\<close>

lemma submission_set_id [simp]: "sb_ID (submission_set s r) = sb_ID r"
  by (simp add: submission_set_def)

lemma with_uuid_Inr [simp]:
  "with_uuid i f d = Inr x \<longleftrightarrow> (\<exists>u. db_uuid_in d i = Some u \<and> f u d = Inr x)"
  by (simp add: with_uuid_def split: option.splits)

lemma with_uuid_query: "with_uuid i (\<lambda>u. query (f u)) = query (\<lambda>d. case db_uuid_in d i of
    None \<Rightarrow> Inl (ExternalError ''invalid input syntax for type uuid'') | Some u \<Rightarrow> f u d)"
  by (auto simp: with_uuid_def query_def fun_eq_iff split: option.splits)

lemma later_uuid_in: "later d d0 \<Longrightarrow> db_uuid_in d0 = db_uuid_in d"
  by (cases d; cases d0) (auto simp: later_def)

lemma submission_get_Inr:
  "submission_get_by_id i d = (Inr s, d1) \<Longrightarrow>
     later d d1 \<and> (\<exists>u. db_uuid_in d i = Some u \<and> find_row sb_ID u (db_submissions d) = Some s)"
  by (auto simp: submission_get_by_id_def with_uuid_query later_uuid_in later_tables
      split: prod.splits sum.splits option.splits dest!: run_query_InrD)

lemma problem_get_Inr:
  "problem_get_by_id i d = (Inr p, d1) \<Longrightarrow>
     later d d1 \<and> (\<exists>u. db_uuid_in d i = Some u \<and> find_row pb_ID u (db_problems d) = Some p)"
  by (auto simp: problem_get_by_id_def with_uuid_query later_uuid_in later_tables
      split: prod.splits sum.splits option.splits dest!: run_query_InrD)

lemma test_cases_Inr:
  "test_case_get_by_problem_id i b d = (Inr ts, d1) \<Longrightarrow>
     later d d1 \<and> (\<exists>u. db_uuid_in d i = Some u \<and> ts = test_cases_of u b d)"
  by (auto simp: test_case_get_by_problem_id_def test_cases_of_def with_uuid_query later_uuid_in later_tables
      split: option.splits dest!: run_query_InrD)

lemma repo_queries_later:
  "later d (snd (submission_get_by_id i d))" "later d (snd (problem_get_by_id i d))"
  "later d (snd (test_case_get_by_problem_id i b d))" "later d (snd (problem_list_all d))"
proof -
  have "snd (submission_get_by_id i d) =
      snd (run_stmt (with_uuid i (\<lambda>u. query (\<lambda>d. Inr (find_row sb_ID u (db_submissions d))))) d)"
    by (auto simp: submission_get_by_id_def split: prod.splits sum.splits option.splits)
  then show "later d (snd (submission_get_by_id i d))" by (simp add: with_uuid_query run_query_later)
  have "snd (problem_get_by_id i d) =
      snd (run_stmt (with_uuid i (\<lambda>u. query (\<lambda>d. Inr (find_row pb_ID u (db_problems d))))) d)"
    by (auto simp: problem_get_by_id_def split: prod.splits sum.splits option.splits)
  then show "later d (snd (problem_get_by_id i d))" by (simp add: with_uuid_query run_query_later)
  show "later d (snd (test_case_get_by_problem_id i b d))" "later d (snd (problem_list_all d))"
    by (simp_all add: test_case_get_by_problem_id_def problem_list_all_def with_uuid_query run_query_later)
qed

text \<open>An update changes the submissions only, and among them the one with its id.\<close>

lemma update_submission_frame:
  "update_submission s d = Inr (n, d1) \<Longrightarrow>
     db_executions d1 = db_executions d \<and> db_problems d1 = db_problems d \<and> db_test_cases d1 = db_test_cases d \<and>
     (\<forall>i. find_row sb_ID i (db_submissions d1) =
        map_option (\<lambda>r. if db_uuid_in d (sb_ID s) = Some (sb_ID r) then submission_set s r else r)
          (find_row sb_ID i (db_submissions d)))"
  by (auto simp: update_submission_def find_row_update_where intro!: option.map_cong split: if_splits)

lemma submission_update_cases:
  obtains (unchanged) e d0 where "submission_update s d = (Some e, d0)" "later d d0"
  | (changed) r d0 d1 n where "submission_update s d = (r, d1)" "later d d0" "update_submission s d0 = Inr (n, d1)"
  by (rule run_stmt_cases [of "update_submission s" d])
    (auto simp: submission_update_def intro: unchanged changed)

lemma submission_update_frame:
  "db_executions (snd (submission_update s d)) = db_executions d \<and>
   db_problems (snd (submission_update s d)) = db_problems d \<and>
   db_test_cases (snd (submission_update s d)) = db_test_cases d \<and>
   (\<forall>i. db_uuid_in d (sb_ID s) \<noteq> Some i \<longrightarrow>
      find_row sb_ID i (db_submissions (snd (submission_update s d))) = find_row sb_ID i (db_submissions d))"
proof (rule submission_update_cases [of s d])
  fix e d0 assume "submission_update s d = (Some e, d0)" "later d d0"
  then show ?thesis by (simp add: later_tables)
next
  fix r d0 d1 n assume u: "submission_update s d = (r, d1)" "later d d0" "update_submission s d0 = Inr (n, d1)"
  from update_submission_frame [OF u(3)] later_tables [OF u(2)] later_uuid_in [OF u(2)] u(1) show ?thesis
    by (auto split: option.splits dest: find_row_SomeD simp: option.map_id0
        intro!: option.map_cong simp: map_option_case)
qed

end
