(* ===== verification/Judge_Engine.thy ===== *)
theory Judge_Engine imports Compare Exec_Service Repositories Msg_Queue begin

text \<open>
  \<^verbatim>\<open>internal/judge/engine.go\<close>: \<^verbatim>\<open>Engine.Judge\<close>, which runs a submission against the test cases of its
  problem and stores the verdict. Every \<^verbatim>\<open>defer\<close> is run by the function that opens what it closes: the
  outermost one finalises the submission. The analyzer, the clock and \<^verbatim>\<open>json.Marshal\<close> of a submission
  are components of the engine's record.
\<close>

section \<open>State\<close>

record ('q, 'h) world =
  wd_db :: database
  wd_queue :: 'q
  wd_host :: 'h

record complexity_analysis =
  ca_TimeComplexity :: string
  ca_SpaceComplexity :: string
  ca_Feedback :: string

record ('q, 'h) engine =
  en_redis :: "'q redis_client"
  en_queue :: redis_queue
  en_host :: "'h os_host"
  en_sandbox :: "'h sandbox_runtime"
  en_registry :: language_registry
  en_comparators :: comparator_registry
  en_analyzer :: "(string \<Rightarrow> string \<Rightarrow> 'h \<Rightarrow> (goerror + complexity_analysis) \<times> 'h) option"
  en_clock :: "'h \<Rightarrow> int"
  en_json :: "submission \<Rightarrow> string option"

text \<open>The engine \<^verbatim>\<open>main\<close> builds registers two comparators.\<close>

definition main_comparators :: comparator_registry where
  "main_comparators =
     register_comparator ComparisonModeWhitespace WhitespaceComparator
       (register_comparator ComparisonModeExact ExactComparator new_comparator_registry)"

section \<open>Steps\<close>

text \<open>Store the submission and publish it; both errors are dropped.\<close>

definition save_and_publish :: "('q, 'h) engine \<Rightarrow> submission \<Rightarrow> ('q, 'h) world \<Rightarrow> ('q, 'h) world" where
  "save_and_publish E sub w =
     (let w1 = w\<lparr>wd_db := snd (submission_update sub (wd_db w))\<rparr>
      in case en_json E sub of
           None \<Rightarrow> w1
         | Some payload \<Rightarrow> w1\<lparr>wd_queue := snd (publish_job_update (en_redis E) (sb_ID sub) payload (wd_queue w1))\<rparr>)"

definition finalize :: "('q, 'h) engine \<Rightarrow> submission \<Rightarrow> ('q, 'h) world \<Rightarrow> ('q, 'h) world" where
  "finalize E sub w =
     (let sub1 = sub\<lparr>sb_CompletedAt := Some (en_clock E (wd_host w))\<rparr>;
          sub2 = (if sb_Status sub1 = SubmissionStatusRunning then sub1\<lparr>sb_Status := SubmissionStatusCompleted\<rparr> else sub1)
      in save_and_publish E sub2 w)"

definition problem_comparator :: "comparator_registry \<Rightarrow> f64 problem \<Rightarrow> comparator" where
  "problem_comparator cs prob =
     (if pb_ComparisonMode prob = ComparisonModeFloat then create_float_comparator (pb_FloatEpsilon prob)
      else get_comparator cs (pb_ComparisonMode prob))"

definition problem_profile :: "f64 problem \<Rightarrow> profile \<Rightarrow> profile" where
  "problem_profile prob p =
     p\<lparr>pf_MemoryLimitBytes := of_int (pb_MemoryLimitMB prob) * 1024 * 1024,
       pf_Timeout := of_int (pb_TimeLimitMs prob) * millisecond\<rparr>"

text \<open>The verdict a run gives before its output is looked at.\<close>

definition run_verdict :: "exec_result \<Rightarrow> verdict option" where
  "run_verdict r =
     (if xr_Timeout r then Some VerdictTimeLimitExceeded
      else if xr_OutputLimit r then Some VerdictOutputLimitExceeded
      else if xr_ExitCode r \<noteq> 0 \<or> xr_Error r \<noteq> None then Some VerdictRuntimeError
      else None)"

text \<open>
  The loop over the test cases. The first component is what \<^verbatim>\<open>Judge\<close> returns from inside the loop, or
  \<open>None\<close> when the loop runs to its end.
\<close>

fun judge_tests ::
  "'h os_host \<Rightarrow> 'h sandbox_runtime \<Rightarrow> lang_executor \<Rightarrow> comparator \<Rightarrow> profile \<Rightarrow> string \<Rightarrow> execution_request \<Rightarrow>
   test_case list \<Rightarrow> submission \<Rightarrow> 'h \<Rightarrow> goerror option option \<times> submission \<times> 'h" where
  "judge_tests H R ex cmp p ws req [] sub h = (None, sub, h)"
| "judge_tests H R ex cmp p ws req (tc # tcs) sub h =
     (case rt_StartContainer R ws p h of
        (Inl err, h1) \<Rightarrow>
          (Some (Some (Wrapped ''failed to start run sandbox: '' err [])), sub\<lparr>sb_Verdict := VerdictInternalError\<rparr>, h1)
      | (Inr cid, h1) \<Rightarrow>
          (let (res, h2) = ex_Execute R ex (req\<lparr>rq_Input := tc_Input tc\<rparr>) cid h1;
               h3 = snd (rt_DestroyContainer R cid h2)
           in case res of
                Inl err \<Rightarrow>
                  (Some (Some (Wrapped ''runtime execution failed: '' err [])), sub\<lparr>sb_Verdict := VerdictInternalError\<rparr>, h3)
              | Inr runRes \<Rightarrow>
                  (case run_verdict runRes of
                     Some v \<Rightarrow> (Some None, sub\<lparr>sb_Verdict := v\<rparr>, h3)
                   | None \<Rightarrow>
                       (if \<not> compare_output cmp (tc_ExpectedOutput tc) (xr_Stdout runRes)
                        then (Some None, sub\<lparr>sb_Verdict := VerdictWrongAnswer\<rparr>, h3)
                        else judge_tests H R ex cmp p ws req tcs
                               (sub\<lparr>sb_PassedTestCases := sb_PassedTestCases sub + 1\<rparr>) h3))))"

text \<open>After the loop: the maxima stay zero, the verdict is accepted, the analysis is added where there is one.\<close>

definition accept :: "('q, 'h) engine \<Rightarrow> submission \<Rightarrow> 'h \<Rightarrow> submission \<times> 'h" where
  "accept E sub h =
     (let sub1 = sub\<lparr>sb_ExecutionTimeMs := 0, sb_MemoryUsedBytes := 0, sb_Verdict := VerdictAccepted\<rparr>
      in case en_analyzer E of
           None \<Rightarrow> (sub1, h)
         | Some analyze \<Rightarrow>
             (case analyze (sb_SourceCode sub1) (sb_Language sub1) h of
                (Inl err, h1) \<Rightarrow> (sub1, h1)
              | (Inr a, h1) \<Rightarrow>
                  (sub1\<lparr>sb_AITimeComplexity := ca_TimeComplexity a, sb_AISpaceComplexity := ca_SpaceComplexity a,
                        sb_AIFeedback := ca_Feedback a\<rparr>, h1)))"

text \<open>Whether the compile step ends the judging: \<^verbatim>\<open>compRes.Error != nil || compRes.ExitCode != 0\<close>.\<close>

definition compile_failed :: "exec_result \<Rightarrow> bool" where
  "compile_failed r \<longleftrightarrow> xr_Error r \<noteq> None \<or> xr_ExitCode r \<noteq> 0"

definition judge_compiled ::
  "('q, 'h) engine \<Rightarrow> lang_executor \<Rightarrow> f64 problem \<Rightarrow> test_case list \<Rightarrow> execution_request \<Rightarrow> string \<Rightarrow> string \<Rightarrow>
   submission \<Rightarrow> 'h \<Rightarrow> goerror option \<times> submission \<times> 'h" where
  "judge_compiled E ex prob tcs req ws cid sub h =
     (case ex_Compile (en_host E) (en_sandbox E) ex req ws cid h of
        (Inl err, h1) \<Rightarrow>
          (Some (Wrapped ''compilation execution failed: '' err []), sub\<lparr>sb_Verdict := VerdictInternalError\<rparr>, h1)
      | (Inr compRes, h1) \<Rightarrow>
          (if (case compRes of None \<Rightarrow> False | Some r \<Rightarrow> compile_failed r)
           then (None, sub\<lparr>sb_Verdict := VerdictCompilationError\<rparr>, h1)
           else (case judge_tests (en_host E) (en_sandbox E) ex (problem_comparator (en_comparators E) prob)
                        (problem_profile prob (ex_Profile ex)) ws req tcs sub h1 of
                   (Some ret, sub1, h2) \<Rightarrow> (ret, sub1, h2)
                 | (None, sub1, h2) \<Rightarrow> (let (sub2, h3) = accept E sub1 h2 in (None, sub2, h3)))))"

definition judge_in_workspace ::
  "('q, 'h) engine \<Rightarrow> lang_executor \<Rightarrow> f64 problem \<Rightarrow> test_case list \<Rightarrow> execution_request \<Rightarrow> string \<Rightarrow>
   submission \<Rightarrow> 'h \<Rightarrow> goerror option \<times> submission \<times> 'h" where
  "judge_in_workspace E ex prob tcs req ws sub h =
     (case rt_StartContainer (en_sandbox E) ws (ex_Profile ex) (oh_chmod (en_host E) ws 511 h) of
        (Inl err, h1) \<Rightarrow>
          (Some (Wrapped ''failed to start compile sandbox: '' err []), sub\<lparr>sb_Verdict := VerdictInternalError\<rparr>, h1)
      | (Inr cid, h1) \<Rightarrow>
          (let (ret, sub1, h2) = judge_compiled E ex prob tcs req ws cid sub h1
           in (ret, sub1, snd (rt_DestroyContainer (en_sandbox E) cid h2))))"

text \<open>From the fetched problem and test cases to the end of the workspace.\<close>

definition judge_problem ::
  "('q, 'h) engine \<Rightarrow> f64 problem \<Rightarrow> test_case list \<Rightarrow> submission \<Rightarrow> 'h \<Rightarrow> goerror option \<times> submission \<times> 'h" where
  "judge_problem E prob tcs sub0 h =
     (let sub = sub0\<lparr>sb_TotalTestCases := int (length tcs)\<rparr>
      in case get_executor (en_registry E) (sb_Language sub) of
           Inl err \<Rightarrow> (Some (Wrapped ''unsupported language: '' err []), sub\<lparr>sb_Verdict := VerdictInternalError\<rparr>, h)
         | Inr ex \<Rightarrow>
             (let req = \<lparr>rq_Language = sb_Language sub, rq_SourceCode = sb_SourceCode sub, rq_Input = []\<rparr>
              in case ex_Validate ex req of
                   Some err \<Rightarrow> (None, sub\<lparr>sb_Verdict := VerdictCompilationError\<rparr>, h)
                 | None \<Rightarrow>
                     (case oh_mkdir_temp (en_host E) ''submission-workspace-*'' h of
                        (Inl err, h1) \<Rightarrow>
                          (Some (Wrapped ''failed to create workspace: '' err []), sub\<lparr>sb_Verdict := VerdictInternalError\<rparr>, h1)
                      | (Inr ws, h1) \<Rightarrow>
                          (let (ret, sub1, h2) = judge_in_workspace E ex prob tcs req ws sub h1
                           in (ret, sub1, oh_remove_all (en_host E) ws h2)))))"

definition judge_fetched ::
  "('q, 'h) engine \<Rightarrow> submission \<Rightarrow> ('q, 'h) world \<Rightarrow> goerror option \<times> submission \<times> ('q, 'h) world" where
  "judge_fetched E sub w =
     (case problem_get_by_id (sb_ProblemID sub) (wd_db w) of
        (Inl err, d1) \<Rightarrow>
          (Some (Wrapped ''failed to get problem: '' err []), sub\<lparr>sb_Verdict := VerdictInternalError\<rparr>, w\<lparr>wd_db := d1\<rparr>)
      | (Inr prob, d1) \<Rightarrow>
          (case test_case_get_by_problem_id (pb_ID prob) True d1 of
             (Inl err, d2) \<Rightarrow>
               (Some (Wrapped ''failed to get test cases: '' err []), sub\<lparr>sb_Verdict := VerdictInternalError\<rparr>, w\<lparr>wd_db := d2\<rparr>)
           | (Inr tcs, d2) \<Rightarrow>
               (let (ret, sub1, h1) = judge_problem E prob tcs sub (wd_host w)
                in (ret, sub1, w\<lparr>wd_db := d2, wd_host := h1\<rparr>))))"

definition judge :: "('q, 'h) engine \<Rightarrow> string \<Rightarrow> ('q, 'h) world \<Rightarrow> goerror option \<times> ('q, 'h) world" where
  "judge E submissionID w =
     (case submission_get_by_id submissionID (wd_db w) of
        (Inl err, d1) \<Rightarrow> (Some (Wrapped ''failed to get submission: '' err []), w\<lparr>wd_db := d1\<rparr>)
      | (Inr sub0, d1) \<Rightarrow>
          (let sub = sub0\<lparr>sb_Status := SubmissionStatusRunning\<rparr>;
               w1 = save_and_publish E sub (w\<lparr>wd_db := d1\<rparr>);
               (ret, sub1, w2) = judge_fetched E sub w1
           in (ret, finalize E sub1 w2)))"

section \<open>The loop over the test cases\<close>

text \<open>One test: the run of an input in some fresh container.\<close>

definition runs_test :: "'h sandbox_runtime \<Rightarrow> lang_executor \<Rightarrow> execution_request \<Rightarrow> test_case \<Rightarrow> exec_result \<Rightarrow> bool" where
  "runs_test R ex req tc run \<longleftrightarrow>
     (\<exists>cid h h1. rt_Exec R cid (ex_run_options ex (req\<lparr>rq_Input := tc_Input tc\<rparr>)) h = (run, h1))"

definition test_passes :: "'h sandbox_runtime \<Rightarrow> lang_executor \<Rightarrow> execution_request \<Rightarrow> comparator \<Rightarrow> test_case \<Rightarrow> bool" where
  "test_passes R ex req cmp tc \<longleftrightarrow>
     (\<exists>run. runs_test R ex req tc run \<and> run_verdict run = None \<and>
        compare_output cmp (tc_ExpectedOutput tc) (xr_Stdout run))"

text \<open>The verdict of the test that ends the loop.\<close>

definition test_fails ::
  "'h sandbox_runtime \<Rightarrow> lang_executor \<Rightarrow> execution_request \<Rightarrow> comparator \<Rightarrow> test_case \<Rightarrow> verdict \<Rightarrow> bool" where
  "test_fails R ex req cmp tc v \<longleftrightarrow>
     (\<exists>run. runs_test R ex req tc run \<and>
        (run_verdict run = Some v \<or>
         run_verdict run = None \<and> v = VerdictWrongAnswer \<and>
           \<not> compare_output cmp (tc_ExpectedOutput tc) (xr_Stdout run)))"

lemma judge_tests_step:
  "judge_tests H R ex cmp p ws req (tc # tcs) sub h = (ret, sub1, h1) \<Longrightarrow>
     (\<exists>e. ret = Some (Some e) \<and> sub1 = sub\<lparr>sb_Verdict := VerdictInternalError\<rparr>) \<or>
     (\<exists>v. ret = Some None \<and> sub1 = sub\<lparr>sb_Verdict := v\<rparr> \<and> test_fails R ex req cmp tc v) \<or>
     test_passes R ex req cmp tc \<and>
       (\<exists>h2. judge_tests H R ex cmp p ws req tcs (sub\<lparr>sb_PassedTestCases := sb_PassedTestCases sub + 1\<rparr>) h2 = (ret, sub1, h1))"
proof (cases "rt_StartContainer R ws p h")
  case (Pair r h2)
  assume j: "judge_tests H R ex cmp p ws req (tc # tcs) sub h = (ret, sub1, h1)"
  show ?thesis
  proof (cases r)
    case (Inl e)
    with j Pair show ?thesis by auto
  next
    case (Inr cid)
    obtain run h3 where e: "rt_Exec R cid (ex_run_options ex (req\<lparr>rq_Input := tc_Input tc\<rparr>)) h2 = (run, h3)" by fastforce
    then have runs: "runs_test R ex req tc run" by (auto simp: runs_test_def)
    show ?thesis
    proof (cases "run_verdict run")
      case (Some v)
      with j Pair Inr e have "ret = Some None" "sub1 = sub\<lparr>sb_Verdict := v\<rparr>" by (auto simp: ex_Execute_def)
      with runs Some show ?thesis by (auto simp: test_fails_def)
    next
      case None
      show ?thesis
      proof (cases "compare_output cmp (tc_ExpectedOutput tc) (xr_Stdout run)")
        case True
        with j Pair Inr e None runs show ?thesis by (auto simp: ex_Execute_def test_passes_def)
      next
        case False
        with j Pair Inr e None have "ret = Some None" "sub1 = sub\<lparr>sb_Verdict := VerdictWrongAnswer\<rparr>"
          by (auto simp: ex_Execute_def)
        with runs None False show ?thesis by (auto simp: test_fails_def)
      qed
    qed
  qed
qed

text \<open>
  What the loop has done when it ends, normally or early: \<open>k\<close> tests have passed, and the verdict is that
  of test \<open>k\<close>, or an internal error, or the loop has come to its end.
\<close>

definition passed_more :: "nat \<Rightarrow> submission \<Rightarrow> submission" where
  "passed_more k sub = sub\<lparr>sb_PassedTestCases := sb_PassedTestCases sub + int k\<rparr>"

fun loop_end ::
  "'h sandbox_runtime \<Rightarrow> lang_executor \<Rightarrow> execution_request \<Rightarrow> comparator \<Rightarrow> test_case list \<Rightarrow>
   goerror option option \<Rightarrow> submission \<Rightarrow> submission \<Rightarrow> nat \<Rightarrow> bool" where
  "loop_end R ex req cmp tcs None sub sub1 k \<longleftrightarrow> k = length tcs \<and> sub1 = passed_more k sub"
| "loop_end R ex req cmp tcs (Some None) sub sub1 k \<longleftrightarrow>
     k < length tcs \<and> (\<exists>v. test_fails R ex req cmp (tcs ! k) v \<and> sub1 = passed_more k sub\<lparr>sb_Verdict := v\<rparr>)"
| "loop_end R ex req cmp tcs (Some (Some e)) sub sub1 k \<longleftrightarrow>
     k < length tcs \<and> sub1 = passed_more k sub\<lparr>sb_Verdict := VerdictInternalError\<rparr>"

lemma passed_more_simps [simp]:
  "passed_more 0 sub = sub" "passed_more k (passed_more n sub) = passed_more (n + k) sub"
  by (simp_all add: passed_more_def add.assoc)

lemma loop_end_shift:
  "loop_end R ex req cmp tcs ret (passed_more 1 sub) sub1 k \<Longrightarrow> loop_end R ex req cmp (tc # tcs) ret sub sub1 (Suc k)"
  by (cases "(R, ex, req, cmp, tcs, ret, passed_more 1 sub, sub1, k)" rule: loop_end.cases) auto

lemma judge_tests_result:
  assumes "judge_tests H R ex cmp p ws req tcs sub h = (ret, sub1, h1)"
  shows "\<exists>k. k \<le> length tcs \<and> (\<forall>i < k. test_passes R ex req cmp (tcs ! i)) \<and>
    loop_end R ex req cmp tcs ret sub sub1 k"
  using assms
proof (induction tcs arbitrary: sub h)
  case Nil
  then show ?case by auto
next
  case (Cons tc tcs)
  from judge_tests_step [OF Cons.prems] show ?case
  proof (elim disjE exE conjE)
    fix e assume "ret = Some (Some e)" "sub1 = sub\<lparr>sb_Verdict := VerdictInternalError\<rparr>"
    then show ?thesis by (intro exI [of _ 0]) simp
  next
    fix v assume "ret = Some None" "sub1 = sub\<lparr>sb_Verdict := v\<rparr>" "test_fails R ex req cmp tc v"
    then show ?thesis by (intro exI [of _ 0]) auto
  next
    fix h2 assume pass: "test_passes R ex req cmp tc"
      and rest: "judge_tests H R ex cmp p ws req tcs (sub\<lparr>sb_PassedTestCases := sb_PassedTestCases sub + 1\<rparr>) h2 = (ret, sub1, h1)"
    have one: "sub\<lparr>sb_PassedTestCases := sb_PassedTestCases sub + 1\<rparr> = passed_more 1 sub" by (simp add: passed_more_def)
    from Cons.IH [OF rest] obtain k where k: "k \<le> length tcs" "\<forall>i < k. test_passes R ex req cmp (tcs ! i)"
      "loop_end R ex req cmp tcs ret (passed_more 1 sub) sub1 k" unfolding one by blast
    have "\<forall>i < Suc k. test_passes R ex req cmp ((tc # tcs) ! i)"
      using pass k(2) by (auto simp: less_Suc_eq_0_disj)
    with loop_end_shift [OF k(3), of tc] k(1) show ?thesis by (intro exI [of _ "Suc k"]) simp
  qed
qed

section \<open>What judging leaves unchanged\<close>

text \<open>The identity of a submission: all it was created with.\<close>

definition same_submission :: "submission \<Rightarrow> submission \<Rightarrow> bool" where
  "same_submission s t \<longleftrightarrow>
     sb_ID t = sb_ID s \<and> sb_UserID t = sb_UserID s \<and> sb_ProblemID t = sb_ProblemID s \<and>
     sb_Language t = sb_Language s \<and> sb_SourceCode t = sb_SourceCode s \<and> sb_Status t = sb_Status s \<and>
     sb_CreatedAt t = sb_CreatedAt s \<and> sb_StartedAt t = sb_StartedAt s"

definition judged_verdicts :: "verdict set" where
  "judged_verdicts = {VerdictAccepted, VerdictWrongAnswer, VerdictTimeLimitExceeded, VerdictOutputLimitExceeded,
     VerdictRuntimeError, VerdictCompilationError, VerdictInternalError}"

lemma test_fails_verdict: "test_fails R ex req cmp tc v \<Longrightarrow>
    v \<in> {VerdictTimeLimitExceeded, VerdictOutputLimitExceeded, VerdictRuntimeError, VerdictWrongAnswer}"
  by (auto simp: test_fails_def run_verdict_def split: if_splits)

lemma accept_sub:
  "accept E sub h = (sub1, h1) \<Longrightarrow>
     same_submission sub sub1 \<and> sb_Verdict sub1 = VerdictAccepted \<and> sb_PassedTestCases sub1 = sb_PassedTestCases sub \<and>
     sb_TotalTestCases sub1 = sb_TotalTestCases sub"
  by (auto simp: accept_def Let_def same_submission_def split: option.splits prod.splits sum.splits)

text \<open>
  What the judged part of a submission says: its verdict, and how many tests passed before it; an accepted
  one passed all of them.
\<close>

definition judged_as ::
  "'h sandbox_runtime \<Rightarrow> lang_executor \<Rightarrow> execution_request \<Rightarrow> comparator \<Rightarrow> test_case list \<Rightarrow>
   submission \<Rightarrow> submission \<Rightarrow> bool" where
  "judged_as R ex req cmp tcs sub sub1 \<longleftrightarrow>
     (\<exists>k \<le> length tcs. sb_PassedTestCases sub1 = sb_PassedTestCases sub + int k \<and>
        (\<forall>i < k. test_passes R ex req cmp (tcs ! i)) \<and>
        (case sb_Verdict sub1 of
           VerdictAccepted \<Rightarrow> k = length tcs
         | VerdictCompilationError \<Rightarrow> k = 0
         | VerdictInternalError \<Rightarrow> True
         | v \<Rightarrow> k < length tcs \<and> test_fails R ex req cmp (tcs ! k) v))"

lemma passed_more_sel [simp]:
  "sb_PassedTestCases (passed_more k sub) = sb_PassedTestCases sub + int k"
  "sb_Verdict (passed_more k sub) = sb_Verdict sub" "sb_TotalTestCases (passed_more k sub) = sb_TotalTestCases sub"
  "same_submission sub (passed_more k sub)" "same_submission sub (passed_more k sub\<lparr>sb_Verdict := v\<rparr>)"
  by (simp_all add: passed_more_def same_submission_def)

text \<open>Each end of the loop, as a judged submission.\<close>

lemma judged_failing:
  assumes "k < length tcs" and "\<forall>i < k. test_passes R ex req cmp (tcs ! i)"
    and "test_fails R ex req cmp (tcs ! k) v \<or> v = VerdictInternalError"
    and "sub1 = passed_more k sub\<lparr>sb_Verdict := v\<rparr>"
  shows "judged_as R ex req cmp tcs sub sub1 \<and> v \<in> judged_verdicts"
  using assms(3) test_fails_verdict [of R ex req cmp "tcs ! k" v] assms(1,2)
  unfolding judged_as_def assms(4)
  by (intro conjI exI [of _ k]) (auto simp: judged_verdicts_def)

lemma judge_compiled_result:
  assumes "judge_compiled E ex prob tcs req ws cid sub h = (ret, sub1, h1)"
  shows "same_submission sub sub1 \<and> sb_TotalTestCases sub1 = sb_TotalTestCases sub \<and>
    sb_Verdict sub1 \<in> judged_verdicts \<and> (ret = None \<or> sb_Verdict sub1 = VerdictInternalError) \<and>
    judged_as (en_sandbox E) ex req (problem_comparator (en_comparators E) prob) tcs sub sub1"
proof -
  obtain c h2 where comp: "ex_Compile (en_host E) (en_sandbox E) ex req ws cid h = (c, h2)" by fastforce
  let ?cmp = "problem_comparator (en_comparators E) prob"
  show ?thesis
  proof (cases "\<exists>r. c = Inr r \<and> \<not> (case r of None \<Rightarrow> False | Some r \<Rightarrow> compile_failed r)")
    case False
    with assms comp show ?thesis
      by (cases c) (auto simp: judge_compiled_def same_submission_def judged_verdicts_def judged_as_def intro!: exI [of _ 0])
  next
    case True
    obtain t sub2 h3 where tests: "judge_tests (en_host E) (en_sandbox E) ex ?cmp
        (problem_profile prob (ex_Profile ex)) ws req tcs sub h2 = (t, sub2, h3)" by (metis prod.collapse)
    from judge_tests_result [OF tests] obtain k where k: "k \<le> length tcs"
      "\<forall>i < k. test_passes (en_sandbox E) ex req ?cmp (tcs ! i)" "loop_end (en_sandbox E) ex req ?cmp tcs t sub sub2 k"
      by blast
    show ?thesis
    proof (cases t)
      case None
      obtain sub3 h4 where a: "accept E sub2 h3 = (sub3, h4)" by fastforce
      have "(ret, sub1, h1) = (None, sub3, h4)" using assms comp True tests None a by (auto simp: judge_compiled_def)
      with accept_sub [OF a] k None show ?thesis
        by (auto simp: same_submission_def judged_verdicts_def judged_as_def passed_more_def)
    next
      case (Some r)
      then have r: "(ret, sub1, h1) = (r, sub2, h3)" using assms comp True tests by (auto simp: judge_compiled_def)
      obtain v where v: "k < length tcs" "test_fails (en_sandbox E) ex req ?cmp (tcs ! k) v \<or> v = VerdictInternalError"
        "sub2 = passed_more k sub\<lparr>sb_Verdict := v\<rparr>" "r = None \<or> v = VerdictInternalError"
        using k(3) Some by (cases r) auto
      from judged_failing [OF v(1) k(2) v(2,3)] v r show ?thesis by auto
    qed
  qed
qed

section \<open>The whole of judging\<close>

definition request_of :: "submission \<Rightarrow> execution_request" where
  "request_of sub = \<lparr>rq_Language = sb_Language sub, rq_SourceCode = sb_SourceCode sub, rq_Input = []\<rparr>"

lemma judge_in_workspace_sub:
  "judge_in_workspace E ex prob tcs req ws sub h = (ret, sub1, h1) \<Longrightarrow>
     (\<exists>e. ret = Some e) \<and> sub1 = sub\<lparr>sb_Verdict := VerdictInternalError\<rparr> \<or>
     (\<exists>cid h2 h3. judge_compiled E ex prob tcs req ws cid sub h2 = (ret, sub1, h3))"
  by (fastforce simp: judge_in_workspace_def Let_def split: prod.splits sum.splits)

text \<open>
  The outcome of judging a submission against test cases: a verdict of the judge's; either the tests were
  not reached, or it is the verdict of the tests under the problem's comparator.
\<close>

definition judge_outcome ::
  "('q, 'h) engine \<Rightarrow> f64 problem \<Rightarrow> test_case list \<Rightarrow> submission \<Rightarrow> submission \<Rightarrow> bool" where
  "judge_outcome E prob tcs sub sub1 \<longleftrightarrow>
     sb_Verdict sub1 \<in> {VerdictCompilationError, VerdictInternalError} \<and> sb_PassedTestCases sub1 = sb_PassedTestCases sub \<or>
     (\<exists>ex. get_executor (en_registry E) (sb_Language sub) = Inr ex \<and> ex_Validate ex (request_of sub) = None \<and>
        judged_as (en_sandbox E) ex (request_of sub) (problem_comparator (en_comparators E) prob) tcs sub sub1)"

lemma judged_as_total [simp]:
  "judged_as R ex req cmp tcs (sub\<lparr>sb_TotalTestCases := n\<rparr>) sub1 = judged_as R ex req cmp tcs sub sub1"
  by (simp add: judged_as_def)

lemma same_submission_total [simp]: "same_submission (sub\<lparr>sb_TotalTestCases := n\<rparr>) t = same_submission sub t"
  by (simp add: same_submission_def)

lemma judge_problem_result:
  assumes "judge_problem E prob tcs sub h = (ret, sub1, h1)"
  shows "same_submission sub sub1 \<and> sb_TotalTestCases sub1 = int (length tcs) \<and> sb_Verdict sub1 \<in> judged_verdicts \<and>
    (ret = None \<or> sb_Verdict sub1 = VerdictInternalError) \<and> judge_outcome E prob tcs sub sub1"
proof -
  let ?sub = "sub\<lparr>sb_TotalTestCases := int (length tcs)\<rparr>"
  have stop: ?thesis if "sub1 = ?sub\<lparr>sb_Verdict := v\<rparr>" "v = VerdictInternalError \<or> ret = None \<and> v = VerdictCompilationError" for v
    using that by (auto simp: same_submission_def judged_verdicts_def judge_outcome_def)
  show ?thesis
  proof (cases "get_executor (en_registry E) (sb_Language sub)")
    case (Inl e)
    with assms show ?thesis by (intro stop [of VerdictInternalError]) (auto simp: judge_problem_def Let_def)
  next
    case (Inr ex)
    note ex = Inr
    show ?thesis
    proof (cases "ex_Validate ex (request_of sub)")
      case (Some e)
      with assms ex show ?thesis
        by (intro stop [of VerdictCompilationError]) (auto simp: judge_problem_def Let_def request_of_def)
    next
      case None
      obtain d h2 where mk: "oh_mkdir_temp (en_host E) ''submission-workspace-*'' h = (d, h2)" by fastforce
      show ?thesis
      proof (cases d)
        case (Inl e)
        with assms ex None mk show ?thesis
          by (intro stop [of VerdictInternalError]) (auto simp: judge_problem_def Let_def request_of_def)
      next
        case (Inr ws)
        obtain r s2 h3 where ws: "judge_in_workspace E ex prob tcs (request_of sub) ws ?sub h2 = (r, s2, h3)"
          by (metis prod.collapse)
        with assms ex None mk Inr have eq: "ret = r" "sub1 = s2" by (auto simp: judge_problem_def Let_def request_of_def)
        from judge_in_workspace_sub [OF ws] show ?thesis
        proof (elim disjE exE conjE)
          assume "s2 = ?sub\<lparr>sb_Verdict := VerdictInternalError\<rparr>"
          with eq show ?thesis by (intro stop [of VerdictInternalError]) simp_all
        next
          fix cid h4 h5 assume "judge_compiled E ex prob tcs (request_of sub) ws cid ?sub h4 = (r, s2, h5)"
          from judge_compiled_result [OF this] eq ex None show ?thesis by (auto simp: judge_outcome_def)
        qed
      qed
    qed
  qed
qed

section \<open>Resources\<close>

text \<open>The analyzer is a remote service: it leaves the containers and directories of the host alone.\<close>

definition analyzer_keeps :: "('h \<Rightarrow> 'a) \<Rightarrow> ('q, 'h) engine \<Rightarrow> bool" where
  "analyzer_keeps f E \<longleftrightarrow>
     (case en_analyzer E of None \<Rightarrow> True | Some a \<Rightarrow> (\<forall>src lang h. f (snd (a src lang h)) = f h))"

lemma accept_keeps: "analyzer_keeps f E \<Longrightarrow> accept E s h = (s1, h1) \<Longrightarrow> f h1 = f h"
proof (cases "en_analyzer E")
  case (Some a)
  assume k: "analyzer_keeps f E" and acc: "accept E s h = (s1, h1)"
  obtain r h2 where r: "a (sb_SourceCode s) (sb_Language s) h = (r, h2)" by fastforce
  have "h1 = h2" using acc Some r by (auto simp: accept_def Let_def split: sum.splits)
  moreover have "f (snd (a (sb_SourceCode s) (sb_Language s) h)) = f h" using k Some by (simp add: analyzer_keeps_def)
  ultimately show ?thesis using r by simp
qed (auto simp: accept_def Let_def)

context resource_host
begin

lemma judge_tests_frame:
  "judge_tests H R ex cmp p ws req tcs sub h = (ret, sub1, h1) \<Longrightarrow> live h1 = live h \<and> dirs h1 = dirs h"
proof (induction tcs arbitrary: sub h)
  case (Cons tc tcs)
  obtain r h2 where st: "rt_StartContainer R ws p h = (r, h2)" by fastforce
  show ?case
  proof (cases r)
    case (Inl e)
    with Cons.prems st show ?thesis by (auto dest: start_err)
  next
    case (Inr cid)
    obtain res h3 where e: "ex_Execute R ex (req\<lparr>rq_Input := tc_Input tc\<rparr>) cid h2 = (res, h3)" by fastforce
    let ?h = "snd (rt_DestroyContainer R cid h3)"
    have f: "live ?h = live h" "dirs ?h = dirs h"
      using start_destroy [of ws p h cid h2 h3] st Inr ex_Execute_eq [OF e] by simp_all
    from Cons.prems st Inr e have "h1 = ?h \<or>
        (\<exists>s. judge_tests H R ex cmp p ws req tcs s ?h = (ret, sub1, h1))"
      by (auto simp: Let_def split: sum.splits option.splits if_splits)
    with Cons.IH f show ?thesis by metis
  qed
qed simp

lemma judge_compiled_frame:
  assumes "en_host E = H" "en_sandbox E = R"
    and "analyzer_keeps live E" "analyzer_keeps dirs E"
    and "judge_compiled E ex prob tcs req ws cid sub h = (ret, sub1, h1)"
  shows "live h1 = live h \<and> dirs h1 = dirs h"
proof -
  obtain c h2 where comp: "ex_Compile H R ex req ws cid h = (c, h2)" by fastforce
  obtain t s2 h3 where tests: "judge_tests H R ex (problem_comparator (en_comparators E) prob)
      (problem_profile prob (ex_Profile ex)) ws req tcs sub h2 = (t, s2, h3)" by (metis prod.collapse)
  obtain s3 h4 where a: "accept E s2 h3 = (s3, h4)" by fastforce
  have "h1 = h2 \<or> h1 = h3 \<or> h1 = h4"
    using assms(5) comp tests a unfolding judge_compiled_def assms(1,2)
    by (auto split: sum.splits option.splits if_splits)
  with ex_Compile_eq [OF comp] judge_tests_frame [OF tests] accept_keeps [OF assms(3) a] accept_keeps [OF assms(4) a]
  show ?thesis by auto
qed

lemma judge_problem_frame:
  assumes "en_host E = H" "en_sandbox E = R"
    and "analyzer_keeps live E" "analyzer_keeps dirs E"
    and "judge_problem E prob tcs sub h = (ret, sub1, h1)"
  shows "live h1 = live h \<and> dirs h1 = dirs h"
proof -
  have ws: "live h2 = live h \<and> dirs h2 = dirs h"
    if "judge_in_workspace E ex prob tcs req ws s h = (r, s1, h2)" for ex req ws s h r s1 h2
  proof -
    obtain c h3 where st: "rt_StartContainer R ws (ex_Profile ex) (oh_chmod H ws 511 h) = (c, h3)" by fastforce
    show ?thesis
    proof (cases c)
      case (Inl e)
      with that st show ?thesis by (auto simp: judge_in_workspace_def assms(1,2) dest: start_err)
    next
      case (Inr cid)
      obtain r2 s2 h4 where j: "judge_compiled E ex prob tcs req ws cid s h3 = (r2, s2, h4)" by (metis prod.collapse)
      with that st Inr have "h2 = snd (rt_DestroyContainer R cid h4)" by (auto simp: judge_in_workspace_def assms(1,2))
      with start_destroy [of ws "ex_Profile ex" "oh_chmod H ws 511 h" cid h3 h4] st Inr
        judge_compiled_frame [OF assms(1-4) j] show ?thesis by simp
    qed
  qed
  have "h1 = h \<or> (\<exists>d h2. oh_mkdir_temp H ''submission-workspace-*'' h = (d, h2) \<and>
      ((\<exists>e. d = Inl e \<and> h1 = h2) \<or>
       (\<exists>w ex req s r s1 h3. d = Inr w \<and> judge_in_workspace E ex prob tcs req w s h2 = (r, s1, h3) \<and> h1 = oh_remove_all H w h3)))"
    using assms(5) unfolding judge_problem_def assms(1)
    by (fastforce simp: Let_def split: sum.splits option.splits prod.splits)
  then show ?thesis
  proof (elim disjE exE conjE)
    fix d h2 w ex req s r s1 h3
    assume "oh_mkdir_temp H ''submission-workspace-*'' h = (d, h2)" "d = Inr w"
      "judge_in_workspace E ex prob tcs req w s h2 = (r, s1, h3)" "h1 = oh_remove_all H w h3"
    with mkdir_remove [of _ h w h2 h3] ws show ?thesis by simp
  qed (auto dest: mkdir_err)
qed

end

section \<open>Storing the verdict\<close>

text \<open>What a save leaves of everything but the submission itself.\<close>

lemma save_and_publish_host [simp]: "wd_host (save_and_publish E sub w) = wd_host w"
  by (simp add: save_and_publish_def Let_def split: option.splits)

lemma save_and_publish_db [simp]:
  "wd_db (save_and_publish E sub w) = snd (submission_update sub (wd_db w))"
  by (simp add: save_and_publish_def Let_def split: option.splits)

lemma finalize_host [simp]: "wd_host (finalize E sub w) = wd_host w"
  by (simp add: finalize_def Let_def)

text \<open>On a database without failures to come, an update of a storable submission is applied.\<close>

lemma submission_update_applied:
  assumes "db_script d = []" and "submission_storable s" and "find_row sb_ID (sb_ID s) (db_submissions d) = Some r"
    and "db_uuid_in d (sb_ID s) = Some (sb_ID s)"
  shows "find_row sb_ID (sb_ID s) (db_submissions (snd (submission_update s d))) = Some (submission_set s r) \<and>
    db_script (snd (submission_update s d)) = [] \<and> db_problems (snd (submission_update s d)) = db_problems d \<and>
    db_test_cases (snd (submission_update s d)) = db_test_cases d \<and> db_uuid_in (snd (submission_update s d)) = db_uuid_in d"
  using assms find_row_SomeD [OF assms(3)]
  by (simp add: submission_update_def run_stmt_def apply_stmt_def update_submission_def with_uuid_def find_row_update_where)

lemma queries_script:
  assumes "db_script d = []"
  shows "run_stmt (query f) d = (f d, d)"
  using assms by (simp add: run_stmt_def apply_stmt_def query_def split: sum.splits)

lemma judge_fetched_sub:
  assumes "judge_fetched E sub w = (ret, sub1, w1)"
  shows "same_submission sub sub1 \<and> sb_Verdict sub1 \<in> judged_verdicts \<and>
    (ret = None \<or> sb_Verdict sub1 = VerdictInternalError) \<and> later (wd_db w) (wd_db w1) \<and>
    (sb_TotalTestCases sub1 = sb_TotalTestCases sub \<and> sb_PassedTestCases sub1 = sb_PassedTestCases sub \<and>
       sb_Verdict sub1 = VerdictInternalError \<and> wd_host w1 = wd_host w \<or>
     (\<exists>prob tcs i u. db_uuid_in (wd_db w) (sb_ProblemID sub) = Some i \<and> find_row pb_ID i (db_problems (wd_db w)) = Some prob \<and>
        db_uuid_in (wd_db w) (pb_ID prob) = Some u \<and> tcs = test_cases_of u True (wd_db w) \<and>
        judge_problem E prob tcs sub (wd_host w) = (ret, sub1, wd_host w1)))"
proof -
  obtain r d1 where p: "problem_get_by_id (sb_ProblemID sub) (wd_db w) = (r, d1)" by fastforce
  have l1: "later (wd_db w) d1" using repo_queries_later(2) [of "wd_db w" "sb_ProblemID sub"] p by simp
  show ?thesis
  proof (cases r)
    case (Inl e)
    with assms p l1 show ?thesis by (auto simp: judge_fetched_def same_submission_def judged_verdicts_def)
  next
    case (Inr prob)
    obtain r2 d2 where t: "test_case_get_by_problem_id (pb_ID prob) True d1 = (r2, d2)" by fastforce
    have l2: "later (wd_db w) d2"
      using later_trans [OF l1] repo_queries_later(3) [of d1 "pb_ID prob" True] t by simp
    show ?thesis
    proof (cases r2)
      case (Inl e)
      with assms p t Inr l2 show ?thesis by (auto simp: judge_fetched_def same_submission_def judged_verdicts_def)
    next
      case (Inr tcs)
      obtain q s1 h1 where j: "judge_problem E prob tcs sub (wd_host w) = (q, s1, h1)" by (metis prod.collapse)
      with assms p t \<open>r = Inr prob\<close> Inr have e: "ret = q" "sub1 = s1" "w1 = w\<lparr>wd_db := d2, wd_host := h1\<rparr>"
        by (auto simp: judge_fetched_def)
      have "\<exists>i. db_uuid_in (wd_db w) (sb_ProblemID sub) = Some i \<and> find_row pb_ID i (db_problems (wd_db w)) = Some prob"
        using problem_get_Inr p \<open>r = Inr prob\<close> by blast
      moreover have "\<exists>u. db_uuid_in (wd_db w) (pb_ID prob) = Some u \<and> tcs = test_cases_of u True (wd_db w)"
        using test_cases_Inr [of "pb_ID prob" True d1 tcs d2] t Inr later_tables [OF l1] later_uuid_in [OF l1]
        by (simp add: test_cases_of_def)
      ultimately show ?thesis using judge_problem_result [OF j] j l2 e by auto
    qed
  qed
qed

text \<open>The update on exit, on a database without failures to come.\<close>

lemma finalize_stored:
  assumes "db_script (wd_db w) = []" and "find_row sb_ID (sb_ID sub) (db_submissions (wd_db w)) = Some r"
    and "submission_storable sub" and "sb_Status sub = SubmissionStatusRunning"
    and "db_uuid_in (wd_db w) (sb_ID sub) = Some (sb_ID sub)"
  shows "find_row sb_ID (sb_ID sub) (db_submissions (wd_db (finalize E sub w))) =
    Some (submission_set (sub\<lparr>sb_CompletedAt := Some (en_clock E (wd_host w)),
                              sb_Status := SubmissionStatusCompleted\<rparr>) r)"
proof -
  let ?s = "sub\<lparr>sb_CompletedAt := Some (en_clock E (wd_host w)), sb_Status := SubmissionStatusCompleted\<rparr>"
  have "submission_storable ?s" using assms(3) by (simp add: submission_storable_def)
  moreover have "wd_db (finalize E sub w) = snd (submission_update ?s (wd_db w))"
    using assms(4) by (simp add: finalize_def Let_def)
  ultimately show ?thesis using submission_update_applied [OF assms(1), of ?s r] assms(2,5) by simp
qed

lemma later_script: "db_script d = [] \<Longrightarrow> run_stmt (query f) d = (r, d1) \<Longrightarrow> db_script d1 = []"
  by (simp add: queries_script)

lemma judge_fetched_script:
  assumes "judge_fetched E sub w = (ret, sub1, w1)" and "db_script (wd_db w) = []"
  shows "wd_db w1 = wd_db w"
  using assms
  by (auto simp: judge_fetched_def problem_get_by_id_def test_case_get_by_problem_id_def queries_script with_uuid_query
      split: prod.splits sum.splits option.splits)

lemma accept_no_analyzer:
  "en_analyzer E = None \<Longrightarrow>
     accept E sub h = (sub\<lparr>sb_ExecutionTimeMs := 0, sb_MemoryUsedBytes := 0, sb_Verdict := VerdictAccepted\<rparr>, h)"
  by (simp add: accept_def)

text \<open>Without an analyzer the texts of a submission are kept, and a stored submission can be stored again.\<close>

definition texts_kept :: "submission \<Rightarrow> submission \<Rightarrow> bool" where
  "texts_kept s t \<longleftrightarrow>
     sb_AITimeComplexity t = sb_AITimeComplexity s \<and> sb_AISpaceComplexity t = sb_AISpaceComplexity s \<and>
     sb_AIFeedback t = sb_AIFeedback s \<and> (sb_ExecutionTimeMs t = sb_ExecutionTimeMs s \<or> sb_ExecutionTimeMs t = 0)"

lemma texts_kept_simps [simp]:
  "texts_kept s s" "texts_kept s (s\<lparr>sb_Verdict := v\<rparr>)" "texts_kept s (passed_more k s)"
  "texts_kept s (passed_more k s\<lparr>sb_Verdict := v\<rparr>)" "texts_kept (s\<lparr>sb_TotalTestCases := n\<rparr>) t = texts_kept s t"
  by (simp_all add: texts_kept_def passed_more_def)

lemma loop_end_texts: "loop_end R ex req cmp tcs ret s t k \<Longrightarrow> texts_kept s t"
  by (cases "(R, ex, req, cmp, tcs, ret, s, t, k)" rule: loop_end.cases) auto

lemma judge_compiled_texts:
  assumes "en_analyzer E = None" and "judge_compiled E ex prob tcs req ws cid sub h = (ret, sub1, h1)"
  shows "texts_kept sub sub1"
proof -
  have tests: "texts_kept s t" if "judge_tests H R ex cmp p ws req tcs s h = (r, t, h2)" for H R cmp p s h r t h2
    using judge_tests_result [OF that] loop_end_texts by blast
  have acc: "texts_kept s (t\<lparr>sb_ExecutionTimeMs := 0, sb_MemoryUsedBytes := m, sb_Verdict := v\<rparr>)"
    if "texts_kept s t" for s t m v using that by (simp add: texts_kept_def)
  show ?thesis using assms(2)
    by (auto simp: judge_compiled_def accept_no_analyzer [OF assms(1)] split: prod.splits sum.splits option.splits if_splits
        dest!: tests intro: acc)
qed

lemma judge_problem_texts:
  assumes "en_analyzer E = None" and "judge_problem E prob tcs sub h = (ret, sub1, h1)"
  shows "texts_kept sub sub1"
proof -
  let ?s = "sub\<lparr>sb_TotalTestCases := int (length tcs)\<rparr>"
  have "(\<exists>v. sub1 = ?s\<lparr>sb_Verdict := v\<rparr>) \<or>
      (\<exists>ex req ws h2 h3. judge_in_workspace E ex prob tcs req ws ?s h2 = (ret, sub1, h3))"
    using assms(2) by (auto simp: judge_problem_def Let_def split: prod.splits sum.splits option.splits)
  then show ?thesis
  proof (elim disjE exE)
    fix ex req ws h2 h3 assume "judge_in_workspace E ex prob tcs req ws ?s h2 = (ret, sub1, h3)"
    from judge_in_workspace_sub [OF this] judge_compiled_texts [OF assms(1), of ex prob tcs req ws _ ?s]
    have "texts_kept ?s sub1" by (metis texts_kept_simps(2))
    then show ?thesis by simp
  qed (simp add: texts_kept_def)
qed

lemma judge_fetched_texts:
  assumes "en_analyzer E = None" and "judge_fetched E sub w = (ret, sub1, w1)"
  shows "texts_kept sub sub1"
proof -
  have "(\<exists>v. sub1 = sub\<lparr>sb_Verdict := v\<rparr>) \<or>
      (\<exists>prob tcs h1. judge_problem E prob tcs sub (wd_host w) = (ret, sub1, h1))"
    using assms(2) by (auto simp: judge_fetched_def split: prod.splits sum.splits)
  then show ?thesis using judge_problem_texts [OF assms(1)] by auto
qed

lemma kept_storable:
  assumes "submission_storable s" and "same_submission s t" and "texts_kept s t"
    and "int4_ok (sb_PassedTestCases t)" and "int4_ok (sb_TotalTestCases t)"
  shows "submission_storable t"
  using assms by (auto simp: submission_storable_def same_submission_def texts_kept_def int4_ok_def int4_max_def)

lemma judge_outcome_passed:
  "judge_outcome E prob tcs sub sub1 \<Longrightarrow>
     sb_PassedTestCases sub \<le> sb_PassedTestCases sub1 \<and> sb_PassedTestCases sub1 \<le> sb_PassedTestCases sub + int (length tcs)"
  by (auto simp: judge_outcome_def judged_as_def)

lemma length_test_cases_of: "length (test_cases_of i b d) \<le> length (db_test_cases d)"
  by (simp add: test_cases_of_def)

lemma judge_fetched_storable:
  assumes "judge_fetched E sub w = (ret, sub1, w1)" and "en_analyzer E = None" and "submission_storable sub"
    and "0 \<le> sb_PassedTestCases sub" and "sb_PassedTestCases sub + int (length (db_test_cases (wd_db w))) \<le> int4_max"
  shows "submission_storable sub1"
proof -
  note f = judge_fetched_sub [OF assms(1)]
  have "sb_PassedTestCases sub \<le> sb_PassedTestCases sub1 \<and>
      sb_PassedTestCases sub1 \<le> sb_PassedTestCases sub + int (length (db_test_cases (wd_db w))) \<and>
      (sb_TotalTestCases sub1 = sb_TotalTestCases sub \<or>
       0 \<le> sb_TotalTestCases sub1 \<and> sb_TotalTestCases sub1 \<le> int (length (db_test_cases (wd_db w))))"
  proof (cases "\<exists>prob tcs u. tcs = test_cases_of u True (wd_db w) \<and>
        judge_problem E prob tcs sub (wd_host w) = (ret, sub1, wd_host w1)")
    case True
    then obtain prob tcs u where t: "tcs = test_cases_of u True (wd_db w)"
      and j: "judge_problem E prob tcs sub (wd_host w) = (ret, sub1, wd_host w1)" by blast
    have "int (length tcs) \<le> int (length (db_test_cases (wd_db w)))"
      unfolding t using length_test_cases_of by simp
    with judge_outcome_passed [of E prob tcs sub sub1] judge_problem_result [OF j] show ?thesis by auto
  qed (use f in auto)
  moreover have "int4_ok (sb_PassedTestCases sub)" "int4_ok (sb_TotalTestCases sub)"
    using assms(3) by (simp_all add: submission_storable_def)
  ultimately have "int4_ok (sb_PassedTestCases sub1)" "int4_ok (sb_TotalTestCases sub1)"
    using assms(4,5) unfolding int4_ok_def int4_max_def by auto
  with f show ?thesis by (intro kept_storable [OF assms(3) _ judge_fetched_texts [OF assms(2,1)]]) simp_all
qed

lemma judge_fetched_host:
  "judge_fetched E sub w = (ret, sub1, w1) \<Longrightarrow>
     wd_host w1 = wd_host w \<or> (\<exists>prob tcs. judge_problem E prob tcs sub (wd_host w) = (ret, sub1, wd_host w1))"
  using judge_fetched_sub [of E sub w ret sub1 w1] by blast

section \<open>Properties\<close>


definition engine_example :: "(nat, nat \<times> host_event list) engine" where
  "engine_example =
     \<lparr>en_redis = silent_redis, en_queue = new_redis_queue ''jobs'' ''g'' 10, en_host = logged_host host_example,
      en_sandbox = docker_runtime (logged_host host_example) ''/s'', en_registry = main_registry,
      en_comparators = main_comparators, en_analyzer = None, en_clock = (\<lambda>h. 7), en_json = (\<lambda>s. Some [])\<rparr>"

definition world_example :: "submission list \<Rightarrow> (nat, nat \<times> host_event list) world" where
  "world_example subs = \<lparr>wd_db = database_example []\<lparr>db_submissions := subs\<rparr>, wd_queue = 0, wd_host = (0, [])\<rparr>"


text \<open>
  C19: the verdict is the verdict of the tests: a submission with a program that is not stopped by the
  compiler or an internal error is accepted exactly when all tests passed, and otherwise has the verdict
  of the first test that did not (time limit, output limit, runtime error, wrong answer), with the tests
  before it passed and counted; the total is the number of test cases.
\<close>

theorem verdict_of_first_failing_test:
  assumes "judge_problem E prob tcs sub h = (ret, sub1, h1)"
    and "sb_Verdict sub1 \<noteq> VerdictCompilationError" and "sb_Verdict sub1 \<noteq> VerdictInternalError"
  shows "\<exists>ex k. get_executor (en_registry E) (sb_Language sub) = Inr ex \<and> k \<le> length tcs \<and>
    sb_TotalTestCases sub1 = int (length tcs) \<and> sb_PassedTestCases sub1 = sb_PassedTestCases sub + int k \<and>
    (\<forall>i < k. test_passes (en_sandbox E) ex (request_of sub) (problem_comparator (en_comparators E) prob) (tcs ! i)) \<and>
    (if sb_Verdict sub1 = VerdictAccepted then k = length tcs
     else k < length tcs \<and>
       test_fails (en_sandbox E) ex (request_of sub) (problem_comparator (en_comparators E) prob) (tcs ! k) (sb_Verdict sub1))"
proof -
  note j = judge_problem_result [OF assms(1)]
  from j assms(2,3) obtain ex where ex: "get_executor (en_registry E) (sb_Language sub) = Inr ex"
      "judged_as (en_sandbox E) ex (request_of sub) (problem_comparator (en_comparators E) prob) tcs sub sub1"
    by (auto simp: judge_outcome_def)
  from ex(2) obtain k where k: "k \<le> length tcs" "sb_PassedTestCases sub1 = sb_PassedTestCases sub + int k"
      "\<forall>i < k. test_passes (en_sandbox E) ex (request_of sub) (problem_comparator (en_comparators E) prob) (tcs ! i)"
      "case sb_Verdict sub1 of
           VerdictAccepted \<Rightarrow> k = length tcs
         | VerdictCompilationError \<Rightarrow> k = 0
         | VerdictInternalError \<Rightarrow> True
         | v \<Rightarrow> k < length tcs \<and>
             test_fails (en_sandbox E) ex (request_of sub) (problem_comparator (en_comparators E) prob) (tcs ! k) v"
    unfolding judged_as_def by blast
  have "if sb_Verdict sub1 = VerdictAccepted then k = length tcs
     else k < length tcs \<and>
       test_fails (en_sandbox E) ex (request_of sub) (problem_comparator (en_comparators E) prob) (tcs ! k) (sb_Verdict sub1)"
    using k(4) j assms(2,3) by (cases "sb_Verdict sub1") (auto simp: judged_verdicts_def)
  with ex(1) k(1-3) j show ?thesis by blast
qed

definition submission_example :: submission where
  "submission_example =
     \<lparr>sb_ID = ''s1'', sb_UserID = ''u'', sb_ProblemID = ''p1'', sb_Language = ''sql'', sb_SourceCode = ''x'',
      sb_Status = SubmissionStatusQueued, sb_Verdict = VerdictPending, sb_ExecutionTimeMs = 0, sb_MemoryUsedBytes = 0,
      sb_PassedTestCases = 0, sb_TotalTestCases = 0, sb_AITimeComplexity = [], sb_AISpaceComplexity = [],
      sb_AIFeedback = [], sb_CreatedAt = 0, sb_StartedAt = None, sb_CompletedAt = None\<rparr>"

definition problem_example :: "f64 problem" where
  "problem_example =
     \<lparr>pb_ID = ''p1'', pb_Title = ''t'', pb_Slug = ''t'', pb_Description = [], pb_InputDescription = [],
      pb_OutputDescription = [], pb_Constraints = [], pb_TimeLimitMs = 1000, pb_MemoryLimitMB = 64,
      pb_ComparisonMode = ''EXACT'', pb_FloatEpsilon = F_Fin 0, pb_Status = ''PUBLISHED'', pb_CreatedAt = 0\<rparr>"

definition test_example :: "string \<Rightarrow> test_case" where
  "test_example expected =
     \<lparr>tc_ID = ''t1'', tc_ProblemID = ''p1'', tc_Input = [], tc_ExpectedOutput = expected, tc_Visibility = ''PUBLIC'',
      tc_SortOrder = 0, tc_CreatedAt = 0\<rparr>"

definition plain_engine :: "(nat, nat) engine" where
  "plain_engine =
     \<lparr>en_redis = silent_redis, en_queue = new_redis_queue ''jobs'' ''g'' 10, en_host = host_example,
      en_sandbox = runtime_example, en_registry = main_registry, en_comparators = main_comparators,
      en_analyzer = None, en_clock = (\<lambda>h. 7), en_json = (\<lambda>s. Some [])\<rparr>"

lemma main_comparators_exact: "get_comparator main_comparators ''EXACT'' = ExactComparator"
  by (simp add: get_comparator_def main_comparators_def register_comparator_def mode_defs)

lemma judge_example:
  "judge_problem plain_engine problem_example [test_example ''ok'', test_example ''no''] submission_example 0 =
     (None, submission_example\<lparr>sb_TotalTestCases := 2, sb_PassedTestCases := 1, sb_Verdict := VerdictWrongAnswer\<rparr>, 0)"
proof -
  have "trim_space ''x'' = ''x''" by code_simp
  then have v: "sql_validate r = None" if "rq_SourceCode r = ''x''" for r
    using that by (simp add: sql_validate_def validate_nonempty_def)
  have "get_executor main_registry ''sql'' = Inr (SqlExecutor (profile_or_zero ''sql''))"
    by (simp add: get_executor_def main_registry_simps)
  then show ?thesis
    by (simp add: judge_problem_def plain_engine_def submission_example_def v host_example_def judge_in_workspace_def
        judge_compiled_def runtime_example_def problem_comparator_def problem_example_def mode_defs
        main_comparators_exact [unfolded main_comparators_def] main_comparators_exact
        test_example_def ex_Execute_def run_verdict_def exact_compare_def Let_def)
qed

theorem verdict_of_first_failing_test_witness:
  "\<exists>ex. get_executor main_registry ''sql'' = Inr ex \<and>
     test_fails runtime_example ex (request_of submission_example)
       (problem_comparator main_comparators problem_example) (test_example ''no'') VerdictWrongAnswer"
proof -
  from verdict_of_first_failing_test [OF judge_example] obtain ex k where "get_executor main_registry ''sql'' = Inr ex"
    "1 = int k" "test_fails runtime_example ex (request_of submission_example)
       (problem_comparator main_comparators problem_example) ([test_example ''ok'', test_example ''no''] ! k) VerdictWrongAnswer"
    by (auto simp: submission_example_def plain_engine_def)
  then show ?thesis by auto
qed

text \<open>
  a compilation that runs into its time limit is not noticed: the result of the process runner then
  has neither an error nor an exit code, so the judge goes on to the tests.
\<close>

theorem compile_timeout_unnoticed:
  assumes "fst (docker_exec H cid opts h) = res" and "xr_Timeout res"
  shows "\<not> compile_failed res"
proof -
  obtain run h1 where r: "oh_spawn H (docker_run_options cid opts) h = (run, h1)" by fastforce
  then have res: "xr_Timeout res = ps_Timeout (run_process (docker_run_options cid opts) run)"
    "xr_Error res = ps_Error (run_process (docker_run_options cid opts) run)"
    "xr_ExitCode res = ps_ExitCode (run_process (docker_run_options cid opts) run)"
    using assms(1) by (auto simp: docker_exec_def Let_def)
  with assms(2) show ?thesis
    by (auto simp: compile_failed_def run_process_def Let_def select_exit_err_def exit_code_of_def split: option.splits)
qed

definition slow_host :: "nat os_host" where
  "slow_host = host_example\<lparr>oh_spawn := (\<lambda>opts n. (\<lparr>pr_start = None, pr_writes = [], pr_select = TimerFired,
      pr_cause = None\<rparr>, n))\<rparr>"

theorem compile_timeout_unnoticed_witness:
  "\<not> compile_failed (fst (docker_exec slow_host ''c1'' (exec_opts ''g++'' [] None (profile_or_zero ''cpp'') 1) 0))"
  by (rule compile_timeout_unnoticed [OF refl])
    (simp add: docker_exec_def slow_host_def run_process_def Let_def)

lemma judge_tests_timeout:
  assumes "en_sandbox E = docker_runtime H sec"
  shows "judge_tests H2 (docker_runtime H sec) ex cmp (p\<lparr>pf_Timeout := t\<rparr>) ws req tcs sub h =
    judge_tests H2 (docker_runtime H sec) ex cmp p ws req tcs sub h"
proof (induction tcs arbitrary: sub h)
  case (Cons tc tcs)
  have "rt_StartContainer (docker_runtime H sec) ws (p\<lparr>pf_Timeout := t\<rparr>) h = rt_StartContainer (docker_runtime H sec) ws p h"
    for h by (simp add: docker_runtime_def docker_start_container_def docker_run_args_def)
  with Cons show ?case by (simp only: judge_tests.simps)
qed simp

text \<open>
  the time limit of a problem has no effect: with the Docker runtime, what judging a submission does
  and returns is the same for every value of the limit.
\<close>

theorem time_limit_has_no_effect:
  assumes "en_sandbox E = docker_runtime H sec"
  shows "judge_problem E (prob\<lparr>pb_TimeLimitMs := t\<rparr>) tcs sub h = judge_problem E prob tcs sub h"
proof -
  have p: "problem_profile (prob\<lparr>pb_TimeLimitMs := t\<rparr>) q =
      problem_profile prob q\<lparr>pf_Timeout := of_int t * millisecond\<rparr>" for q
    by (simp add: problem_profile_def)
  have c: "problem_comparator cs (prob\<lparr>pb_TimeLimitMs := t\<rparr>) = problem_comparator cs prob" for cs
    by (simp add: problem_comparator_def)
  have "judge_compiled E ex (prob\<lparr>pb_TimeLimitMs := t\<rparr>) tcs req ws cid s h = judge_compiled E ex prob tcs req ws cid s h"
    for ex req ws cid s h
    by (simp only: judge_compiled_def p c assms judge_tests_timeout [OF assms])
  then show ?thesis by (simp only: judge_problem_def judge_in_workspace_def)
qed

theorem time_limit_has_no_effect_witness:
  "judge_problem engine_example (problem_example\<lparr>pb_TimeLimitMs := 1\<rparr>) [] submission_example (0, []) =
   judge_problem engine_example problem_example [] submission_example (0, [])"
  by (rule time_limit_has_no_effect) (simp add: engine_example_def)

text \<open>A judgement that nothing disturbs leaves the submission completed, with a verdict.\<close>

lemma judge_stores_verdict:
  assumes "db_script (wd_db w) = []" and "find_row sb_ID sid (db_submissions (wd_db w)) = Some sub0"
    and "db_uuid_in (wd_db w) sid = Some sid" and "en_analyzer E = None" and "submission_storable sub0"
    and "0 \<le> sb_PassedTestCases sub0"
    and "sb_PassedTestCases sub0 + int (length (db_test_cases (wd_db w))) \<le> int4_max"
    and "judge E sid w = (ret, w1)"
  shows "\<exists>s. find_row sb_ID sid (db_submissions (wd_db w1)) = Some s \<and>
    sb_Status s = SubmissionStatusCompleted \<and> sb_CompletedAt s \<noteq> None \<and> sb_Verdict s \<in> judged_verdicts \<and>
    sb_UserID s = sb_UserID sub0 \<and> sb_ProblemID s = sb_ProblemID sub0 \<and> sb_SourceCode s = sb_SourceCode sub0"
proof -
  let ?d = "wd_db w" and ?sub = "sub0\<lparr>sb_Status := SubmissionStatusRunning\<rparr>"
  have sid: "sb_ID sub0 = sid" using find_row_SomeD [OF assms(2)] by simp
  have g: "submission_get_by_id sid ?d = (Inr sub0, ?d)"
    using assms(1-3) by (simp add: submission_get_by_id_def queries_script with_uuid_query)
  let ?w1 = "save_and_publish E ?sub (w\<lparr>wd_db := ?d\<rparr>)"
  have st: "submission_storable ?sub" using assms(5) by (simp add: submission_storable_def)
  from submission_update_applied [OF assms(1) st, of sub0] assms(2,3) sid have
    d1: "find_row sb_ID sid (db_submissions (wd_db ?w1)) = Some (submission_set ?sub sub0)"
      "db_script (wd_db ?w1) = []" "db_test_cases (wd_db ?w1) = db_test_cases ?d"
      "db_uuid_in (wd_db ?w1) = db_uuid_in ?d" by simp_all
  obtain q s1 w2 where f: "judge_fetched E ?sub ?w1 = (q, s1, w2)" by (metis prod.collapse)
  have w1: "w1 = finalize E s1 w2" using assms(8) g f by (auto simp: judge_def Let_def)
  note j = judge_fetched_sub [OF f]
  have same: "sb_ID s1 = sid" "sb_Status s1 = SubmissionStatusRunning" "sb_Verdict s1 \<in> judged_verdicts"
    using j sid by (auto simp: same_submission_def)
  have store: "submission_storable s1"
    using judge_fetched_storable [OF f assms(4) st] assms(6,7) d1(3) by simp
  have d2: "wd_db w2 = wd_db ?w1" by (rule judge_fetched_script [OF f d1(2)])
  have "find_row sb_ID (sb_ID s1) (db_submissions (wd_db w2)) = Some (submission_set ?sub sub0)"
    using d1(1) d2 same(1) by simp
  from finalize_stored [OF _ this store same(2)] d1(2,4) d2 same(1) assms(3) have
    "find_row sb_ID sid (db_submissions (wd_db w1)) = Some (submission_set (s1\<lparr>sb_CompletedAt := Some (en_clock E (wd_host w2)),
        sb_Status := SubmissionStatusCompleted\<rparr>) (submission_set ?sub sub0))" unfolding w1 by simp
  with same(3) show ?thesis by (simp add: submission_set_def)
qed



end
