(* ===== verification/Worker.thy ===== *)
theory Worker imports Judge_Engine Job_Refinement begin

text \<open>
  \<^verbatim>\<open>internal/worker/pool.go\<close>: the worker pool. A goroutine's progress through \<^verbatim>\<open>processRun\<close> or
  \<^verbatim>\<open>processSubmission\<close> is a program counter; \<open>step_at\<close> makes the calls between two of its values, one
  access to the database, the queue or the sandbox at a time, so that the theory of the whole system can
  interleave the steps of many workers. \<open>process\<close> runs one message to its end without interruption.
\<close>

section \<open>The pool and its goroutines\<close>

record ('q, 'h) pool =
  pl_redis :: "'q redis_client"
  pl_queue :: redis_queue
  pl_engine :: "('q, 'h) engine"
  pl_host :: "'h os_host"
  pl_sandbox :: "'h sandbox_runtime"
  pl_registry :: language_registry
  pl_numWorkers :: i64
  pl_instanceID :: string
  pl_status :: worker_status
  pl_json :: "execution_job \<Rightarrow> string option" \<comment> \<open>\<^verbatim>\<open>json.Marshal\<close> of a job\<close>

text \<open>Times in the database are microseconds.\<close>

definition lease_duration :: int where "lease_duration = 30000000"
definition retry_backoff :: int where "retry_backoff = 2000000"

definition worker_name :: "('q, 'h) pool \<Rightarrow> nat \<Rightarrow> string" where
  "worker_name P i = pl_instanceID P @ ''-worker-'' @ dec_of_nat i"

datatype worker_pc =
    AtClaim | AtGetState | AtMarkRunning | AtFetch
  | AtPublishRunning execution_job
  | AtExecute execution_job "execution_result slice" "string list" \<comment> \<open>the results so far and the inputs left\<close>
  | AtFail goerror
  | AtComplete "execution_result slice"
  | AtRefetch
  | AtPublishDone execution_job
  | AtJudge
  | AtAck
  | Returned

text \<open>A worker with its message; \<open>th_cancelled\<close> is \<^verbatim>\<open>execCtx.Err() != nil\<close>.\<close>

record thread =
  th_msg :: queue_message
  th_worker :: string
  th_pc :: worker_pc
  th_cancelled :: bool

definition start_pc :: "queue_message \<Rightarrow> worker_pc" where
  "start_pc msg = (if qm_JobType msg = ''submission'' then AtJudge else AtClaim)"

definition start_thread :: "queue_message \<Rightarrow> string \<Rightarrow> thread" where
  "start_thread msg worker = \<lparr>th_msg = msg, th_worker = worker, th_pc = start_pc msg, th_cancelled = False\<rparr>"

section \<open>Steps\<close>

text \<open>Publish a job where it can be marshalled; the error is dropped.\<close>

definition publish_job :: "('q, 'h) pool \<Rightarrow> string \<Rightarrow> execution_job \<Rightarrow> ('q, 'h) world \<Rightarrow> ('q, 'h) world" where
  "publish_job P jobID job w =
     (case pl_json P job of
        None \<Rightarrow> w
      | Some payload \<Rightarrow> w\<lparr>wd_queue := snd (publish_job_update (pl_redis P) jobID payload (wd_queue w))\<rparr>)"

definition run_request :: "execution_job \<Rightarrow> string \<Rightarrow> execution_request" where
  "run_request job input =
     \<lparr>rq_Language = ej_Language job, rq_SourceCode = ej_SourceCode job, rq_Input = input\<rparr>"

fun step_at ::
  "('q, 'h) pool \<Rightarrow> queue_message \<Rightarrow> string \<Rightarrow> bool \<Rightarrow> worker_pc \<Rightarrow> ('q, 'h) world \<Rightarrow> worker_pc \<times> ('q, 'h) world" where
  "step_at P msg worker cancelled AtClaim w =
     (let (err, d) = pg_claim (qm_JobID msg) worker lease_duration (wd_db w); w1 = w\<lparr>wd_db := d\<rparr>
      in case err of
           None \<Rightarrow> (AtMarkRunning, w1)
         | Some e \<Rightarrow> (if e = ErrInvalidState then (AtGetState, w1) else (Returned, w1)))"
| "step_at P msg worker cancelled AtGetState w =
     (let (res, d) = pg_get (qm_JobID msg) (wd_db w); w1 = w\<lparr>wd_db := d\<rparr>
      in case res of
           Inl e \<Rightarrow> (Returned, w1)
         | Inr job \<Rightarrow> (if terminal_status (ej_Status job) then (AtAck, w1) else (Returned, w1)))"
| "step_at P msg worker cancelled AtMarkRunning w =
     (let (err, d) = pg_mark_running (qm_JobID msg) worker (wd_db w); w1 = w\<lparr>wd_db := d\<rparr>
      in case err of None \<Rightarrow> (AtFetch, w1) | Some e \<Rightarrow> (Returned, w1))"
| "step_at P msg worker cancelled AtFetch w =
     (let (res, d) = pg_get (qm_JobID msg) (wd_db w); w1 = w\<lparr>wd_db := d\<rparr>
      in case res of Inl e \<Rightarrow> (Returned, w1) | Inr job \<Rightarrow> (AtPublishRunning job, w1))"
| "step_at P msg worker cancelled (AtPublishRunning job) w =
     (AtExecute job None (elems (ej_Inputs job)), publish_job P (qm_JobID msg) job w)"
| "step_at P msg worker cancelled (AtExecute job results []) w = (AtComplete results, w)"
| "step_at P msg worker cancelled (AtExecute job results (input # inputs)) w =
     (let (res, h) = execute_request (pl_host P) (pl_sandbox P) (pl_registry P) (run_request job input) (wd_host w);
          w1 = w\<lparr>wd_host := h\<rparr>
      in case res of
           Inl err \<Rightarrow> (if cancelled then (Returned, w1) else (AtFail err, w1))
         | Inr result \<Rightarrow> (AtExecute job (append_slice results result) inputs, w1))"
| "step_at P msg worker cancelled (AtFail err) w =
     (Returned, w\<lparr>wd_db := snd (pg_fail_job (qm_JobID msg) worker (error_text err) retry_backoff (wd_db w))\<rparr>)"
| "step_at P msg worker cancelled (AtComplete results) w =
     (let (err, d) = pg_complete (qm_JobID msg) worker results (wd_db w); w1 = w\<lparr>wd_db := d\<rparr>
      in case err of None \<Rightarrow> (AtRefetch, w1) | Some e \<Rightarrow> (Returned, w1))"
| "step_at P msg worker cancelled AtRefetch w =
     (let (res, d) = pg_get (qm_JobID msg) (wd_db w); w1 = w\<lparr>wd_db := d\<rparr>
      in case res of Inl e \<Rightarrow> (AtAck, w1) | Inr job \<Rightarrow> (AtPublishDone job, w1))"
| "step_at P msg worker cancelled (AtPublishDone job) w = (AtAck, publish_job P (qm_JobID msg) job w)"
| "step_at P msg worker cancelled AtJudge w = (AtAck, snd (judge (pl_engine P) (qm_JobID msg) w))"
| "step_at P msg worker cancelled AtAck w =
     (Returned, w\<lparr>wd_queue := snd (ack (pl_redis P) (pl_queue P) (qm_ID msg) (wd_queue w))\<rparr>)"
| "step_at P msg worker cancelled Returned w = (Returned, w)"

definition run_step :: "('q, 'h) pool \<Rightarrow> thread \<Rightarrow> ('q, 'h) world \<Rightarrow> thread \<times> ('q, 'h) world" where
  "run_step P th w =
     (let (pc, w1) = step_at P (th_msg th) (th_worker th) (th_cancelled th) (th_pc th) w in (th\<lparr>th_pc := pc\<rparr>, w1))"

text \<open>The lease goroutine runs from the fetch of the job until \<^verbatim>\<open>processRun\<close> returns or the lease is lost.\<close>

definition renewing :: "thread \<Rightarrow> bool" where
  "renewing th \<longleftrightarrow> \<not> th_cancelled th \<and> qm_JobType (th_msg th) \<noteq> ''submission'' \<and>
     (case th_pc th of
        AtExecute job rs is \<Rightarrow> True | AtFail e \<Rightarrow> True | AtComplete rs \<Rightarrow> True | AtRefetch \<Rightarrow> True
      | AtPublishDone job \<Rightarrow> True | AtAck \<Rightarrow> True | _ \<Rightarrow> False)"

text \<open>One tick of it: a failed renewal cancels the execution.\<close>

definition renew_step :: "thread \<Rightarrow> database \<Rightarrow> thread \<times> database" where
  "renew_step th d =
     (case pg_renew_lease (qm_JobID (th_msg th)) (th_worker th) lease_duration d of
        (None, d1) \<Rightarrow> (th, d1)
      | (Some e, d1) \<Rightarrow> (th\<lparr>th_cancelled := True\<rparr>, d1))"

text \<open>The deferred function of \<^verbatim>\<open>processJobSafely\<close> after a panic.\<close>

definition recover_panic :: "thread \<Rightarrow> database \<Rightarrow> thread \<times> database" where
  "recover_panic th d =
     (th\<lparr>th_pc := Returned\<rparr>,
      snd (pg_fail_job (qm_JobID (th_msg th)) (th_worker th) ''Worker crashed during execution'' 0 d))"

section \<open>A message from start to end\<close>

text \<open>The order in which the program counter moves: the phase, then the inputs left.\<close>

fun pc_rank :: "worker_pc \<Rightarrow> nat \<times> nat" where
  "pc_rank AtClaim = (12, 0)"
| "pc_rank AtGetState = (11, 0)"
| "pc_rank AtMarkRunning = (10, 0)"
| "pc_rank AtFetch = (9, 0)"
| "pc_rank (AtPublishRunning job) = (8, 0)"
| "pc_rank (AtExecute job rs inputs) = (7, length inputs)"
| "pc_rank (AtFail e) = (6, 0)"
| "pc_rank (AtComplete rs) = (5, 0)"
| "pc_rank AtRefetch = (4, 0)"
| "pc_rank (AtPublishDone job) = (3, 0)"
| "pc_rank AtJudge = (2, 0)"
| "pc_rank AtAck = (1, 0)"
| "pc_rank Returned = (0, 0)"

lemma step_at_rank:
  assumes "step_at P msg worker cancelled pc w = (pc1, w1)" and "pc \<noteq> Returned"
  shows "(pc_rank pc1, pc_rank pc) \<in> less_than <*lex*> less_than"
  using assms
  by (cases "(P, msg, worker, cancelled, pc, w)" rule: step_at.cases)
    (auto simp: Let_def split: prod.splits option.splits sum.splits if_splits)

function process ::
  "('q, 'h) pool \<Rightarrow> queue_message \<Rightarrow> string \<Rightarrow> bool \<Rightarrow> worker_pc \<Rightarrow> ('q, 'h) world \<Rightarrow> ('q, 'h) world" where
  "process P msg worker cancelled pc w =
     (if pc = Returned then w
      else (let (pc1, w1) = step_at P msg worker cancelled pc w in process P msg worker cancelled pc1 w1))"
  by pat_completeness auto
termination
proof (relation "inv_image (less_than <*lex*> less_than) (\<lambda>(P, msg, worker, cancelled, pc, w). pc_rank pc)")
  fix P :: "('q, 'h) pool" and msg worker cancelled pc and w :: "('q, 'h) world" and x pc1 w1
  assume "pc \<noteq> Returned" "x = step_at P msg worker cancelled pc w" "(pc1, w1) = x"
  then have "step_at P msg worker cancelled pc w = (pc1, w1)" by simp
  from step_at_rank [OF this \<open>pc \<noteq> Returned\<close>]
  show "((P, msg, worker, cancelled, pc1, w1), P, msg, worker, cancelled, pc, w)
      \<in> inv_image (less_than <*lex*> less_than) (\<lambda>(P, msg, worker, cancelled, pc, w). pc_rank pc)" by simp
qed auto

declare process.simps [simp del]

definition process_message :: "('q, 'h) pool \<Rightarrow> queue_message \<Rightarrow> string \<Rightarrow> bool \<Rightarrow> ('q, 'h) world \<Rightarrow> ('q, 'h) world" where
  "process_message P msg worker cancelled w = process P msg worker cancelled (start_pc msg) w"

lemma process_Returned [simp]: "process P msg worker c Returned w = w"
  by (simp add: process.simps)

lemma process_step:
  "step_at P msg worker c pc w = (pc1, w1) \<Longrightarrow> pc \<noteq> Returned \<Longrightarrow> process P msg worker c pc w = process P msg worker c pc1 w1"
  by (subst process.simps) simp

section \<open>The loop of a worker\<close>

text \<open>
  What happens around a worker: \<open>le_stopping k\<close> is what the \<open>k\<close>-th read of the pool's status finds
  (draining or stopped), \<open>le_closed k j\<close> what the \<open>j\<close>-th read of the queue's flag finds in the \<open>k\<close>-th call of
  \<^verbatim>\<open>Consume\<close>, \<open>le_cancelled k\<close> whether the context of the \<open>k\<close>-th message is cancelled, and \<open>le_panic k\<close> after
  how many steps its processing panics, if it does.
\<close>

record loop_env =
  le_stopping :: "nat \<Rightarrow> bool"
  le_closed :: "nat \<Rightarrow> nat \<Rightarrow> bool"
  le_cancelled :: "nat \<Rightarrow> bool"
  le_panic :: "nat \<Rightarrow> nat option"

fun steps_before_panic ::
  "('q, 'h) pool \<Rightarrow> nat \<Rightarrow> thread \<Rightarrow> ('q, 'h) world \<Rightarrow> thread \<times> ('q, 'h) world" where
  "steps_before_panic P 0 th w = (th, w)"
| "steps_before_panic P (Suc n) th w = (let (th1, w1) = run_step P th w in steps_before_panic P n th1 w1)"

definition process_safely ::
  "('q, 'h) pool \<Rightarrow> nat option \<Rightarrow> queue_message \<Rightarrow> string \<Rightarrow> bool \<Rightarrow> ('q, 'h) world \<Rightarrow> ('q, 'h) world" where
  "process_safely P panic msg worker cancelled w =
     (case panic of
        None \<Rightarrow> process_message P msg worker cancelled w
      | Some n \<Rightarrow>
          (let (th, w1) = steps_before_panic P n (start_thread msg worker\<lparr>th_cancelled := cancelled\<rparr>) w
           in w1\<lparr>wd_db := snd (recover_panic th (wd_db w1))\<rparr>))"

text \<open>
  The loop, with the messages it processed. It takes fuel, and so does each \<^verbatim>\<open>Consume\<close>; an error other
  than a closed queue or a cancelled context is retried after a pause.
\<close>

fun worker_loop ::
  "('q, 'h) pool \<Rightarrow> loop_env \<Rightarrow> string \<Rightarrow> nat \<Rightarrow> nat \<Rightarrow> nat \<Rightarrow> ('q, 'h) world
   \<Rightarrow> (queue_message list \<times> ('q, 'h) world) option" where
  "worker_loop P env worker polls 0 k w = None"
| "worker_loop P env worker polls (Suc fuel) k w =
     (if le_stopping env k then Some ([], w)
      else (case consume (pl_redis P) (pl_queue P) (le_closed env k) worker polls 0 (wd_queue w) of
              None \<Rightarrow> None
            | Some (Inl err, s) \<Rightarrow>
                (if err = ErrQueueClosed \<or> err = ContextCanceled then Some ([], w\<lparr>wd_queue := s\<rparr>)
                 else worker_loop P env worker polls fuel (Suc k) (w\<lparr>wd_queue := s\<rparr>))
            | Some (Inr msg, s) \<Rightarrow>
                (case worker_loop P env worker polls fuel (Suc k)
                        (process_safely P (le_panic env k) msg worker (le_cancelled env k) (w\<lparr>wd_queue := s\<rparr>)) of
                   None \<Rightarrow> None
                 | Some (msgs, w1) \<Rightarrow> Some (msg # msgs, w1))))"

section \<open>Starting and stopping the pool\<close>

text \<open>\<^verbatim>\<open>Start\<close>: the status, the first heartbeat (its error is logged), one goroutine per worker.\<close>

definition start_pool :: "('q, 'h) pool \<Rightarrow> database \<Rightarrow> ('q, 'h) pool \<times> string list \<times> database" where
  "start_pool P d =
     (P\<lparr>pl_status := WorkerActive\<rparr>, map (worker_name P) [0..<nat (sint (pl_numWorkers P))],
      snd (heartbeat_update_status (pl_instanceID P) WorkerActive d))"

text \<open>\<^verbatim>\<open>Stop\<close> up to the wait, and from its end; \<open>drained\<close> is false where the timeout won and the context is cancelled.\<close>

definition drain_pool :: "('q, 'h) pool \<Rightarrow> database \<Rightarrow> ('q, 'h) pool \<times> database" where
  "drain_pool P d =
     (P\<lparr>pl_status := WorkerDraining, pl_queue := close_queue (pl_queue P)\<rparr>,
      snd (heartbeat_update_status (pl_instanceID P) WorkerDraining d))"

definition finish_stop :: "bool \<Rightarrow> ('q, 'h) pool \<Rightarrow> thread list \<Rightarrow> database \<Rightarrow> ('q, 'h) pool \<times> thread list \<times> database" where
  "finish_stop drained P ths d =
     (P\<lparr>pl_status := WorkerStopped\<rparr>, (if drained then ths else map (\<lambda>th. th\<lparr>th_cancelled := True\<rparr>) ths),
      snd (heartbeat_update_status (pl_instanceID P) WorkerStopped d))"

section \<open>Runs that nothing disturbs\<close>

text \<open>The inputs of a job, executed one after the other.\<close>

fun execute_all ::
  "('q, 'h) pool \<Rightarrow> execution_job \<Rightarrow> string list \<Rightarrow> 'h \<Rightarrow> (execution_result list \<times> 'h) option" where
  "execute_all P job [] h = Some ([], h)"
| "execute_all P job (input # inputs) h =
     (case execute_request (pl_host P) (pl_sandbox P) (pl_registry P) (run_request job input) h of
        (Inl err, h1) \<Rightarrow> None
      | (Inr res, h1) \<Rightarrow>
          (case execute_all P job inputs h1 of None \<Rightarrow> None | Some (rs, h2) \<Rightarrow> Some (res # rs, h2)))"

text \<open>Only the program of the job matters.\<close>

lemma execute_all_program:
  assumes "ej_Language j1 = ej_Language j2" and "ej_SourceCode j1 = ej_SourceCode j2"
  shows "execute_all P j1 = execute_all P j2"
proof (intro ext)
  fix inputs h
  have "run_request j1 = run_request j2" using assms by (simp add: run_request_def fun_eq_iff)
  then show "execute_all P j1 inputs h = execute_all P j2 inputs h"
    by (induction inputs arbitrary: h) (auto split: prod.splits sum.splits)
qed

definition append_all :: "'a slice \<Rightarrow> 'a list \<Rightarrow> 'a slice" where
  "append_all s xs = (if xs = [] then s else Some (elems s @ xs))"

lemma append_all_simps [simp]:
  "append_all s [] = s" "append_all (append_slice s x) xs = append_all s (x # xs)"
  "elems (append_all s xs) = elems s @ xs"
  by (simp_all add: append_all_def append_slice_def)

lemma world_same_host [simp]: "w\<lparr>wd_host := wd_host w\<rparr> = w"
  by simp

lemma process_executes:
  "execute_all P job inputs (wd_host w) = Some (rs, h1) \<Longrightarrow>
     process P msg worker c (AtExecute job results inputs) w =
     process P msg worker c (AtComplete (append_all results rs)) (w\<lparr>wd_host := h1\<rparr>)"
proof (induction inputs arbitrary: w rs results)
  case Nil
  have "step_at P msg worker c (AtExecute job results []) w = (AtComplete results, w)" by simp
  from process_step [OF this] Nil show ?case by auto
next
  case (Cons i inputs)
  obtain res h2 where e: "execute_request (pl_host P) (pl_sandbox P) (pl_registry P) (run_request job i) (wd_host w) = (Inr res, h2)"
    using Cons.prems by (auto split: prod.splits sum.splits)
  with Cons.prems obtain rs2 where rs2: "execute_all P job inputs h2 = Some (rs2, h1)" "rs = res # rs2"
    by (auto split: option.splits prod.splits)
  have "step_at P msg worker c (AtExecute job results (i # inputs)) w =
      (AtExecute job (append_slice results res) inputs, w\<lparr>wd_host := h2\<rparr>)" by (simp add: e)
  from process_step [OF this] Cons.IH [of "w\<lparr>wd_host := h2\<rparr>" rs2 "append_slice results res"] rs2 show ?case by simp
qed

text \<open>On a database without failures to come, a statement keyed on a row in the right state is applied.\<close>

lemma quiet_update:
  assumes "db_script d = []" and "stmt d = update_executions p f d"
    and "find_row er_id i (db_executions d) = Some r" and "p (db_now d) r" and "\<And>now r. er_id (f now r) = er_id r"
  shows "\<exists>d1. affected_or m (run_stmt stmt d) = (None, d1) \<and> db_script d1 = [] \<and> db_now d1 = db_now d \<and>
    find_row er_id i (db_executions d1) = Some (f (db_now d) r)"
proof -
  have "rows_affected (p (db_now d)) (db_executions d) \<noteq> 0"
    using find_row_SomeD [OF assms(3)] assms(4) by (auto simp: rows_affected_0_iff)
  with assms show ?thesis
    by (simp add: run_stmt_def apply_stmt_def update_executions_def affected_or_def find_row_update_where)
qed

lemma quiet_get:
  "db_script d = [] \<Longrightarrow> find_row er_id i (db_executions d) = Some r \<Longrightarrow> pg_get i d = (Inr (job_of_row r), d)"
  by (simp add: pg_get_def queries_script)

lemma quiet_claim:
  assumes "db_script d = []" and "table_ok d" and "find_row er_id i (db_executions d) = Some r"
    and "claim_where i (db_now d) r" and "er_attempt_count r < int4_max"
  shows "\<exists>d1. pg_claim i w l d = (None, d1) \<and> db_script d1 = [] \<and> db_now d1 = db_now d \<and>
    find_row er_id i (db_executions d1) = Some (claim_set w l (db_now d) r)"
proof -
  have "q = r" if "q \<in> set (db_executions d)" "er_id q = i" for q
    using find_row_distinct [of er_id "db_executions d" q] that assms(2,3) by (simp add: table_ok_def)
  then have "claim_stmt i w l d = update_executions (claim_where i) (claim_set w l) d"
    using assms(5) by (auto simp: claim_stmt_def list_ex_iff claim_where_def)
  from quiet_update [where stmt = "claim_stmt i w l" and p = "claim_where i" and f = "claim_set w l", OF assms(1) this assms(3,4)] show ?thesis
    by (simp add: pg_claim_def)
qed

lemma quiet_mark_running:
  assumes "db_script d = []" and "find_row er_id i (db_executions d) = Some r" and "running_where i w (db_now d) r"
  shows "\<exists>d1. pg_mark_running i w d = (None, d1) \<and> db_script d1 = [] \<and> db_now d1 = db_now d \<and>
    find_row er_id i (db_executions d1) = Some (running_set (db_now d) r)"
  using quiet_update [where stmt = "update_executions (running_where i w) running_set" and p = "running_where i w" and f = running_set, OF assms(1) refl assms(2,3)]
  by (simp add: pg_mark_running_def)

lemma quiet_complete:
  assumes "db_script d = []" and "find_row er_id i (db_executions d) = Some r" and "complete_where i w (db_now d) r"
    and "list_all result_storable (elems rs)"
  shows "\<exists>d1. pg_complete i w rs d = (None, d1) \<and> db_script d1 = [] \<and> db_now d1 = db_now d \<and>
    find_row er_id i (db_executions d1) = Some (complete_set rs (db_now d) r)"
proof -
  have "complete_stmt i w rs d = update_executions (complete_where i w) (complete_set rs) d"
    using assms(4) by (simp add: complete_stmt_def)
  from quiet_update [where stmt = "complete_stmt i w rs" and p = "complete_where i w" and f = "complete_set rs", OF assms(1) this assms(2,3)] show ?thesis
    by (simp add: pg_complete_def)
qed

text \<open>The update a job gives, as an event of the log.\<close>

definition job_published :: "('q, 'h) pool \<Rightarrow> string \<Rightarrow> execution_job \<Rightarrow> queue_event list" where
  "job_published P i job = (case pl_json P job of None \<Rightarrow> [] | Some payload \<Rightarrow> [EvPublish (''job-updates:'' @ i) payload])"

lemma publish_job_logged:
  assumes "pl_redis P = logged_redis C"
  shows "snd (wd_queue (publish_job P i job w)) = job_published P i job @ snd (wd_queue w)"
    "wd_db (publish_job P i job w) = wd_db w" "wd_host (publish_job P i job w) = wd_host w"
  by (cases "wd_queue w", simp_all add: publish_job_def job_published_def assms publish_job_update_def logged_redis_def
      Let_def split: option.splits prod.splits)

text \<open>The row of a job that was claimed, started and completed at one time.\<close>

definition completed_row :: "string \<Rightarrow> execution_result slice \<Rightarrow> int \<Rightarrow> execution_row \<Rightarrow> execution_row" where
  "completed_row worker rs now r = complete_set rs now (running_set now (claim_set worker lease_duration now r))"

lemma completed_row_sel [simp]:
  "er_job_status (completed_row worker rs now r) = JobCompleted"
  "er_results (completed_row worker rs now r) = Some (marshal enc_result rs)"
  "er_attempt_count (completed_row worker rs now r) = er_attempt_count r + 1"
  "er_worker_id (completed_row worker rs now r) = None" "er_inputs (completed_row worker rs now r) = er_inputs r"
  by (simp_all add: completed_row_def complete_set_def running_set_def claim_set_def)

lemma running_job_sel:
  "ej_Status (job_of_row (running_set now (claim_set worker l now r))) = JobRunning"
  "ej_WorkerID (job_of_row (running_set now (claim_set worker l now r))) = Some worker"
  by (simp_all add: job_of_row_def running_set_def claim_set_def)

lemma undisturbed_run:
  fixes w :: "('q \<times> queue_event list, 'h) world"
  assumes redis: "pl_redis P = logged_redis C" and script: "db_script (wd_db w) = []" and ok: "table_ok (wd_db w)"
    and row: "find_row er_id (qm_JobID msg) (db_executions (wd_db w)) = Some r"
    and due: "claim_where (qm_JobID msg) (db_now (wd_db w)) r" "er_attempt_count r < int4_max"
    and exec: "execute_all P (job_of_row r) (elems (unmarshal (er_inputs r))) (wd_host w) = Some (rs, h1)"
    and store: "list_all result_storable rs" and type: "qm_JobType msg \<noteq> ''submission''"
  shows "\<exists>w1 acked_ok. process_message P msg worker c w = w1 \<and> wd_host w1 = h1 \<and>
    find_row er_id (qm_JobID msg) (db_executions (wd_db w1)) =
      Some (completed_row worker (append_all None rs) (db_now (wd_db w)) r) \<and>
    snd (wd_queue w1) = EvAck (qm_ID msg) acked_ok #
      job_published P (qm_JobID msg) (job_of_row (completed_row worker (append_all None rs) (db_now (wd_db w)) r)) @
      job_published P (qm_JobID msg) (job_of_row (running_set (db_now (wd_db w)) (claim_set worker lease_duration (db_now (wd_db w)) r))) @
      snd (wd_queue w)"
proof -
  let ?i = "qm_JobID msg" and ?now = "db_now (wd_db w)"
  let ?r1 = "claim_set worker lease_duration ?now r" and ?r3 = "completed_row worker (append_all None rs) ?now r"
  let ?r2 = "running_set ?now ?r1" let ?job = "job_of_row ?r2"
  from quiet_claim [OF script ok row due, of worker lease_duration] obtain d1 where
    d1: "pg_claim ?i worker lease_duration (wd_db w) = (None, d1)" "db_script d1 = []" "db_now d1 = ?now"
      "find_row er_id ?i (db_executions d1) = Some ?r1" by auto
  have id: "er_id r = ?i" using find_row_SomeD [OF row] by simp
  have "running_where ?i worker (db_now d1) ?r1" using id by (simp add: running_where_def claim_set_def)
  from quiet_mark_running [OF d1(2,4) this] d1(3) obtain d2 where
    d2: "pg_mark_running ?i worker d1 = (None, d2)" "db_script d2 = []" "db_now d2 = ?now"
      "find_row er_id ?i (db_executions d2) = Some ?r2" by auto
  let ?w2 = "publish_job P ?i ?job (w\<lparr>wd_db := d2\<rparr>)"
  note pub = publish_job_logged [OF redis]
  have inputs: "elems (ej_Inputs ?job) = elems (unmarshal (er_inputs r))"
    by (simp add: job_of_row_def running_set_def claim_set_def)
  have "execute_all P ?job = execute_all P (job_of_row r)"
    by (rule execute_all_program) (simp_all add: job_of_row_def running_set_def claim_set_def)
  with exec have run: "execute_all P ?job (elems (ej_Inputs ?job)) (wd_host ?w2) = Some (rs, h1)"
    by (simp add: inputs pub)
  have "complete_where ?i worker (db_now d2) ?r2"
    using id by (simp add: complete_where_def running_set_def claim_set_def)
  from quiet_complete [OF d2(2,4) this, of "append_all None rs"] d2(3) store obtain d3 where
    d3: "pg_complete ?i worker (append_all None rs) d2 = (None, d3)" "db_script d3 = []"
      "find_row er_id ?i (db_executions d3) = Some ?r3" by (auto simp: completed_row_def)
  let ?w3 = "publish_job P ?i (job_of_row ?r3) (?w2\<lparr>wd_host := h1, wd_db := d3\<rparr>)"
  let ?w4 = "?w3\<lparr>wd_queue := snd (ack (pl_redis P) (pl_queue P) (qm_ID msg) (wd_queue ?w3))\<rparr>"
  have "process P msg worker c AtClaim w = process P msg worker c (AtPublishRunning ?job) (w\<lparr>wd_db := d2\<rparr>)"
    using process_step [of P msg worker c AtClaim w AtMarkRunning "w\<lparr>wd_db := d1\<rparr>"]
      process_step [of P msg worker c AtMarkRunning "w\<lparr>wd_db := d1\<rparr>" AtFetch "w\<lparr>wd_db := d2\<rparr>"]
      process_step [of P msg worker c AtFetch "w\<lparr>wd_db := d2\<rparr>" "AtPublishRunning ?job" "w\<lparr>wd_db := d2\<rparr>"]
      d1(1) d2(1) quiet_get [OF d2(2,4)] by simp
  also have "\<dots> = process P msg worker c (AtExecute ?job None (elems (ej_Inputs ?job))) ?w2"
    by (rule process_step) simp_all
  also have "\<dots> = process P msg worker c (AtComplete (append_all None rs)) (?w2\<lparr>wd_host := h1\<rparr>)"
    by (rule process_executes [OF run])
  also have "\<dots> = process P msg worker c AtRefetch (?w2\<lparr>wd_host := h1, wd_db := d3\<rparr>)"
    by (rule process_step) (simp_all add: pub d3(1))
  also have "\<dots> = process P msg worker c (AtPublishDone (job_of_row ?r3)) (?w2\<lparr>wd_host := h1, wd_db := d3\<rparr>)"
    by (rule process_step) (simp_all add: quiet_get [OF d3(2,3)])
  also have "\<dots> = process P msg worker c AtAck ?w3"
    by (rule process_step) simp_all
  also have "\<dots> = ?w4" using process_step [of P msg worker c AtAck ?w3 Returned ?w4] by simp
  finally have p: "process_message P msg worker c w = ?w4" using type by (simp add: process_message_def start_pc_def)
  obtain q l where ql: "wd_queue ?w3 = (q, l)" by fastforce
  have "snd (wd_queue ?w4) = EvAck (qm_ID msg) (fst (rx_XAck C (kq_stream (pl_queue P)) (kq_group (pl_queue P)) (qm_ID msg) q) = None) #
      snd (wd_queue ?w3)"
    using ql by (simp add: redis ack_def logged_redis_def Let_def split: prod.splits)
  with p d3(3) show ?thesis by (auto simp: pub)
qed

section \<open>Shutting down\<close>

lemma worker_loop_returns:
  assumes "le_stopping env (k + n)" and "\<forall>i < n. \<exists>j < polls. le_closed env (k + i) j"
  shows "\<exists>msgs w1. worker_loop P env worker polls (Suc n) k w = Some (msgs, w1) \<and> length msgs \<le> n"
  using assms
proof (induction n arbitrary: k w)
  case (Suc n)
  from Suc.prems(2) obtain j where j: "j < polls" "le_closed env k j" by (metis add_0_right zero_less_Suc)
  from consume_returns [of "le_closed env k" 0 j] j(2) obtain r where
    "consume (pl_redis P) (pl_queue P) (le_closed env k) worker (Suc j) 0 (wd_queue w) = Some r" by fastforce
  from consume_mono [OF this, of polls] j(1) obtain res s where
    c: "consume (pl_redis P) (pl_queue P) (le_closed env k) worker polls 0 (wd_queue w) = Some (res, s)"
    by (cases r) auto
  have IH: "\<exists>msgs w1. worker_loop P env worker polls (Suc n) (Suc k) w = Some (msgs, w1) \<and> length msgs \<le> n" for w
  proof (rule Suc.IH)
    show "le_stopping env (Suc k + n)" using Suc.prems(1) by simp
    show "\<forall>i < n. \<exists>j < polls. le_closed env (Suc k + i) j" using Suc.prems(2) by (metis Suc_less_eq add_Suc_shift)
  qed
  show ?case
  proof (cases res)
    case (Inl e)
    with IH [of "w\<lparr>wd_queue := s\<rparr>"] show ?thesis by (subst worker_loop.simps) (auto simp: c simp del: worker_loop.simps)
  next
    case (Inr msg)
    with IH [of "process_safely P (le_panic env k) msg worker (le_cancelled env k) (w\<lparr>wd_queue := s\<rparr>)"] show ?thesis
      by (subst worker_loop.simps) (auto simp: c simp del: worker_loop.simps)
  qed
qed simp

text \<open>A host on which every child process is killed by the cancelled context, before its output grew too long.\<close>

definition kills_children :: "'h os_host \<Rightarrow> bool" where
  "kills_children H \<longleftrightarrow>
     (\<forall>opts h. pr_start (fst (oh_spawn H opts h)) = None \<and> pr_select (fst (oh_spawn H opts h)) = CtxDone \<and>
        \<not> ps_OutputLimit (run_process opts (fst (oh_spawn H opts h))))"

lemma killed_clean:
  assumes "kills_children H" and "docker_exec H cid opts h = (res, h1)"
  shows "clean_result res"
proof -
  let ?o = "docker_run_options cid opts"
  obtain run where run: "oh_spawn H ?o h = (run, h1)" using assms(2) by (auto simp: docker_exec_def Let_def split: prod.splits)
  from assms(1) have k: "pr_start run = None" "pr_select run = CtxDone" "\<not> ps_OutputLimit (run_process ?o run)"
    unfolding kills_children_def by (metis run fst_conv)+
  from assms(2) run run_process_flags [OF k(1), of ?o] k(2,3) show ?thesis
    by (auto simp: docker_exec_def clean_result_def platform_error_def Let_def select_exit_err_def exit_code_of_def)
qed

lemma killed_compile:
  "kills_children H \<Longrightarrow> ex_Compile H (docker_runtime H sec) ex req ws cid h = (Inr (Some res), h1) \<Longrightarrow> clean_result res"
  by (cases ex) (auto simp: compile_defs compile_with_def docker_runtime_def dest: killed_clean split: prod.splits option.splits)

lemma killed_container:
  assumes "kills_children H" and "execute_in_container H (docker_runtime H sec) ex req ws cid h = (Inr res, h1)"
  shows "rs_Status res = StatusSuccess"
proof -
  have run: "rs_Status (classify r) = StatusSuccess" if "rt_Exec (docker_runtime H sec) cid opts h2 = (r, h3)" for opts h2 r h3
    using that killed_clean [OF assms(1)] by (simp add: classify_success_iff docker_runtime_def)
  obtain c h2 where c: "ex_Compile H (docker_runtime H sec) ex req ws cid h = (c, h2)" by fastforce
  have "clean_result r" if "c = Inr (Some r)" for r using killed_compile [OF assms(1)] c that by blast
  with assms(2) c show ?thesis
    by (auto simp: execute_in_container_def run_in_container_cases classify_success_iff
        split: sum.splits option.splits prod.splits if_splits dest: run)
qed

lemma killed_execute:
  assumes "kills_children H" and "execute_request H (docker_runtime H sec) registry req h = (Inr res, h1)"
    and "get_executor registry (rq_Language req) = Inr ex" and "ex_Validate ex req = None"
  shows "rs_Status res = StatusSuccess"
  using assms(2-)
  by (auto simp: execute_request_def execute_in_workspace_def Let_def split: prod.splits sum.splits
      dest: killed_container [OF assms(1)])

lemma killed_execute_all:
  assumes "kills_children (pl_host P)" and "pl_sandbox P = docker_runtime (pl_host P) sec"
    and "\<And>i. \<exists>ex. get_executor (pl_registry P) (ej_Language job) = Inr ex \<and> ex_Validate ex (run_request job i) = None"
  shows "execute_all P job inputs h = Some (rs, h1) \<Longrightarrow> \<forall>r \<in> set rs. rs_Status r = StatusSuccess"
proof (induction inputs arbitrary: h rs)
  case (Cons i inputs)
  then obtain res h2 rs2 where
    e: "execute_request (pl_host P) (pl_sandbox P) (pl_registry P) (run_request job i) h = (Inr res, h2)"
    and rs2: "execute_all P job inputs h2 = Some (rs2, h1)" "rs = res # rs2"
    by (auto split: prod.splits sum.splits option.splits)
  obtain ex where "get_executor (pl_registry P) (rq_Language (run_request job i)) = Inr ex"
      "ex_Validate ex (run_request job i) = None" using assms(3) [of i] by (auto simp: run_request_def)
  with e killed_execute [OF assms(1)] have "rs_Status res = StatusSuccess" by (metis assms(2))
  with Cons.IH [OF rs2(1)] rs2(2) show ?case by simp
qed simp

section \<open>Properties\<close>

text \<open>
  C16: an undisturbed run ends well: a worker that takes the message of a queued, due job, on a database
  that answers, and whose executions all return a result, completes the job in this attempt with one
  result per input in their order, publishes the job twice (running, completed) and then acknowledges the
  message; this is all it adds to the queue.
\<close>

theorem undisturbed_run_completes:
  fixes w :: "('q \<times> queue_event list, 'h) world"
  assumes "pl_redis P = logged_redis C" and "db_script (wd_db w) = []" and "table_ok (wd_db w)"
    and "find_row er_id (qm_JobID msg) (db_executions (wd_db w)) = Some r"
    and "claim_where (qm_JobID msg) (db_now (wd_db w)) r" and "er_attempt_count r < int4_max"
    and "execute_all P (job_of_row r) (elems (unmarshal (er_inputs r))) (wd_host w) = Some (rs, h1)"
    and "list_all result_storable rs" and "qm_JobType msg \<noteq> ''submission''"
    and "process_message P msg worker c w = w1"
  shows "\<exists>q running ok. find_row er_id (qm_JobID msg) (db_executions (wd_db w1)) = Some q \<and>
    er_job_status q = JobCompleted \<and> er_results q = Some (marshal enc_result (append_all None rs)) \<and>
    er_attempt_count q = er_attempt_count r + 1 \<and> er_worker_id q = None \<and> er_inputs q = er_inputs r \<and>
    ej_Status running = JobRunning \<and> ej_WorkerID running = Some worker \<and>
    snd (wd_queue w1) = EvAck (qm_ID msg) ok # job_published P (qm_JobID msg) (job_of_row q) @
      job_published P (qm_JobID msg) running @ snd (wd_queue w) \<and> wd_host w1 = h1"
proof -
  let ?now = "db_now (wd_db w)"
  from undisturbed_run [OF assms(1-9), of worker c] assms(10) obtain ok where
    "wd_host w1 = h1"
    "find_row er_id (qm_JobID msg) (db_executions (wd_db w1)) = Some (completed_row worker (append_all None rs) ?now r)"
    "snd (wd_queue w1) = EvAck (qm_ID msg) ok #
      job_published P (qm_JobID msg) (job_of_row (completed_row worker (append_all None rs) ?now r)) @
      job_published P (qm_JobID msg) (job_of_row (running_set ?now (claim_set worker lease_duration ?now r))) @
      snd (wd_queue w)" by metis
  then show ?thesis
    by (intro exI [of _ "completed_row worker (append_all None rs) ?now r"]
        exI [of _ "job_of_row (running_set ?now (claim_set worker lease_duration ?now r))"] exI [of _ ok])
      (simp add: running_job_sel)
qed

definition pool_example :: "nat os_host \<Rightarrow> nat sandbox_runtime \<Rightarrow> (nat \<times> queue_event list, nat) pool" where
  "pool_example H R =
     \<lparr>pl_redis = logged_redis silent_redis, pl_queue = new_redis_queue ''jobs'' ''g'' 10,
      pl_engine =
        \<lparr>en_redis = logged_redis silent_redis, en_queue = new_redis_queue ''jobs'' ''g'' 10, en_host = H,
         en_sandbox = R, en_registry = main_registry, en_comparators = main_comparators, en_analyzer = None,
         en_clock = (\<lambda>h. 7), en_json = (\<lambda>s. Some [])\<rparr>,
      pl_host = H, pl_sandbox = R, pl_registry = main_registry, pl_numWorkers = 2, pl_instanceID = ''i'',
      pl_status = WorkerActive, pl_json = (\<lambda>job. Some (ej_ID job))\<rparr>"

definition message_example :: queue_message where
  "message_example = \<lparr>qm_ID = ''1-0'', qm_JobID = ''exec_1'', qm_JobType = ''run''\<rparr>"

definition queued_world :: "(nat \<times> queue_event list, nat) world" where
  "queued_world = \<lparr>wd_db = database_example [row_example JobQueued None 0 5], wd_queue = (0, []), wd_host = 0\<rparr>"

lemma python_executor: "get_executor main_registry ''python'' = Inr (PythonExecutor (profile_or_zero ''python''))"
  by (simp add: get_executor_def main_registry_simps)

lemma python_valid: "python_validate \<lparr>rq_Language = ''python'', rq_SourceCode = ''print(1)'', rq_Input = i\<rparr> = None"
proof -
  have "trim_space ''print(1)'' = ''print(1)''" by code_simp
  then show ?thesis by (simp add: validate_defs)
qed

lemma execute_all_example:
  "execute_all (pool_example host_example runtime_example) (job_of_row (row_example JobQueued None 0 5))
     (elems (unmarshal (er_inputs (row_example JobQueued None 0 5)))) 0 = Some ([result_of StatusSuccess ''ok'' [] 0], 0)"
  by (simp add: row_example_def job_of_row_def run_request_def pool_example_def execute_request_def python_executor
      python_valid execute_in_workspace_def execute_in_container_def run_in_container_def ex_Execute_def
      compile_defs compile_with_def write_source_def Let_def host_example_def runtime_example_def classify_def
      platform_error_def)

lemma queued_world_facts:
  "db_script (wd_db queued_world) = []" "table_ok (wd_db queued_world)"
  "find_row er_id (qm_JobID message_example) (db_executions (wd_db queued_world)) = Some (row_example JobQueued None 0 5)"
  "claim_where (qm_JobID message_example) (db_now (wd_db queued_world)) (row_example JobQueued None 0 5)"
  "er_attempt_count (row_example JobQueued None 0 5) < int4_max" "qm_JobType message_example \<noteq> ''submission''"
  "wd_host queued_world = 0"
  using example_ok [of 5]
  by (simp_all add: queued_world_def message_example_def example_defs claim_where_def retry_due_def int4_max_def)

theorem undisturbed_run_completes_witness:
  "\<exists>q. find_row er_id ''exec_1'' (db_executions (wd_db (process_message (pool_example host_example runtime_example)
      message_example ''w'' False queued_world))) = Some q \<and> er_job_status q = JobCompleted \<and>
    er_results q = Some (JArray [enc_result (result_of StatusSuccess ''ok'' [] 0)])"
proof -
  have redis: "pl_redis (pool_example host_example runtime_example) = logged_redis silent_redis"
    by (simp add: pool_example_def)
  have store: "list_all result_storable [result_of StatusSuccess ''ok'' [] 0]"
    by (simp add: result_storable_def no_nul_def)
  note q = queued_world_facts
  from undisturbed_run_completes [OF redis q(1-5) execute_all_example [folded q(7)] store q(6) refl, of "''w''" False]
  show ?thesis by (auto simp: message_example_def append_all_def)
qed


definition killing_host :: "nat os_host" where
  "killing_host = host_example\<lparr>oh_spawn := (\<lambda>opts n. (\<lparr>pr_start = None, pr_writes = [], pr_select = CtxDone,
      pr_cause = Some ContextCanceled\<rparr>, n))\<rparr>"

lemma killing_host_kills: "kills_children killing_host"
  by (simp add: kills_children_def killing_host_def run_process_def stream_chunks_def new_bounded_writer_def Let_def)

lemma execute_all_killed:
  "\<exists>rs h1. execute_all (pool_example killing_host (docker_runtime killing_host ''/s'')) (job_of_row (row_example JobQueued None 0 5))
     (elems (unmarshal (er_inputs (row_example JobQueued None 0 5)))) 0 = Some ([rs], h1) \<and> rs_Stdout rs = [] \<and> rs_Stderr rs = []"
proof -
  have trim: "trim_space (''c1'' @ [newline]) = ''c1''" by code_simp
  show ?thesis
    by (simp add: row_example_def job_of_row_def run_request_def pool_example_def execute_request_def python_executor
        python_valid [simplified] execute_in_workspace_def execute_in_container_def run_in_container_def ex_Execute_def
        compile_defs compile_with_def write_source_def Let_def docker_runtime_def docker_start_container_def
        docker_exec_def killing_host_def host_example_def run_process_def trim [simplified] stream_chunks_def
        new_bounded_writer_def select_exit_err_def exit_code_of_def classify_def platform_error_def)
qed




end
