(* ===== verification/Go_Num.thy ===== *)
theory Go_Num imports Bounded_Writer Go_Float begin

text \<open>
  The two parsers of the standard library that the configuration is read with, at machine width:
  \<^verbatim>\<open>strconv.ParseInt(s, 10, 64)\<close> and \<^verbatim>\<open>time.ParseDuration\<close>, and the proof that the first
  one reads back every printed decimal that fits in 64 bits and refuses all others.
\<close>

type_synonym u64 = "64 word"

text \<open>\<^verbatim>\<open>NumError.Err\<close>\<close>

datatype num_error = SyntaxError | RangeError

section \<open>Chaining of fallible steps\<close>

text \<open>\<^verbatim>\<open>x, err := f(); if err != nil { return nil, err }; ...\<close>\<close>

definition attempt :: "'e + 'a \<Rightarrow> ('a \<Rightarrow> 'e + 'b) \<Rightarrow> 'e + 'b" where
  "attempt r f = (case r of Inl e \<Rightarrow> Inl e | Inr x \<Rightarrow> f x)"

lemma attempt_simps [simp]: "attempt (Inl e) f = Inl e" "attempt (Inr x) f = f x"
  by (simp_all add: attempt_def)

named_theorems return_iff \<open>when a chain of fallible steps returns\<close>

lemma attempt_Inr_iff [return_iff]: "attempt r f = Inr y \<longleftrightarrow> (\<exists>x. r = Inr x \<and> f x = Inr y)"
  by (cases r) auto

lemma attempt_Inl_iff: "attempt r f = Inl e \<longleftrightarrow> r = Inl e \<or> (\<exists>x. r = Inr x \<and> f x = Inl e)"
  by (cases r) auto

lemma if_Inl_Inr_iff [return_iff]: "(if b then Inl e else r) = Inr x \<longleftrightarrow> \<not> b \<and> r = Inr x"
  by simp

section \<open>strconv.ParseInt\<close>

text \<open>
  The loop of \<^verbatim>\<open>ParseUint\<close> for base 10 and 64 bits: a product that would wrap is refused by the test
  against the cut-off, a wrapped sum by the comparison with its summand.
\<close>

fun parse_digits :: "u64 \<Rightarrow> string \<Rightarrow> num_error + u64" where
  "parse_digits n [] = Inr n"
| "parse_digits n (c # cs) =
     (case dec_digit c of
        None \<Rightarrow> Inl SyntaxError
      | Some d \<Rightarrow>
          (if 1844674407370955162 \<le> n then Inl RangeError
           else let n1 = n * 10 + word_of_int d
                in if n1 < n * 10 then Inl RangeError else parse_digits n1 cs))"

definition parse_uint :: "string \<Rightarrow> num_error + u64" where
  "parse_uint s = (if s = [] then Inl SyntaxError else parse_digits 0 s)"

definition parse_int :: "string \<Rightarrow> num_error + i64" where
  "parse_int s =
     (if s = [] then Inl SyntaxError
      else let (neg, t) = strip_sign s
           in attempt (parse_uint t)
                (\<lambda>un. if \<not> neg \<and> 9223372036854775808 \<le> un then Inl RangeError
                      else if neg \<and> 9223372036854775808 < un then Inl RangeError
                      else Inr (if neg then - un else un)))"

text \<open>The number a row of digits denotes, read from the left.\<close>

fun dec_value :: "nat \<Rightarrow> string \<Rightarrow> nat option" where
  "dec_value n [] = Some n"
| "dec_value n (c # cs) = (case dec_digit c of None \<Rightarrow> None | Some d \<Rightarrow> dec_value (n * 10 + nat d) cs)"

lemma dec_digit_range: "dec_digit c = Some d \<Longrightarrow> 0 \<le> d \<and> d \<le> 9"
proof -
  assume "dec_digit c = Some d"
  then have "48 \<le> (of_char c :: nat)" "(of_char c :: nat) \<le> 57" "d = int (of_char c) - 48"
    by (auto simp: dec_digit_def byte_in_def of_nat_of_char split: if_splits)
  then show ?thesis by linarith
qed

lemma dec_value_ge: "dec_value n s = Some v \<Longrightarrow> n \<le> v"
  by (induction n s rule: dec_value.induct) (fastforce split: option.splits)+

lemma next_digit:
  fixes n :: u64
  assumes "\<not> 1844674407370955162 \<le> n" and "0 \<le> d" "d \<le> 9"
  shows "n * 10 + word_of_int d < n * 10 \<longleftrightarrow> 2 ^ 64 \<le> unat n * 10 + nat d"
    and "unat n * 10 + nat d < 2 ^ 64 \<Longrightarrow> unat (n * 10 + word_of_int d) = unat n * 10 + nat d"
proof -
  have small: "unat n \<le> 1844674407370955161" using assms(1) by (simp add: word_le_nat_alt)
  have u10: "unat (n * 10) = unat n * 10" using small by (simp add: unat_word_ariths)
  have ud: "unat (word_of_int d :: u64) = nat d" using assms(2,3)
    by (simp add: unat_eq_nat_uint uint_word_of_int)
  have sum: "unat (n * 10 + word_of_int d) = (unat n * 10 + nat d) mod 2 ^ 64"
    by (simp only: unat_word_ariths(1)) (simp add: u10 ud)
  show "unat n * 10 + nat d < 2 ^ 64 \<Longrightarrow> unat (n * 10 + word_of_int d) = unat n * 10 + nat d"
    by (simp only: sum mod_less)
  have "nat d \<le> 9" using assms(3) by simp
  then show "n * 10 + word_of_int d < n * 10 \<longleftrightarrow> 2 ^ 64 \<le> unat n * 10 + nat d"
    using small by (simp only: word_less_nat_alt sum u10) (auto simp: mod_if)
qed

lemma dec_value_high: "2 ^ 64 \<le> m \<Longrightarrow> dec_value m s = Some v \<Longrightarrow> 2 ^ 64 \<le> v"
  using dec_value_ge [of m s v] by linarith

text \<open>The loop computes the number where it fits in 64 bits and reports a range error otherwise.\<close>

lemma parse_digits_value:
  "dec_value (unat n) s = Some v \<Longrightarrow>
   parse_digits n s = (if v < 2 ^ 64 then Inr (word_of_nat v) else Inl RangeError)"
proof (induction n s rule: parse_digits.induct)
  case (1 n)
  have "unat n < 2 ^ LENGTH(64)" by (rule unsigned_less)
  with 1 show ?case by auto
next
  case (2 n c cs)
  then obtain d where d: "dec_digit c = Some d" "dec_value (unat n * 10 + nat d) cs = Some v"
    by (auto split: option.splits)
  note r = dec_digit_range [OF d(1)]
  show ?case
  proof (cases "2 ^ 64 \<le> unat n * 10 + nat d")
    case True
    with d(2) have "\<not> v < 2 ^ 64" using dec_value_high by fastforce
    with True d(1) r next_digit(1) [of n d] show ?thesis by (auto simp: Let_def)
  next
    case False
    then have "\<not> 1844674407370955162 \<le> n" using r by (simp add: word_le_nat_alt)
    with False r next_digit [of n d] have n1: "\<not> n * 10 + word_of_int d < n * 10"
      "unat (n * 10 + word_of_int d) = unat n * 10 + nat d" by auto
    with 2(1) [OF d(1) \<open>\<not> 1844674407370955162 \<le> n\<close> refl n1(1)] d \<open>\<not> 1844674407370955162 \<le> n\<close>
    show ?thesis by (simp add: Let_def)
  qed
qed

lemma parse_digits_bad: "dec_value m s = None \<Longrightarrow> \<exists>e. parse_digits n s = Inl e"
  by (induction n s arbitrary: m rule: parse_digits.induct) (auto simp: Let_def split: option.splits)

text \<open>Printed decimals read back.\<close>

lemma digit_char_digit: "d < 10 \<Longrightarrow> dec_digit (digit_char d) = Some (int d)"
proof -
  assume d: "d < 10"
  then have "(of_char (digit_char d) :: nat) = 48 + d" by (simp add: digit_char_def)
  moreover have "(of_char (digit_char d) :: int) = int (of_char (digit_char d))" by (simp only: of_nat_of_char)
  ultimately show ?thesis using d by (simp add: dec_digit_def byte_in_def)
qed

lemma dec_value_append: "dec_value m s = Some v \<Longrightarrow> dec_value m (s @ t) = dec_value v t"
  by (induction m s rule: dec_value.induct) (auto split: option.splits)

lemma dec_value_printed: "dec_value 0 (dec_of_nat n) = Some n"
proof (induction n rule: dec_of_nat.induct)
  case (1 n)
  show ?case
  proof (cases "n < 10")
    case True
    then show ?thesis by (subst dec_of_nat.simps) (simp add: digit_char_digit)
  next
    case False
    with 1 dec_value_append show ?thesis
      by (subst dec_of_nat.simps) (simp add: digit_char_digit)
  qed
qed

lemma dec_of_nat_nonempty [simp]: "dec_of_nat n \<noteq> []"
  by (subst dec_of_nat.simps) simp

lemma dec_value_head: "dec_value m (c # cs) = Some v \<Longrightarrow> dec_digit c \<noteq> None"
  by (auto split: option.splits)

lemma dec_of_nat_unsigned: "strip_sign (dec_of_nat n) = (False, dec_of_nat n)"
proof -
  obtain c cs where c: "dec_of_nat n = c # cs" using dec_of_nat_nonempty [of n] by (cases "dec_of_nat n") auto
  with dec_value_printed [of n] have "dec_digit c \<noteq> None" using dec_value_head by metis
  then have "c \<noteq> CHR ''+''" "c \<noteq> CHR ''-''" by (auto simp: dec_digit_def byte_in_def)
  with c show ?thesis by (simp add: strip_sign_def)
qed

lemma parse_uint_printed: "parse_uint (dec_of_nat n) = (if n < 2 ^ 64 then Inr (word_of_nat n) else Inl RangeError)"
  using parse_digits_value [of 0 "dec_of_nat n" n] dec_value_printed [of n] by (simp add: parse_uint_def)

text \<open>Every decimal of the signed range reads back as itself, every other one is out of range.\<close>

definition int64_range :: "int \<Rightarrow> bool" where
  "int64_range i \<longleftrightarrow> - 9223372036854775808 \<le> i \<and> i < 9223372036854775808"

lemma word_nat_le: "n < 2 ^ 64 \<Longrightarrow> (9223372036854775808 :: u64) \<le> word_of_nat n \<longleftrightarrow> 9223372036854775808 \<le> n"
  and word_nat_less: "n < 2 ^ 64 \<Longrightarrow> (9223372036854775808 :: u64) < word_of_nat n \<longleftrightarrow> 9223372036854775808 < n"
  by (simp_all add: word_le_nat_alt word_less_nat_alt unat_of_nat)

lemma parse_int_printed:
  "parse_int (dec_of_int i) = (if int64_range i then Inr (word_of_int i) else Inl RangeError)"
proof (cases "i < 0")
  case True
  define n where "n = nat (- i)"
  have i: "i = - int n" and n0: "0 < n" using True by (simp_all add: n_def)
  have s: "strip_sign (CHR ''-'' # dec_of_nat n) = (True, dec_of_nat n)" by (simp add: strip_sign_def)
  have "parse_int (dec_of_int i) =
      (if n < 2 ^ 64 \<and> n \<le> 9223372036854775808 then Inr (- word_of_nat n) else Inl RangeError)"
    using True by (simp add: dec_of_int_def parse_int_def s parse_uint_printed word_nat_less
        flip: n_def)
  then show ?thesis using n0 by (auto simp: i int64_range_def)
next
  case False
  define n where "n = nat i"
  have i: "i = int n" using False by (simp add: n_def)
  have "parse_int (dec_of_int i) =
      (if n < 2 ^ 64 \<and> n < 9223372036854775808 then Inr (word_of_nat n) else Inl RangeError)"
    using False by (simp add: dec_of_int_def parse_int_def dec_of_nat_unsigned parse_uint_printed word_nat_le
        not_le flip: n_def)
  then show ?thesis by (auto simp: i int64_range_def)
qed

lemma sint_printed: "int64_range i \<Longrightarrow> sint (word_of_int i :: i64) = i"
  by (simp only: sint_sbintrunc') (simp add: int64_range_def signed_take_bit_int_eq_self)

section \<open>time.ParseDuration\<close>

fun f64_mul :: "f64 \<Rightarrow> f64 \<Rightarrow> f64" where
  "f64_mul F_NaN y = F_NaN"
| "f64_mul x F_NaN = F_NaN"
| "f64_mul (F_Inf n) (F_Inf m) = F_Inf (n \<noteq> m)"
| "f64_mul (F_Inf n) (F_Fin y) = (if y = 0 then F_NaN else F_Inf (n \<noteq> (y < 0)))"
| "f64_mul (F_Fin x) (F_Inf m) = (if x = 0 then F_NaN else F_Inf (m \<noteq> (x < 0)))"
| "f64_mul (F_Fin x) (F_Fin y) = round64 (x * y)"

text \<open>Division, by the positive zero where the divisor is zero (the program's divisors are at least 1).\<close>

fun f64_div :: "f64 \<Rightarrow> f64 \<Rightarrow> f64" where
  "f64_div F_NaN y = F_NaN"
| "f64_div x F_NaN = F_NaN"
| "f64_div (F_Inf n) (F_Inf m) = F_NaN"
| "f64_div (F_Inf n) (F_Fin y) = F_Inf (n \<noteq> (y < 0))"
| "f64_div (F_Fin x) (F_Inf m) = F_Fin 0"
| "f64_div (F_Fin x) (F_Fin y) =
     (if y = 0 then if x = 0 then F_NaN else F_Inf (x < 0) else round64 (x / y))"

definition f64_of_u64 :: "u64 \<Rightarrow> f64" where
  "f64_of_u64 w = round64 (of_int (uint w))"

text \<open>
  \<^verbatim>\<open>uint64(x)\<close> cuts the fraction off; the program converts only values below \<open>3.6 * 10 ^ 12\<close>, and
  what Go leaves to the machine (NaN, infinities, values out of range) is 0 or wraps here.
\<close>

fun u64_of_f64 :: "f64 \<Rightarrow> u64" where
  "u64_of_f64 (F_Fin x) = word_of_int \<lfloor>x\<rfloor>"
| "u64_of_f64 _ = 0"

text \<open>\<^verbatim>\<open>leadingInt\<close>: \<open>None\<close> where the number does not fit.\<close>

fun leading_int :: "u64 \<Rightarrow> string \<Rightarrow> (u64 \<times> string) option" where
  "leading_int x [] = Some (x, [])"
| "leading_int x (c # cs) =
     (case dec_digit c of
        None \<Rightarrow> Some (x, c # cs)
      | Some d \<Rightarrow>
          (if 922337203685477580 < x then None
           else let x1 = x * 10 + word_of_int d
                in if 9223372036854775808 < x1 then None else leading_int x1 cs))"

text \<open>\<^verbatim>\<open>leadingFraction\<close>: digits that no longer fit are read and dropped.\<close>

fun leading_fraction :: "bool \<Rightarrow> u64 \<Rightarrow> f64 \<Rightarrow> string \<Rightarrow> u64 \<times> f64 \<times> string" where
  "leading_fraction overflow x scale [] = (x, scale, [])"
| "leading_fraction overflow x scale (c # cs) =
     (case dec_digit c of
        None \<Rightarrow> (x, scale, c # cs)
      | Some d \<Rightarrow>
          (if overflow \<or> 922337203685477580 < x then leading_fraction True x scale cs
           else let y = x * 10 + word_of_int d
                in if 9223372036854775808 < y then leading_fraction True x scale cs
                   else leading_fraction False y (f64_mul scale (F_Fin 10)) cs))"

text \<open>\<^verbatim>\<open>unitMap\<close>, in nanoseconds; the two spellings of the micro sign are U+00B5 and U+03BC.\<close>

definition duration_unit :: "string \<Rightarrow> u64 option" where
  "duration_unit u =
     (if u = ''ns'' then Some 1
      else if u \<in> {''us'', [CHR 0xC2, CHR 0xB5, CHR ''s''], [CHR 0xCE, CHR 0xBC, CHR ''s'']} then Some 1000
      else if u = ''ms'' then Some 1000000
      else if u = ''s'' then Some 1000000000
      else if u = ''m'' then Some 60000000000
      else if u = ''h'' then Some 3600000000000
      else None)"

definition unit_char :: "char \<Rightarrow> bool" where
  "unit_char c \<longleftrightarrow> c \<noteq> CHR ''.'' \<and> dec_digit c = None"

text \<open>The optional fraction: its digits, its scale, the rest, and whether there were digits.\<close>

definition read_fraction :: "string \<Rightarrow> u64 \<times> f64 \<times> string \<times> bool" where
  "read_fraction s =
     (if s \<noteq> [] \<and> hd s = CHR ''.''
      then case leading_fraction False 0 (F_Fin 1) (tl s) of
             (f, scale, t) \<Rightarrow> (f, scale, t, length t \<noteq> length (tl s))
      else (0, F_Fin 1, s, False))"

text \<open>A number with its unit in nanoseconds.\<close>

definition in_unit :: "u64 \<Rightarrow> u64 \<Rightarrow> f64 \<Rightarrow> u64 \<Rightarrow> u64 option" where
  "in_unit v f scale unit =
     (if 9223372036854775808 div unit < v then None
      else if 0 < f
           then let v1 = v * unit + u64_of_f64 (f64_mul (f64_of_u64 f) (f64_div (f64_of_u64 unit) scale))
                in if 9223372036854775808 < v1 then None else Some v1
           else Some (v * unit))"

text \<open>One round of the loop: a number with its unit, and what follows it.\<close>

definition duration_part :: "string \<Rightarrow> (u64 \<times> string) option" where
  "duration_part s =
     (if s = [] \<or> hd s \<noteq> CHR ''.'' \<and> dec_digit (hd s) = None then None
      else case leading_int 0 s of
             None \<Rightarrow> None
           | Some (v, s1) \<Rightarrow>
             (case read_fraction s1 of (f, scale, s2, post) \<Rightarrow>
               (if length s1 = length s \<and> \<not> post then None
                else if takeWhile unit_char s2 = [] then None
                else case duration_unit (takeWhile unit_char s2) of
                       None \<Rightarrow> None
                     | Some unit \<Rightarrow> map_option (\<lambda>v1. (v1, dropWhile unit_char s2)) (in_unit v f scale unit))))"

lemma leading_int_length: "leading_int x s = Some (v, t) \<Longrightarrow> length t \<le> length s"
  by (induction x s rule: leading_int.induct) (auto simp: Let_def intro: le_SucI split: option.splits if_splits)

lemma leading_fraction_length: "leading_fraction ov x sc s = (f, sc1, t) \<Longrightarrow> length t \<le> length s"
  by (induction ov x sc s rule: leading_fraction.induct) (auto simp: Let_def intro: le_SucI split: option.splits if_splits)

lemma read_fraction_length: "read_fraction s = (f, scale, t, post) \<Longrightarrow> length t \<le> length s"
  using leading_fraction_length [of False 0 "F_Fin 1" "tl s"]
  by (cases s) (auto simp: read_fraction_def intro: le_SucI split: prod.splits if_splits)

lemma drop_unit_length: "takeWhile unit_char s \<noteq> [] \<Longrightarrow> length (dropWhile unit_char s) < length s"
  by (cases s) (auto simp: le_imp_less_Suc length_dropWhile_le split: if_splits)

lemma duration_part_shorter: "duration_part s = Some (v, t) \<Longrightarrow> length t < length s"
  by (auto simp: duration_part_def split: if_splits option.splits prod.splits
      dest!: leading_int_length read_fraction_length drop_unit_length)

function duration_loop :: "u64 \<Rightarrow> string \<Rightarrow> u64 option" where
  "duration_loop d s =
     (if s = [] then Some d
      else case duration_part s of
             None \<Rightarrow> None
           | Some (v, t) \<Rightarrow> (if 9223372036854775808 < d + v then None else duration_loop (d + v) t))"
  by pat_completeness auto
termination by (relation "measure (length \<circ> snd)") (auto dest: duration_part_shorter)

declare duration_loop.simps [simp del]

text \<open>\<open>None\<close> stands for the errors, which differ in their text only.\<close>

definition parse_duration :: "string \<Rightarrow> i64 option" where
  "parse_duration s =
     (let (neg, t) = strip_sign s
      in if t = ''0'' then Some 0
         else if t = [] then None
         else case duration_loop 0 t of
                None \<Rightarrow> None
              | Some d \<Rightarrow> (if neg then Some (- d) else if 9223372036854775807 < d then None else Some d))"

text \<open>Whole seconds read back while they fit in 63 bits of nanoseconds.\<close>

lemma leading_int_value:
  assumes "dec_digit c = None"
  shows "dec_value (unat x) s = Some v \<Longrightarrow> v \<le> 9223372036854775808 \<Longrightarrow>
    leading_int x (s @ c # t) = Some (word_of_nat v, c # t)"
proof (induction x s rule: leading_int.induct)
  case (1 x)
  then show ?case using assms by auto
next
  case (2 x a s)
  then obtain d where d: "dec_digit a = Some d" "dec_value (unat x * 10 + nat d) s = Some v"
    by (auto split: option.splits)
  note r = dec_digit_range [OF d(1)]
  have le: "unat x * 10 + nat d \<le> 9223372036854775808" using dec_value_ge [OF d(2)] 2(3) by linarith
  then have x: "\<not> 922337203685477580 < x" "\<not> 1844674407370955162 \<le> x"
    by (simp_all add: word_less_nat_alt word_le_nat_alt)
  have u: "unat (x * 10 + word_of_int d) = unat x * 10 + nat d"
    using next_digit(2) [OF x(2) r [THEN conjunct1] r [THEN conjunct2]] le by simp
  then have n: "\<not> 9223372036854775808 < x * 10 + word_of_int d" using le by (simp add: word_less_nat_alt)
  from 2(1) [OF d(1) x(1) refl n] d u 2(3) x n show ?case by (simp add: Let_def)
qed

lemma parse_seconds:
  assumes "n * 1000000000 < 9223372036854775808"
  shows "parse_duration (dec_of_nat n @ ''s'') = Some (word_of_nat (n * 1000000000))"
proof -
  obtain c cs where c: "dec_of_nat n = c # cs" using dec_of_nat_nonempty [of n] by (cases "dec_of_nat n") auto
  with dec_value_printed [of n] obtain d where d: "dec_digit c = Some d" using dec_value_head by (metis not_None_eq)
  then have sign: "c \<noteq> CHR ''+''" "c \<noteq> CHR ''-''" by (auto simp: dec_digit_def byte_in_def)
  have s: "dec_digit (CHR ''s'') = None" by (simp add: dec_digit_def byte_in_def)
  have li: "leading_int 0 (c # cs @ ''s'') = Some (word_of_nat n, ''s'')"
    using leading_int_value [OF s, of 0 "c # cs" n "[]"] dec_value_printed [of n] assms c by simp
  have n: "\<not> 9223372036854775808 div 1000000000 < (word_of_nat n :: u64)"
    using assms by (simp add: word_less_nat_alt unat_of_nat unat_div)
  have part: "duration_part (c # cs @ ''s'') = Some (word_of_nat (n * 1000000000), [])"
    using n by (simp del: leading_int.simps add: duration_part_def li d read_fraction_def unit_char_def s duration_unit_def in_unit_def)
  have le: "\<not> 9223372036854775808 < (word_of_nat (n * 1000000000) :: u64)"
    "\<not> 9223372036854775807 < (word_of_nat (n * 1000000000) :: u64)"
    using assms by (simp_all only: word_less_nat_alt unat_of_nat) simp_all
  have "duration_loop 0 (c # cs @ ''s'') = Some (word_of_nat (n * 1000000000))"
    using le by (subst duration_loop.simps) (simp add: part duration_loop.simps)
  with sign le c show ?thesis by (simp add: parse_duration_def strip_sign_def)
qed

end
