(* ===== verification/Http.thy ===== *)
theory Http imports Go_Num begin

text \<open>
  The HTTP layer: requests and response writers of \<^verbatim>\<open>net/http\<close> as the program uses them, the
  middleware of \<^verbatim>\<open>backend/internal/platform/http\<close> (\<^verbatim>\<open>cors.go\<close>, \<^verbatim>\<open>middleware.go\<close>) and the matching
  of \<^verbatim>\<open>http.ServeMux\<close> for patterns without hosts. Headers are a total function from canonical names, as
  \<^verbatim>\<open>Header.Get\<close> gives the empty string for an absent one; headers that \<^verbatim>\<open>net/http\<close> adds by
  itself (\<^verbatim>\<open>Date\<close>, \<^verbatim>\<open>Content-Length\<close>, a sniffed \<^verbatim>\<open>Content-Type\<close>) are left out.
\<close>

section \<open>Requests and response writers\<close>

type_synonym headers = "string \<Rightarrow> string"

text \<open>
  \<open>hq_segments\<close> are the unescaped segments of the path, \<^verbatim>\<open>/a/b/\<close> having the last segment empty, and
  \<open>hq_clean\<close> tells that \<^verbatim>\<open>cleanPath\<close> leaves the escaped path as it is; \<open>hq_vars\<close> are the path values
  set by the multiplexer, \<open>hq_request_id\<close> the value the context carries under \<^verbatim>\<open>requestIDKey\<close>.
\<close>

record request =
  hq_method :: string
  hq_segments :: "string list"
  hq_clean :: bool
  hq_header :: headers
  hq_body :: string
  hq_vars :: "(string \<times> string) list"
  hq_request_id :: "string option"

definition url_path :: "request \<Rightarrow> string" where
  "url_path r = concat (map (\<lambda>s. CHR ''/'' # s) (hq_segments r))"

definition path_value :: "request \<Rightarrow> string \<Rightarrow> string" where
  "path_value r name = (case map_of (hq_vars r) name of None \<Rightarrow> [] | Some v \<Rightarrow> v)"

text \<open>
  A writer keeps the header map, the status and headers that were sent, and the body: texts, and values
  handed to the JSON encoder. \<open>rw_recorder\<close> is the status of the \<^verbatim>\<open>responseRecorder\<close> around the writer,
  where there is one.
\<close>

record 'b writer =
  rw_header :: headers
  rw_sent :: "(int \<times> headers) option"
  rw_body :: "(string + 'b) list"
  rw_recorder :: "int option"

definition new_writer :: "'b writer" where
  "new_writer = \<lparr>rw_header = (\<lambda>k. []), rw_sent = None, rw_body = [], rw_recorder = None\<rparr>"

definition set_header :: "string \<Rightarrow> string \<Rightarrow> 'b writer \<Rightarrow> 'b writer" where
  "set_header k v w = w\<lparr>rw_header := (rw_header w)(k := v)\<rparr>"

text \<open>A second status is dropped by the server, but the recorder notes it.\<close>

definition write_header :: "int \<Rightarrow> 'b writer \<Rightarrow> 'b writer" where
  "write_header code w =
     w\<lparr>rw_sent := (case rw_sent w of None \<Rightarrow> Some (code, rw_header w) | Some s \<Rightarrow> Some s),
       rw_recorder := map_option (\<lambda>_. code) (rw_recorder w)\<rparr>"

text \<open>A write sends status 200 first where none was sent; the recorder does not see that.\<close>

definition write_body :: "string + 'b \<Rightarrow> 'b writer \<Rightarrow> 'b writer" where
  "write_body b w =
     w\<lparr>rw_sent := (case rw_sent w of None \<Rightarrow> Some (200, rw_header w) | Some s \<Rightarrow> Some s),
       rw_body := rw_body w @ [b]\<rparr>"

definition http_error :: "int \<Rightarrow> string \<Rightarrow> 'b writer \<Rightarrow> 'b writer" where
  "http_error code msg w =
     write_body (Inl (msg @ [newline]))
       (write_header code
         (set_header ''X-Content-Type-Options'' ''nosniff''
           (set_header ''Content-Type'' ''text/plain; charset=utf-8''
             (set_header ''Content-Length'' [] w))))"

text \<open>A handler finishes or panics, with what it has written and done so far.\<close>

datatype handler_exit = Finished | Panicked

type_synonym ('b, 's) handler = "request \<Rightarrow> 'b writer \<Rightarrow> 's \<Rightarrow> handler_exit \<times> 'b writer \<times> 's"

section \<open>Middleware\<close>

datatype log_line = PanicRecovered string | HttpRequest string string string int

text \<open>What the middleware asks of the process: random bytes, and a sink for its log lines.\<close>

record 's platform =
  pf_rand :: "'s \<Rightarrow> 8 word list \<times> 's"
  pf_emit :: "log_line \<Rightarrow> 's \<Rightarrow> 's"

definition websocket_upgrade :: "request \<Rightarrow> bool" where
  "websocket_upgrade r \<longleftrightarrow> hq_header r ''Upgrade'' = ''websocket''"

definition cors_headers :: "'b writer \<Rightarrow> 'b writer" where
  "cors_headers w =
     set_header ''Access-Control-Max-Age'' ''86400''
       (set_header ''Access-Control-Allow-Headers'' ''Content-Type, Authorization''
         (set_header ''Access-Control-Allow-Methods'' ''GET, POST, PUT, DELETE, OPTIONS''
           (set_header ''Access-Control-Allow-Origin'' ''*'' w)))"

definition cors :: "('b, 's) handler \<Rightarrow> ('b, 's) handler" where
  "cors h r w s =
     (if websocket_upgrade r then h r w s
      else if hq_method r = ''OPTIONS'' then (Finished, write_header 204 (cors_headers w), s)
      else h r (cors_headers w) s)"

definition recover_handler :: "'s platform \<Rightarrow> ('b, 's) handler \<Rightarrow> ('b, 's) handler" where
  "recover_handler F h r w s =
     (case h r w s of
        (Finished, w1, s1) \<Rightarrow> (Finished, w1, s1)
      | (Panicked, w1, s1) \<Rightarrow>
          (Finished, write_header 500 (set_header ''Connection'' ''close'' w1),
           pf_emit F (PanicRecovered (url_path r)) s1))"

definition hex_char :: "nat \<Rightarrow> char" where
  "hex_char n = (if n < 10 then digit_char n else char_of (87 + n))"

definition hex_encode :: "8 word list \<Rightarrow> string" where
  "hex_encode bs = concat (map (\<lambda>b. [hex_char (unat b div 16), hex_char (unat b mod 16)]) bs)"

definition generate_request_id :: "'s platform \<Rightarrow> 's \<Rightarrow> string \<times> 's" where
  "generate_request_id F s = (let (bs, s1) = pf_rand F s in (hex_encode bs, s1))"

definition request_id :: "'s platform \<Rightarrow> ('b, 's) handler \<Rightarrow> ('b, 's) handler" where
  "request_id F h r w s =
     (let (reqID, s1) = (if hq_header r ''X-Request-ID'' = [] then generate_request_id F s
                         else (hq_header r ''X-Request-ID'', s))
      in h (r\<lparr>hq_request_id := Some reqID\<rparr>) (set_header ''X-Request-ID'' reqID w) s1)"

definition request_logger :: "'s platform \<Rightarrow> ('b, 's) handler \<Rightarrow> ('b, 's) handler" where
  "request_logger F h r w s =
     (if websocket_upgrade r then h r w s
      else case h r (w\<lparr>rw_recorder := Some 200\<rparr>) s of
             (Panicked, w1, s1) \<Rightarrow> (Panicked, w1\<lparr>rw_recorder := rw_recorder w\<rparr>, s1)
           | (Finished, w1, s1) \<Rightarrow>
               (Finished, w1\<lparr>rw_recorder := rw_recorder w\<rparr>,
                pf_emit F (HttpRequest (case hq_request_id r of None \<Rightarrow> [] | Some i \<Rightarrow> i) (hq_method r) (url_path r)
                            (case rw_recorder w1 of None \<Rightarrow> 200 | Some c \<Rightarrow> c)) s1))"

definition chain :: "('b, 's) handler \<Rightarrow> (('b, 's) handler \<Rightarrow> ('b, 's) handler) list \<Rightarrow> ('b, 's) handler" where
  "chain h middlewares = foldr (\<lambda>m h. m h) middlewares h"

text \<open>The order of \<^verbatim>\<open>server.New\<close>.\<close>

definition with_middleware :: "'s platform \<Rightarrow> ('b, 's) handler \<Rightarrow> ('b, 's) handler" where
  "with_middleware F h = chain h [cors, recover_handler F, request_id F, request_logger F]"

text \<open>What the client gets: a handler that wrote nothing has answered 200.\<close>

definition serve :: "'s platform \<Rightarrow> ('b, 's) handler \<Rightarrow> request \<Rightarrow> 's \<Rightarrow> handler_exit \<times> 'b writer \<times> 's" where
  "serve F h r s =
     (case with_middleware F h r new_writer s of (e, w, s1) \<Rightarrow> (e, write_header 200 w, s1))"

section \<open>Routes\<close>

datatype segment = Lit string | Wild string

record 'a route =
  rt_method :: "string option"
  rt_path :: "segment list"
  rt_subtree :: bool \<comment> \<open>the pattern ends in a slash\<close>
  rt_target :: 'a

text \<open>A wildcard matches one segment that is not empty.\<close>

fun match_segments :: "segment list \<Rightarrow> bool \<Rightarrow> string list \<Rightarrow> (string \<times> string) list option" where
  "match_segments [] subtree ss = (if ss = [] \<and> \<not> subtree \<or> ss \<noteq> [] \<and> subtree then Some [] else None)"
| "match_segments (p # ps) subtree [] = None"
| "match_segments (Lit l # ps) subtree (s # ss) = (if s = l then match_segments ps subtree ss else None)"
| "match_segments (Wild n # ps) subtree (s # ss) =
     (if s = [] then None else map_option (\<lambda>b. (n, s) # b) (match_segments ps subtree ss))"

text \<open>A pattern for \<^verbatim>\<open>GET\<close> also matches \<^verbatim>\<open>HEAD\<close>.\<close>

definition method_matches :: "string option \<Rightarrow> string \<Rightarrow> bool" where
  "method_matches m method \<longleftrightarrow>
     (case m of None \<Rightarrow> True | Some x \<Rightarrow> x = method \<or> x = ''GET'' \<and> method = ''HEAD'')"

definition match_path :: "'a route \<Rightarrow> string list \<Rightarrow> (string \<times> string) list option" where
  "match_path p ss = match_segments (rt_path p) (rt_subtree p) ss"

datatype 'a lookup = Route 'a "(string \<times> string) list" | RedirectToClean | MethodNotAllowed | NotFound

fun find_route :: "'a route list \<Rightarrow> string \<Rightarrow> string list \<Rightarrow> ('a \<times> (string \<times> string) list) option" where
  "find_route [] method ss = None"
| "find_route (p # ps) method ss =
     (case match_path p ss of
        None \<Rightarrow> find_route ps method ss
      | Some b \<Rightarrow> (if method_matches (rt_method p) method then Some (rt_target p, b) else find_route ps method ss))"

definition mux_lookup :: "'a route list \<Rightarrow> request \<Rightarrow> 'a lookup" where
  "mux_lookup ps r =
     (if \<not> hq_clean r \<and> hq_method r \<noteq> ''CONNECT'' then RedirectToClean
      else case find_route ps (hq_method r) (hq_segments r) of
             Some (t, b) \<Rightarrow> Route t b
           | None \<Rightarrow> (if \<exists>p \<in> set ps. match_path p (hq_segments r) \<noteq> None then MethodNotAllowed else NotFound))"

text \<open>A test by which two patterns have no path in common.\<close>

fun disjoint_patterns :: "segment list \<Rightarrow> bool \<Rightarrow> segment list \<Rightarrow> bool \<Rightarrow> bool" where
  "disjoint_patterns [] b [] c \<longleftrightarrow> b \<noteq> c"
| "disjoint_patterns [] b (q # qs) c \<longleftrightarrow> \<not> b"
| "disjoint_patterns (p # ps) b [] c \<longleftrightarrow> \<not> c"
| "disjoint_patterns (Lit x # ps) b (Lit y # qs) c \<longleftrightarrow> x \<noteq> y \<or> disjoint_patterns ps b qs c"
| "disjoint_patterns (p # ps) b (q # qs) c \<longleftrightarrow> disjoint_patterns ps b qs c"

lemma match_Cons_None: "match_segments ps b t = None \<Longrightarrow> match_segments (p # ps) b (s # t) = None"
  by (cases p) auto

lemma disjoint_patterns_sound:
  "disjoint_patterns ps b qs c \<Longrightarrow> match_segments ps b ss = None \<or> match_segments qs c ss = None"
  by (induction ps b qs c arbitrary: ss rule: disjoint_patterns.induct; case_tac ss)
    (auto, (metis match_Cons_None option.distinct(1))+)

lemma find_route_Some:
  "find_route ps method ss = Some (t, b) \<Longrightarrow>
   \<exists>p \<in> set ps. match_path p ss = Some b \<and> method_matches (rt_method p) method \<and> rt_target p = t"
  by (induction ps) (auto split: option.splits if_splits)

lemma find_route_None:
  "find_route ps method ss = None \<Longrightarrow> p \<in> set ps \<Longrightarrow>
   match_path p ss = None \<or> \<not> method_matches (rt_method p) method"
  by (induction ps) (auto split: option.splits if_splits)

end
