(* ===== verification/Api.thy ===== *)
theory Api imports Http Job_Service Judge_Engine begin

text \<open>
  The handlers of \<^verbatim>\<open>backend/internal/server\<close> (\<^verbatim>\<open>server.go\<close> and the execution, problem, run and
  submission handlers), one definition per handler. A handler reads the request, works on the database
  and the queue, and ends with one reply, which \<open>write_reply\<close> writes. Decoding of request bodies,
  ULIDs, the clock and the analyzer are components of the server.
\<close>

section \<open>Replies\<close>

text \<open>The values the handlers give to the JSON encoder.\<close>

datatype api_value =
    StringMap "(string \<times> string) list"
  | QueueFullValue
  | AcceptedValue string job_status
  | ExecutionValue string job_status int "int option" "int option" "execution_result list"
      \<comment> \<open>the optional members are left out where they are nil or empty\<close>
  | JobValue execution_job
  | ProblemValue "f64 problem"
  | FullProblemValue "f64 problem" "test_case slice"
  | TestCaseValue test_case
  | ProblemPage "f64 problem" "test_case list"
  | ProblemList "f64 problem list"
  | SubmissionValue submission
  | AnalysisValue complexity_analysis

text \<open>
  \<open>JsonReply typed code v\<close>: \<^verbatim>\<open>Content-Type\<close> is set where \<open>typed\<close>, \<^verbatim>\<open>WriteHeader\<close> called where there
  is a code, and then \<open>v\<close> encoded.
\<close>

datatype reply = ErrorReply int string | JsonReply bool "int option" api_value

definition write_reply :: "reply \<Rightarrow> api_value writer \<Rightarrow> api_value writer" where
  "write_reply rep w =
     (case rep of
        ErrorReply code msg \<Rightarrow> http_error code msg w
      | JsonReply typed code v \<Rightarrow>
          (let w1 = (if typed then set_header ''Content-Type'' ''application/json'' w else w);
               w2 = (case code of None \<Rightarrow> w1 | Some c \<Rightarrow> write_header c w1)
           in write_body (Inr v) w2))"

definition reply_status :: "reply \<Rightarrow> int" where
  "reply_status rep =
     (case rep of ErrorReply code msg \<Rightarrow> code | JsonReply typed code v \<Rightarrow> (case code of None \<Rightarrow> 200 | Some c \<Rightarrow> c))"

section \<open>Request bodies\<close>

record create_run_request =
  cr_Language :: language
  cr_SourceCode :: string
  cr_Inputs :: "string slice"

record create_submission_request =
  cs_UserID :: string
  cs_Language :: language
  cs_SourceCode :: string

record create_full_problem_request =
  fp_Problem :: "f64 problem"
  fp_TestCases :: "test_case slice"

text \<open>
  The server. The decoders are \<^verbatim>\<open>json.NewDecoder(r.Body).Decode\<close> into a fresh value of their type;
  \<open>ap_new_id\<close> draws the ULID and the time of a new job; \<open>ap_redis_ping\<close> is \<^verbatim>\<open>None\<close> for a nil client,
  and \<open>ap_has_db\<close> tells that the database is not nil.
\<close>

record ('q, 'h) api =
  ap_redis :: "'q redis_client"
  ap_queue :: redis_queue
  ap_registry :: language_registry
  ap_analyzer :: "(string \<Rightarrow> string \<Rightarrow> 'h \<Rightarrow> (goerror + complexity_analysis) \<times> 'h) option"
  ap_shuttingDown :: bool
  ap_has_db :: bool
  ap_redis_ping :: "('q \<Rightarrow> goerror option \<times> 'q) option"
  ap_new_id :: "'h \<Rightarrow> (string \<times> int) \<times> 'h"
  ap_problem :: "string \<Rightarrow> goerror + f64 problem"
  ap_full_problem :: "string \<Rightarrow> goerror + create_full_problem_request"
  ap_test_case :: "string \<Rightarrow> goerror + test_case"
  ap_job_request :: "string \<Rightarrow> goerror + job_request"
  ap_run_request :: "string \<Rightarrow> goerror + create_run_request"
  ap_submission_request :: "string \<Rightarrow> goerror + create_submission_request"

type_synonym ('q, 'h) endpoint = "('q, 'h) api \<Rightarrow> request \<Rightarrow> ('q, 'h) world \<Rightarrow> reply \<times> ('q, 'h) world"

section \<open>Health and version (server.go)\<close>

definition handle_health_live :: "('q, 'h) endpoint" where
  "handle_health_live A r w = (JsonReply True (Some 200) (StringMap [(''status'', ''ok'')]), w)"

definition ping_db :: "database \<Rightarrow> goerror option \<times> database" where
  "ping_db d = (case run_stmt (query (\<lambda>d. Inr ())) d of (Inl err, d1) \<Rightarrow> (Some err, d1) | (Inr u, d1) \<Rightarrow> (None, d1))"

definition unavailable :: "string \<Rightarrow> reply" where
  "unavailable why = JsonReply True (Some 503) (StringMap [(''status'', why)])"

definition ready_redis :: "('q, 'h) endpoint" where
  "ready_redis A r w =
     (case ap_redis_ping A of
        None \<Rightarrow> (JsonReply True (Some 200) (StringMap [(''status'', ''ok'')]), w)
      | Some ping \<Rightarrow>
          (case ping (wd_queue w) of
             (Some err, s) \<Rightarrow> (unavailable ''redis_unavailable'', w\<lparr>wd_queue := s\<rparr>)
           | (None, s) \<Rightarrow> (JsonReply True (Some 200) (StringMap [(''status'', ''ok'')]), w\<lparr>wd_queue := s\<rparr>)))"

definition handle_health_ready :: "('q, 'h) endpoint" where
  "handle_health_ready A r w =
     (if ap_shuttingDown A then (unavailable ''shutting_down'', w)
      else if ap_has_db A
      then case ping_db (wd_db w) of
             (Some err, d) \<Rightarrow> (unavailable ''postgres_unavailable'', w\<lparr>wd_db := d\<rparr>)
           | (None, d) \<Rightarrow> ready_redis A r (w\<lparr>wd_db := d\<rparr>)
      else ready_redis A r w)"

definition handle_version :: "('q, 'h) endpoint" where
  "handle_version A r w = (JsonReply True (Some 200) (StringMap [(''version'', ''1.0.0'')]), w)"

section \<open>Executions (execution_handler.go)\<close>

text \<open>The call of the job service, with a fresh ULID and time.\<close>

definition call_create :: "('q, 'h) api \<Rightarrow> job_request \<Rightarrow> ('q, 'h) world \<Rightarrow> (goerror + execution_job) \<times> ('q, 'h) world" where
  "call_create A req w =
     (let ((ulid, now), h) = ap_new_id A (wd_host w);
          (res, d, s) = create_execution (ap_redis A) (ap_queue A) (ap_registry A) ulid now req (wd_db w, wd_queue w)
      in (res, w\<lparr>wd_db := d, wd_queue := s, wd_host := h\<rparr>))"

definition create_failure :: "goerror \<Rightarrow> reply" where
  "create_failure err =
     (if errors_is err ErrQueueFull then JsonReply True (Some 429) QueueFullValue
      else if contains_sub ''required'' (error_text err) then ErrorReply 400 (error_text err)
      else ErrorReply 500 ''Internal Server Error'')"

definition handle_execute :: "('q, 'h) endpoint" where
  "handle_execute A r w =
     (if hq_method r \<noteq> ''POST'' then (ErrorReply 405 ''Method not allowed'', w)
      else case ap_job_request A (hq_body r) of
             Inl err \<Rightarrow> (ErrorReply 400 ''Invalid JSON body'', w)
           | Inr req \<Rightarrow>
               (case call_create A req w of
                  (Inl err, w1) \<Rightarrow> (create_failure err, w1)
                | (Inr job, w1) \<Rightarrow> (JsonReply True (Some 202) (AcceptedValue (ej_ID job) (ej_Status job)), w1)))"

definition guarded_execute :: "('q, 'h) endpoint" where
  "guarded_execute A r w =
     (if ap_shuttingDown A then (ErrorReply 503 ''Service Unavailable - Shutting Down'', w) else handle_execute A r w)"

definition execution_view :: "execution_job \<Rightarrow> api_value" where
  "execution_view job =
     ExecutionValue (ej_ID job) (ej_Status job) (ej_CreatedAt job) (ej_StartedAt job) (ej_CompletedAt job)
       (elems (ej_Results job))"

definition handle_get_execution :: "('q, 'h) endpoint" where
  "handle_get_execution A r w =
     (if hq_method r \<noteq> ''GET'' then (ErrorReply 405 ''Method not allowed'', w)
      else let parts = split_on (CHR ''/'') (url_path r)
           in if length parts < 5 then (ErrorReply 400 ''Missing execution ID'', w)
              else case get_execution (parts ! 4) (wd_db w) of
                     (Inl err, d) \<Rightarrow>
                       (if errors_is err ErrJobNotFound then ErrorReply 404 ''Not found''
                        else ErrorReply 500 ''Internal Server Error'', w\<lparr>wd_db := d\<rparr>)
                   | (Inr job, d) \<Rightarrow> (JsonReply True (Some 200) (execution_view job), w\<lparr>wd_db := d\<rparr>))"

section \<open>Problems (problem_handler.go)\<close>

text \<open>\<^verbatim>\<open>http.Error(w, err.Error(), code)\<close>\<close>

definition error_reply :: "int \<Rightarrow> goerror \<Rightarrow> reply" where
  "error_reply code err = ErrorReply code (error_text err)"

definition create_problem :: "('q, 'h) endpoint" where
  "create_problem A r w =
     (case ap_problem A (hq_body r) of
        Inl err \<Rightarrow> (error_reply 400 err, w)
      | Inr p \<Rightarrow>
          (case problem_create p (wd_db w) of
             (Inl err, d) \<Rightarrow> (error_reply 500 err, w\<lparr>wd_db := d\<rparr>)
           | (Inr p1, d) \<Rightarrow> (JsonReply False (Some 201) (ProblemValue p1), w\<lparr>wd_db := d\<rparr>)))"

text \<open>The loop over the test cases from index \<open>i\<close> on; a sort order of 0 becomes the position.\<close>

definition numbered_case :: "string \<Rightarrow> nat \<Rightarrow> test_case \<Rightarrow> test_case" where
  "numbered_case problemID i t =
     t\<lparr>tc_ProblemID := problemID, tc_SortOrder := (if tc_SortOrder t = 0 then int i + 1 else tc_SortOrder t)\<rparr>"

fun create_test_cases :: "string \<Rightarrow> nat \<Rightarrow> test_case list \<Rightarrow> database \<Rightarrow> (goerror + test_case list) \<times> database" where
  "create_test_cases problemID i [] d = (Inr [], d)"
| "create_test_cases problemID i (t # ts) d =
     (case test_case_create (numbered_case problemID i t) d of
        (Inl err, d1) \<Rightarrow> (Inl err, d1)
      | (Inr t1, d1) \<Rightarrow>
          (case create_test_cases problemID (Suc i) ts d1 of
             (Inl err, d2) \<Rightarrow> (Inl err, d2)
           | (Inr ts1, d2) \<Rightarrow> (Inr (t1 # ts1), d2)))"

definition create_full_problem :: "('q, 'h) endpoint" where
  "create_full_problem A r w =
     (case ap_full_problem A (hq_body r) of
        Inl err \<Rightarrow> (error_reply 400 err, w)
      | Inr req \<Rightarrow>
          (case problem_create (fp_Problem req) (wd_db w) of
             (Inl err, d) \<Rightarrow> (ErrorReply 500 (''failed to create problem: '' @ error_text err), w\<lparr>wd_db := d\<rparr>)
           | (Inr p, d) \<Rightarrow>
               (case create_test_cases (pb_ID p) 0 (elems (fp_TestCases req)) d of
                  (Inl err, d1) \<Rightarrow> (ErrorReply 500 (''failed to create test case: '' @ error_text err), w\<lparr>wd_db := d1\<rparr>)
                | (Inr ts, d1) \<Rightarrow>
                    (JsonReply False (Some 201) (FullProblemValue p (map_option (\<lambda>_. ts) (fp_TestCases req))),
                     w\<lparr>wd_db := d1\<rparr>))))"

definition create_test_case :: "('q, 'h) endpoint" where
  "create_test_case A r w =
     (case ap_test_case A (hq_body r) of
        Inl err \<Rightarrow> (error_reply 400 err, w)
      | Inr t \<Rightarrow>
          (case test_case_create (t\<lparr>tc_ProblemID := path_value r ''id''\<rparr>) (wd_db w) of
             (Inl err, d) \<Rightarrow> (error_reply 500 err, w\<lparr>wd_db := d\<rparr>)
           | (Inr t1, d) \<Rightarrow> (JsonReply False (Some 201) (TestCaseValue t1), w\<lparr>wd_db := d\<rparr>)))"

definition get_problem :: "('q, 'h) endpoint" where
  "get_problem A r w =
     (case problem_get_by_id (path_value r ''id'') (wd_db w) of
        (Inl err, d) \<Rightarrow>
          (if err = ErrProblemNotFound then ErrorReply 404 ''problem not found'' else error_reply 500 err,
           w\<lparr>wd_db := d\<rparr>)
      | (Inr p, d) \<Rightarrow>
          (case test_case_get_by_problem_id (path_value r ''id'') False d of
             (Inl err, d1) \<Rightarrow> (error_reply 500 err, w\<lparr>wd_db := d1\<rparr>)
           | (Inr ts, d1) \<Rightarrow> (JsonReply True None (ProblemPage p ts), w\<lparr>wd_db := d1\<rparr>)))"

definition list_problems :: "('q, 'h) endpoint" where
  "list_problems A r w =
     (case problem_list_all (wd_db w) of
        (Inl err, d) \<Rightarrow> (error_reply 500 err, w\<lparr>wd_db := d\<rparr>)
      | (Inr ps, d) \<Rightarrow> (JsonReply True None (ProblemList ps), w\<lparr>wd_db := d\<rparr>))"

section \<open>Submissions (submission_handler.go)\<close>

text \<open>The zero \<^verbatim>\<open>time.Time\<close>, the first of January of the year 1, in microseconds of the Unix epoch.\<close>

definition zero_time :: int where "zero_time = - 62135596800000000"

definition new_submission :: "f64 problem \<Rightarrow> create_submission_request \<Rightarrow> submission" where
  "new_submission p req =
     \<lparr>sb_ID = [], sb_UserID = cs_UserID req, sb_ProblemID = pb_ID p, sb_Language = cs_Language req,
      sb_SourceCode = cs_SourceCode req, sb_Status = SubmissionStatusQueued, sb_Verdict = VerdictPending,
      sb_ExecutionTimeMs = 0, sb_MemoryUsedBytes = 0, sb_PassedTestCases = 0, sb_TotalTestCases = 0,
      sb_AITimeComplexity = [], sb_AISpaceComplexity = [], sb_AIFeedback = [], sb_CreatedAt = zero_time,
      sb_StartedAt = None, sb_CompletedAt = None\<rparr>"

definition store_submission :: "('q, 'h) api \<Rightarrow> submission \<Rightarrow> ('q, 'h) world \<Rightarrow> reply \<times> ('q, 'h) world" where
  "store_submission A sub w =
     (case submission_create sub (wd_db w) of
        (Inl err, d) \<Rightarrow> (ErrorReply 500 ''failed to create submission'', w\<lparr>wd_db := d\<rparr>)
      | (Inr sub1, d) \<Rightarrow>
          (case enqueue (ap_redis A) (ap_queue A) (sb_ID sub1) ''submission'' (wd_queue w) of
             (Some err, s) \<Rightarrow> (ErrorReply 500 ''failed to queue submission'', w\<lparr>wd_db := d, wd_queue := s\<rparr>)
           | (None, s) \<Rightarrow> (JsonReply False (Some 202) (SubmissionValue sub1), w\<lparr>wd_db := d, wd_queue := s\<rparr>)))"

definition create_submission :: "('q, 'h) endpoint" where
  "create_submission A r w =
     (case ap_submission_request A (hq_body r) of
        Inl err \<Rightarrow> (ErrorReply 400 ''invalid request format'', w)
      | Inr req \<Rightarrow>
          (case problem_get_by_id (path_value r ''id'') (wd_db w) of
             (Inl err, d) \<Rightarrow>
               (if err = ErrProblemNotFound then ErrorReply 404 ''problem not found''
                else ErrorReply 500 ''internal error checking problem'', w\<lparr>wd_db := d\<rparr>)
           | (Inr p, d) \<Rightarrow>
               (if pb_Status p \<noteq> ProblemStatusPublished
                then (ErrorReply 400 ''problem is not published'', w\<lparr>wd_db := d\<rparr>)
                else case get_executor (ap_registry A) (cs_Language req) of
                       Inl err \<Rightarrow> (ErrorReply 400 ''unsupported language'', w\<lparr>wd_db := d\<rparr>)
                     | Inr ex \<Rightarrow> store_submission A (new_submission p req) (w\<lparr>wd_db := d\<rparr>))))"

definition get_submission :: "('q, 'h) endpoint" where
  "get_submission A r w =
     (case submission_get_by_id (path_value r ''id'') (wd_db w) of
        (Inl err, d) \<Rightarrow>
          (if err = ErrSubmissionNotFound then ErrorReply 404 ''submission not found''
           else ErrorReply 500 ''internal error'', w\<lparr>wd_db := d\<rparr>)
      | (Inr s, d) \<Rightarrow> (JsonReply True None (SubmissionValue s), w\<lparr>wd_db := d\<rparr>))"

section \<open>Runs (run_handler.go)\<close>

fun status_text :: "job_status \<Rightarrow> string" where
  "status_text JobQueued = ''QUEUED''"
| "status_text JobClaimed = ''CLAIMED''"
| "status_text JobRunning = ''RUNNING''"
| "status_text JobCompleted = ''COMPLETED''"
| "status_text JobDeadLettered = ''DEAD_LETTERED''"

definition create_run :: "('q, 'h) endpoint" where
  "create_run A r w =
     (case ap_run_request A (hq_body r) of
        Inl err \<Rightarrow> (ErrorReply 400 ''invalid request format'', w)
      | Inr req \<Rightarrow>
          (case get_executor (ap_registry A) (cr_Language req) of
             Inl err \<Rightarrow> (ErrorReply 400 ''unsupported language'', w)
           | Inr ex \<Rightarrow>
               (case call_create A \<lparr>jr_Language = cr_Language req, jr_SourceCode = cr_SourceCode req,
                       jr_Inputs = cr_Inputs req\<rparr> w of
                  (Inl err, w1) \<Rightarrow> (ErrorReply 500 ''failed to create run'', w1)
                | (Inr job, w1) \<Rightarrow>
                    (JsonReply False (Some 202)
                       (StringMap [(''id'', ej_ID job), (''status'', status_text (ej_Status job))]), w1))))"

definition get_run :: "('q, 'h) endpoint" where
  "get_run A r w =
     (case get_execution (path_value r ''id'') (wd_db w) of
        (Inl err, d) \<Rightarrow>
          (if err = ErrJobNotFound then ErrorReply 404 ''run not found'' else ErrorReply 500 ''internal error'',
           w\<lparr>wd_db := d\<rparr>)
      | (Inr job, d) \<Rightarrow> (JsonReply True None (JobValue job), w\<lparr>wd_db := d\<rparr>))"

definition analyze_code :: "('q, 'h) endpoint" where
  "analyze_code A r w =
     (case ap_analyzer A of
        None \<Rightarrow> (ErrorReply 501 ''AI Analysis is not configured on this server'', w)
      | Some analyze \<Rightarrow>
          (case ap_run_request A (hq_body r) of
             Inl err \<Rightarrow> (ErrorReply 400 ''invalid request format'', w)
           | Inr req \<Rightarrow>
               (case analyze (cr_SourceCode req) (cr_Language req) (wd_host w) of
                  (Inl err, h) \<Rightarrow>
                    (ErrorReply 500 (''failed to analyze code: '' @ error_text err), w\<lparr>wd_host := h\<rparr>)
                | (Inr a, h) \<Rightarrow> (JsonReply True None (AnalysisValue a), w\<lparr>wd_host := h\<rparr>))))"

section \<open>Routes (server.go and the RegisterRoutes methods)\<close>

datatype api_target =
    HealthLive | HealthReady | Version | Execute | GetExecution
  | CreateProblem | CreateFullProblem | CreateTestCase | ListProblems | GetProblem
  | CreateSubmission | GetSubmission | CreateRun | GetRun | AnalyzeCode | RunSocket | SubmissionSocket

definition any_method :: "segment list \<Rightarrow> bool \<Rightarrow> api_target \<Rightarrow> api_target route" where
  "any_method path subtree t = \<lparr>rt_method = None, rt_path = path, rt_subtree = subtree, rt_target = t\<rparr>"

definition on_method :: "string \<Rightarrow> segment list \<Rightarrow> api_target \<Rightarrow> api_target route" where
  "on_method m path t = \<lparr>rt_method = Some m, rt_path = path, rt_subtree = False, rt_target = t\<rparr>"

definition server_routes :: "api_target route list" where
  "server_routes =
     [any_method [Lit ''health'', Lit ''live''] False HealthLive,
      any_method [Lit ''health'', Lit ''ready''] False HealthReady,
      any_method [Lit ''api'', Lit ''v1'', Lit ''version''] False Version,
      any_method [Lit ''api'', Lit ''v1'', Lit ''executions''] False Execute,
      any_method [Lit ''api'', Lit ''v1'', Lit ''executions''] True GetExecution]"

definition problem_routes :: "api_target route list" where
  "problem_routes =
     [on_method ''POST'' [Lit ''admin'', Lit ''problems''] CreateProblem,
      on_method ''POST'' [Lit ''admin'', Lit ''problems'', Lit ''full''] CreateFullProblem,
      on_method ''POST'' [Lit ''admin'', Lit ''problems'', Wild ''id'', Lit ''test-cases''] CreateTestCase,
      on_method ''GET'' [Lit ''problems''] ListProblems,
      on_method ''GET'' [Lit ''problems'', Wild ''id''] GetProblem]"

definition submission_routes :: "api_target route list" where
  "submission_routes =
     [on_method ''POST'' [Lit ''problems'', Wild ''id'', Lit ''submissions''] CreateSubmission,
      on_method ''GET'' [Lit ''submissions'', Wild ''id''] GetSubmission]"

definition run_routes :: "api_target route list" where
  "run_routes =
     [on_method ''POST'' [Lit ''run''] CreateRun,
      on_method ''GET'' [Lit ''run'', Wild ''id''] GetRun,
      on_method ''POST'' [Lit ''analyze''] AnalyzeCode]"

definition socket_routes :: "api_target route list" where
  "socket_routes =
     [on_method ''GET'' [Lit ''ws'', Lit ''run'', Wild ''id''] RunSocket,
      on_method ''GET'' [Lit ''ws'', Lit ''submissions'', Wild ''id''] SubmissionSocket]"

definition api_routes :: "api_target route list" where
  "api_routes = server_routes @ problem_routes @ submission_routes @ run_routes @ socket_routes"

text \<open>The handlers of the routes that answer with one reply; the two sockets are in \<^verbatim>\<open>Live_Updates\<close>.\<close>

fun endpoint_of :: "api_target \<Rightarrow> ('q, 'h) endpoint option" where
  "endpoint_of HealthLive = Some handle_health_live"
| "endpoint_of HealthReady = Some handle_health_ready"
| "endpoint_of Version = Some handle_version"
| "endpoint_of Execute = Some guarded_execute"
| "endpoint_of GetExecution = Some handle_get_execution"
| "endpoint_of CreateProblem = Some create_problem"
| "endpoint_of CreateFullProblem = Some create_full_problem"
| "endpoint_of CreateTestCase = Some create_test_case"
| "endpoint_of ListProblems = Some list_problems"
| "endpoint_of GetProblem = Some get_problem"
| "endpoint_of CreateSubmission = Some create_submission"
| "endpoint_of GetSubmission = Some get_submission"
| "endpoint_of CreateRun = Some create_run"
| "endpoint_of GetRun = Some get_run"
| "endpoint_of AnalyzeCode = Some analyze_code"
| "endpoint_of RunSocket = None"
| "endpoint_of SubmissionSocket = None"

text \<open>
  What the server does with a request: it answers, redirects to the cleaned path (the multiplexer's own
  reply, whose code depends on the release of Go), or hands the connection to one of the sockets. The
  multiplexer's 405 also lists the allowed methods.
\<close>

datatype answer = Answered reply | Redirected | Upgrading api_target "(string \<times> string) list"

definition api_request :: "('q, 'h) api \<Rightarrow> request \<Rightarrow> ('q, 'h) world \<Rightarrow> answer \<times> ('q, 'h) world" where
  "api_request A r w =
     (case mux_lookup api_routes r of
        RedirectToClean \<Rightarrow> (Redirected, w)
      | MethodNotAllowed \<Rightarrow> (Answered (ErrorReply 405 ''Method Not Allowed''), w)
      | NotFound \<Rightarrow> (Answered (ErrorReply 404 ''404 page not found''), w)
      | Route t vars \<Rightarrow>
          (case endpoint_of t of
             None \<Rightarrow> (Upgrading t vars, w)
           | Some h \<Rightarrow> (case h A (r\<lparr>hq_vars := vars\<rparr>) w of (rep, w1) \<Rightarrow> (Answered rep, w1))))"

lemmas handler_defs = handle_health_live_def handle_health_ready_def ready_redis_def handle_version_def
  guarded_execute_def handle_execute_def handle_get_execution_def create_problem_def create_full_problem_def
  create_test_case_def list_problems_def get_problem_def create_submission_def store_submission_def
  get_submission_def create_run_def get_run_def analyze_code_def call_create_def

lemmas route_defs = api_routes_def server_routes_def problem_routes_def submission_routes_def run_routes_def
  socket_routes_def any_method_def on_method_def

section \<open>Routing\<close>

lemma api_routes_pairwise:
  "sorted_wrt (\<lambda>p q. disjoint_patterns (rt_path p) (rt_subtree p) (rt_path q) (rt_subtree q)) api_routes"
  by (simp add: route_defs)

text \<open>
  the routes are unambiguous: two patterns of the server never match the same path, so that neither
  their order nor a rule of precedence decides which handler answers.
\<close>

theorem routes_unambiguous:
  assumes "i < length api_routes" "j < length api_routes" and "i \<noteq> j"
  shows "match_path (api_routes ! i) ss = None \<or> match_path (api_routes ! j) ss = None"
proof (cases "i < j")
  case True
  with assms(2) api_routes_pairwise have "disjoint_patterns (rt_path (api_routes ! i)) (rt_subtree (api_routes ! i))
      (rt_path (api_routes ! j)) (rt_subtree (api_routes ! j))" by (auto simp: sorted_wrt_iff_nth_less)
  then show ?thesis unfolding match_path_def by (rule disjoint_patterns_sound)
next
  case False
  with assms api_routes_pairwise have "disjoint_patterns (rt_path (api_routes ! j)) (rt_subtree (api_routes ! j))
      (rt_path (api_routes ! i)) (rt_subtree (api_routes ! i))" by (auto simp: sorted_wrt_iff_nth_less)
  from disjoint_patterns_sound [OF this, of ss] show ?thesis unfolding match_path_def by (rule disj_commute [THEN iffD1])
qed

end
