(* ===== verification/System.thy ===== *)
theory System imports Worker Pending Api begin

text \<open>
  The running system: any number of workers, each with a message it works on, the API, the recovery
  services and the outside world, over one database, one Redis and one host. A step of the system is one
  access of one of them; their order is free. Its invariant ties what a worker holds in its variables to
  the rows of the database, whatever the others have done in between.
\<close>

section \<open>States and steps\<close>

type_synonym ('q, 'h) sys = "('q, 'h) world \<times> thread list"

text \<open>
  The steps: a worker that has no message consumes one; a goroutine makes its next call; the lease
  goroutine renews; the pool's context is cancelled; a panic is recovered; a worker is done with its
  message, or its process dies at any point; a server handles a request of the API; the recovery service ticks; the sweep
  over pending messages runs; a heartbeat is written; and the outside world: time passes, Redis and the
  host change in any way.
\<close>

inductive sys_step ::
  "('q, 'h) pool \<Rightarrow> pending_recovery \<Rightarrow> ('q, 'h) sys \<Rightarrow> ('q, 'h) sys \<Rightarrow> bool" for P pr where
  receive: "consume (pl_redis P) (pl_queue P) flag worker polls 0 (wd_queue w) = Some (Inr msg, s) \<Longrightarrow>
    worker \<notin> th_worker ` set ths \<Longrightarrow>
    sys_step P pr (w, ths) (w\<lparr>wd_queue := s\<rparr>, start_thread msg worker # ths)"
| run: "i < length ths \<Longrightarrow> run_step P (ths ! i) w = (th, w1) \<Longrightarrow> sys_step P pr (w, ths) (w1, ths[i := th])"
| renew: "i < length ths \<Longrightarrow> renewing (ths ! i) \<Longrightarrow> renew_step (ths ! i) (wd_db w) = (th, d) \<Longrightarrow>
    sys_step P pr (w, ths) (w\<lparr>wd_db := d\<rparr>, ths[i := th])"
| cancel: "i < length ths \<Longrightarrow> sys_step P pr (w, ths) (w, ths[i := (ths ! i)\<lparr>th_cancelled := True\<rparr>])"
| panic: "i < length ths \<Longrightarrow> recover_panic (ths ! i) (wd_db w) = (th, d) \<Longrightarrow>
    sys_step P pr (w, ths) (w\<lparr>wd_db := d\<rparr>, ths[i := th])"
| leave: "sys_step P pr (w, us @ th # ths) (w, us @ ths)"
| request: "api_request A r w = (ans, w1) \<Longrightarrow> sys_step P pr (w, ths) (w1, ths)"
| tick: "recovery_tick (pl_redis P) (pl_queue P) timeout (wd_db w, wd_queue w) = (d, s) \<Longrightarrow>
    sys_step P pr (w, ths) (w\<lparr>wd_db := d, wd_queue := s\<rparr>, ths)"
| sweep: "run_recovery (pl_redis P) pr fuel start (wd_db w, wd_queue w) = Some (d, s) \<Longrightarrow>
    sys_step P pr (w, ths) (w\<lparr>wd_db := d, wd_queue := s\<rparr>, ths)"
| beat: "sys_step P pr (w, ths) (w\<lparr>wd_db := heartbeat_tick worker (wd_db w)\<rparr>, ths)"
| report: "sys_step P pr (w, ths) (w\<lparr>wd_db := snd (heartbeat_update_status worker st (wd_db w))\<rparr>, ths)"
| outside: "later (wd_db w) d \<Longrightarrow> sys_step P pr (w, ths) (w\<lparr>wd_db := d, wd_queue := s, wd_host := h\<rparr>, ths)"

section \<open>The invariant\<close>

text \<open>What a run of a program on an input gave, in some state of the host of one of the pools \<open>F\<close>.\<close>

definition produced :: "('q, 'h) pool set \<Rightarrow> string \<Rightarrow> string \<Rightarrow> string \<Rightarrow> execution_result \<Rightarrow> bool" where
  "produced F lang src input res \<longleftrightarrow>
     (\<exists>P \<in> F. \<exists>h h1. execute_request (pl_host P) (pl_sandbox P) (pl_registry P)
        \<lparr>rq_Language = lang, rq_SourceCode = src, rq_Input = input\<rparr> h = (Inr res, h1))"

definition row_inputs :: "execution_row \<Rightarrow> string list" where
  "row_inputs r = elems (unmarshal (er_inputs r))"

definition results_for :: "('q, 'h) pool set \<Rightarrow> execution_row \<Rightarrow> string list \<Rightarrow> execution_result list \<Rightarrow> bool" where
  "results_for F r inputs rs \<longleftrightarrow> list_all2 (produced F (er_language r) (er_source_code r)) inputs rs"

definition row_inv :: "('q, 'h) pool set \<Rightarrow> execution_row \<Rightarrow> bool" where
  "row_inv F r \<longleftrightarrow>
     (\<forall>j. er_results r = Some j \<longrightarrow> (\<exists>rs. j = marshal enc_result rs \<and> results_for F r (row_inputs r) (elems rs)))"

definition rows_inv :: "('q, 'h) pool set \<Rightarrow> database \<Rightarrow> bool" where
  "rows_inv F d \<longleftrightarrow> (\<forall>r \<in> set (db_executions d). row_inv F r)"

definition same_program :: "execution_job \<Rightarrow> execution_row \<Rightarrow> bool" where
  "same_program job r \<longleftrightarrow>
     ej_Language job = er_language r \<and> ej_SourceCode job = er_source_code r \<and> elems (ej_Inputs job) = row_inputs r"

definition row_sat :: "database \<Rightarrow> string \<Rightarrow> (execution_row \<Rightarrow> bool) \<Rightarrow> bool" where
  "row_sat d i Q \<longleftrightarrow> (\<exists>r. find_row er_id i (db_executions d) = Some r \<and> Q r)"

definition finished :: "database \<Rightarrow> string \<Rightarrow> bool" where
  "finished d i \<longleftrightarrow> row_sat d i (\<lambda>r. terminal_status (er_job_status r))"

text \<open>What a worker of a run knows at each value of its program counter.\<close>

fun pc_inv :: "('q, 'h) pool set \<Rightarrow> database \<Rightarrow> string \<Rightarrow> worker_pc \<Rightarrow> bool" where
  "pc_inv F d i (AtPublishRunning job) \<longleftrightarrow> row_sat d i (same_program job)"
| "pc_inv F d i (AtExecute job rs inputs) \<longleftrightarrow>
     row_sat d i (\<lambda>r. same_program job r \<and> (\<exists>ran. row_inputs r = ran @ inputs \<and> results_for F r ran (elems rs)))"
| "pc_inv F d i (AtComplete rs) \<longleftrightarrow> row_sat d i (\<lambda>r. results_for F r (row_inputs r) (elems rs))"
| "pc_inv F d i AtRefetch \<longleftrightarrow> finished d i"
| "pc_inv F d i (AtPublishDone job) \<longleftrightarrow> finished d i"
| "pc_inv F d i AtAck \<longleftrightarrow> finished d i"
| "pc_inv F d i AtJudge \<longleftrightarrow> False"
| "pc_inv F d i _ \<longleftrightarrow> True"

definition thread_inv :: "('q, 'h) pool set \<Rightarrow> database \<Rightarrow> thread \<Rightarrow> bool" where
  "thread_inv F d th \<longleftrightarrow>
     (if qm_JobType (th_msg th) = ''submission'' then th_pc th \<in> {AtJudge, AtAck, Returned}
      else pc_inv F d (qm_JobID (th_msg th)) (th_pc th))"

definition sys_inv :: "('q, 'h) pool set \<Rightarrow> ('q, 'h) sys \<Rightarrow> bool" where
  "sys_inv F s \<longleftrightarrow>
     table_ok (wd_db (fst s)) \<and> rows_inv F (wd_db (fst s)) \<and>
     (\<forall>th \<in> set (snd s). thread_inv F (wd_db (fst s)) th) \<and> distinct (map th_worker (snd s))"

section \<open>How the database may change\<close>

text \<open>The changes under which everything a worker knows stays true.\<close>

definition grows :: "('q, 'h) pool set \<Rightarrow> database \<Rightarrow> database \<Rightarrow> bool" where
  "grows F d d1 \<longleftrightarrow> table_sim d d1 \<and> (table_ok d \<longrightarrow> table_ok d1) \<and> (rows_inv F d \<longrightarrow> rows_inv F d1)"

lemma grows_trans: "grows F d d1 \<Longrightarrow> grows F d1 d2 \<Longrightarrow> grows F d d2"
  by (auto simp: grows_def intro: table_sim_trans)

lemma grows_same: "db_executions d1 = db_executions d \<Longrightarrow> grows F d d1"
  by (simp add: grows_def table_sim_same rows_inv_def table_ok_def)

lemma grows_later: "later d d1 \<Longrightarrow> grows F d d1"
  by (rule grows_same) (simp add: later_tables)

lemma row_inv_sets [simp]:
  "row_inv F (claim_set w l now r) = row_inv F r" "row_inv F (running_set now r) = row_inv F r"
  "row_inv F (fail_set m b now r) = row_inv F r" "row_inv F (renew_set l now r) = row_inv F r"
  "row_inv F (marker_set now r) = row_inv F r"
  by (simp_all add: row_inv_def results_for_def row_inputs_def set_defs marker_set_def)

lemma rows_inv_later: "later d d1 \<Longrightarrow> rows_inv F d \<Longrightarrow> rows_inv F d1"
  by (simp add: rows_inv_def later_tables)

lemma update_executions_rows:
  assumes "update_executions p f d = Inr (n, d1)" and "rows_inv F d"
    and "\<And>now r. p now r \<Longrightarrow> row_inv F r \<Longrightarrow> row_inv F (f now r)"
  shows "rows_inv F d1"
  using assms by (auto simp: rows_inv_def update_executions_def set_update_where)

lemma run_stmt_rows:
  assumes "\<And>d n d1. stmt d = Inr (n, d1) \<Longrightarrow> rows_inv F d \<Longrightarrow> rows_inv F d1" and "rows_inv F d"
  shows "rows_inv F (snd (run_stmt stmt d))"
  using assms by (intro run_stmt_preserves [where I = "rows_inv F"]) (auto intro: rows_inv_later)

lemma insert_execution_rows: "insert_execution job d = Inr (n, d1) \<Longrightarrow> rows_inv F d \<Longrightarrow> rows_inv F d1"
  by (auto simp: insert_execution_def rows_inv_def row_inv_def split: if_splits)

lemma pg_create_rows:
  assumes "rows_inv F d"
  shows "rows_inv F (snd (pg_create job d))"
proof -
  have "rows_inv F (snd (run_stmt (insert_execution job) d))"
    using insert_execution_rows assms by (rule run_stmt_rows)
  with assms show ?thesis by (auto simp: pg_create_def split: prod.splits sum.splits)
qed

lemma claim_stmt_rows: "claim_stmt i w l d = Inr (n, d1) \<Longrightarrow> rows_inv F d \<Longrightarrow> rows_inv F d1"
  by (auto simp: claim_stmt_def split: if_splits elim!: update_executions_rows)

lemma fail_stmt_rows: "fail_stmt i w m b d = Inr (n, d1) \<Longrightarrow> rows_inv F d \<Longrightarrow> rows_inv F d1"
  by (auto simp: fail_stmt_def split: if_splits elim!: update_executions_rows)

lemma plain_updates_rows:
  "update_executions (running_where i w) running_set d = Inr (n, d1) \<Longrightarrow> rows_inv F d \<Longrightarrow> rows_inv F d1"
  "update_executions (renew_where i w) (renew_set l) d = Inr (n, d1) \<Longrightarrow> rows_inv F d \<Longrightarrow> rows_inv F d1"
  "update_executions expired_where expired_set d = Inr (n, d1) \<Longrightarrow> rows_inv F d \<Longrightarrow> rows_inv F d1"
  "update_executions (\<lambda>now r. er_id r = i) marker_set d = Inr (n, d1) \<Longrightarrow> rows_inv F d \<Longrightarrow> rows_inv F d1"
  by (erule update_executions_rows; simp add: expired_set_fail)+

lemmas stmt_rows = claim_stmt_rows fail_stmt_rows plain_updates_rows

lemma store_rows:
  assumes "rows_inv F d"
  shows "rows_inv F (snd (pg_claim i w l d))" "rows_inv F (snd (pg_mark_running i w d))"
    "rows_inv F (snd (pg_fail_job i w m b d))" "rows_inv F (snd (pg_renew_lease i w l d))"
    "rows_inv F (recover_abandoned_jobs d)" "rows_inv F (mark_dispatched i d)"
  using assms unfolding method_defs snd_affected_or recover_abandoned_jobs_def mark_dispatched_def
  by (blast intro: run_stmt_rows stmt_rows)+

text \<open>The operations of the program, each as a change of this kind.\<close>

lemma op_grows:
  "grows F d (snd (pg_create job d))" "grows F d (snd (pg_claim i w l d))" "grows F d (snd (pg_mark_running i w d))"
  "grows F d (snd (pg_fail_job i w m b d))" "grows F d (snd (pg_renew_lease i w l d))"
  "grows F d (recover_abandoned_jobs d)" "grows F d (mark_dispatched i d)"
  by (simp_all add: grows_def op_sims store_ok recover_abandoned_jobs_ok mark_dispatched_ok pg_create_rows store_rows)

lemma dispatch_loop_grows: "grows F d (fst (dispatch_loop C q ids (d, s)))"
proof (induction ids arbitrary: d s)
  case (Cons i ids)
  then show ?case using op_grows(7) [of F d i] by (auto split: prod.splits option.splits intro: grows_trans)
qed (simp add: grows_same)

lemma dispatch_delayed_jobs_grows: "grows F (fst st) (fst (dispatch_delayed_jobs C q st))"
  by (rule dispatch_delayed_jobs_cases [of st C q])
    (auto intro: grows_later grows_trans [OF grows_later dispatch_loop_grows])

lemma recovery_tick_grows:
  assumes "recovery_tick C q timeout (d, s) = (d1, s1)"
  shows "grows F d d1"
proof -
  let ?st = "(recover_abandoned_jobs d, s)"
  obtain d2 s2 where dd: "dispatch_delayed_jobs C q ?st = (d2, s2)" by fastforce
  with assms have "d1 = mark_stale_workers timeout d2" by (simp add: recovery_tick_def Let_def)
  moreover have "grows F (recover_abandoned_jobs d) d2" using dispatch_delayed_jobs_grows [of F ?st C q] dd by simp
  ultimately show ?thesis using op_grows(6) [of F d] by (meson grows_same grows_trans mark_stale_workers_executions)
qed

lemma create_execution_grows:
  assumes "create_execution C q registry ulid now req (d, s) = (res, d1, s1)"
  shows "grows F d d1"
proof -
  have "d1 = d \<or> d1 = snd (pg_create (new_job ulid now req) d)"
    using assms by (auto simp: create_execution_def Let_def split: if_splits sum.splits prod.splits option.splits)
  then show ?thesis using op_grows(1) by (auto intro: grows_same)
qed

text \<open>A request of the API leaves the jobs alone or creates one.\<close>

lemma run_stmt_executions:
  assumes "\<And>d x d1. f d = Inr (x, d1) \<Longrightarrow> db_executions d1 = db_executions d"
  shows "db_executions (snd (run_stmt f d)) = db_executions d"
  by (rule run_stmt_preserves [where I = "\<lambda>d1. db_executions d1 = db_executions d"])
    (auto simp: later_tables dest: assms)

lemma inserts_executions:
  "insert_problem p d = Inr (i, d1) \<Longrightarrow> db_executions d1 = db_executions d"
  "insert_test_case t d = Inr (i, d1) \<Longrightarrow> db_executions d1 = db_executions d"
  "insert_submission s d = Inr (i, d1) \<Longrightarrow> db_executions d1 = db_executions d"
  by (auto simp: insert_problem_def insert_test_case_def insert_submission_def split: if_splits)

lemma repo_writes_executions:
  "db_executions (snd (problem_create p d)) = db_executions d"
  "db_executions (snd (test_case_create t d)) = db_executions d"
  "db_executions (snd (submission_create s d)) = db_executions d"
proof -
  have "snd (problem_create p d) = snd (run_stmt (insert_problem p) d)"
    "snd (test_case_create t d) = snd (run_stmt (insert_test_case t) d)"
    "snd (submission_create s d) = snd (run_stmt (insert_submission s) d)"
    by (simp_all add: problem_create_def test_case_create_def submission_create_def split: prod.split sum.split)
  then show "db_executions (snd (problem_create p d)) = db_executions d"
    "db_executions (snd (test_case_create t d)) = db_executions d"
    "db_executions (snd (submission_create s d)) = db_executions d"
    by (simp_all add: run_stmt_executions [OF inserts_executions(1)] run_stmt_executions [OF inserts_executions(2)]
        run_stmt_executions [OF inserts_executions(3)])
qed

lemma create_test_cases_executions: "db_executions (snd (create_test_cases i n ts d)) = db_executions d"
proof (induction ts arbitrary: n d)
  case (Cons t ts)
  obtain x d1 where "test_case_create (numbered_case i n t) d = (x, d1)" by fastforce
  moreover from this have "db_executions d1 = db_executions d"
    using repo_writes_executions(2) [of "numbered_case i n t" d] by simp
  ultimately show ?case using Cons.IH [of "Suc n" d1] by (auto split: sum.splits prod.splits)
qed simp

lemma call_create_grows: "grows F (wd_db w) (wd_db (snd (call_create A req w)))"
  by (auto simp: call_create_def Let_def split: prod.splits dest: create_execution_grows)

lemma later_executions: "later d (snd (op d)) \<Longrightarrow> op d = (x, d1) \<Longrightarrow> db_executions d1 = db_executions d"
  using later_tables [of d "snd (op d)"] by simp

lemma same_executions: "db_executions (snd (op d)) = db_executions d \<Longrightarrow> op d = (x, d1) \<Longrightarrow> db_executions d1 = db_executions d"
  by simp

lemma ping_db_later: "later d (snd (ping_db d))"
  using run_query_later [of d "\<lambda>d. Inr ()"] by (auto simp: ping_db_def split: prod.splits sum.splits)

lemmas repo_executionsD =
  repo_writes_executions(1) [THEN same_executions] repo_writes_executions(2) [THEN same_executions]
  repo_writes_executions(3) [THEN same_executions] create_test_cases_executions [THEN same_executions]
  repo_queries_later [THEN later_executions] pg_get_later [THEN later_executions] ping_db_later [THEN later_executions]

lemmas handler_splits = prod.splits sum.splits option.splits if_splits

lemma quiet_endpoints:
  "db_executions (wd_db (snd (handle_health_live A r w))) = db_executions (wd_db w)"
  "db_executions (wd_db (snd (handle_health_ready A r w))) = db_executions (wd_db w)"
  "db_executions (wd_db (snd (handle_version A r w))) = db_executions (wd_db w)"
  "db_executions (wd_db (snd (handle_get_execution A r w))) = db_executions (wd_db w)"
  "db_executions (wd_db (snd (create_problem A r w))) = db_executions (wd_db w)"
  "db_executions (wd_db (snd (create_full_problem A r w))) = db_executions (wd_db w)"
  "db_executions (wd_db (snd (create_test_case A r w))) = db_executions (wd_db w)"
  "db_executions (wd_db (snd (list_problems A r w))) = db_executions (wd_db w)"
  "db_executions (wd_db (snd (get_problem A r w))) = db_executions (wd_db w)"
  "db_executions (wd_db (snd (create_submission A r w))) = db_executions (wd_db w)"
  "db_executions (wd_db (snd (get_submission A r w))) = db_executions (wd_db w)"
  "db_executions (wd_db (snd (get_run A r w))) = db_executions (wd_db w)"
  "db_executions (wd_db (snd (analyze_code A r w))) = db_executions (wd_db w)"
proof -
  show "db_executions (wd_db (snd (handle_health_live A r w))) = db_executions (wd_db w)"
    by (auto simp: handle_health_live_def split: handler_splits dest!: repo_executionsD)
  show "db_executions (wd_db (snd (handle_health_ready A r w))) = db_executions (wd_db w)"
    by (auto simp: handle_health_ready_def ready_redis_def split: handler_splits dest!: repo_executionsD)
  show "db_executions (wd_db (snd (handle_version A r w))) = db_executions (wd_db w)"
    by (auto simp: handle_version_def split: handler_splits dest!: repo_executionsD)
  show "db_executions (wd_db (snd (handle_get_execution A r w))) = db_executions (wd_db w)"
    by (auto simp: handle_get_execution_def get_execution_def Let_def split: handler_splits dest!: repo_executionsD)
  show "db_executions (wd_db (snd (create_problem A r w))) = db_executions (wd_db w)"
    by (auto simp: create_problem_def split: handler_splits dest!: repo_executionsD)
  show "db_executions (wd_db (snd (create_full_problem A r w))) = db_executions (wd_db w)"
    by (auto simp: create_full_problem_def split: handler_splits dest!: repo_executionsD)
  show "db_executions (wd_db (snd (create_test_case A r w))) = db_executions (wd_db w)"
    by (auto simp: create_test_case_def split: handler_splits dest!: repo_executionsD)
  show "db_executions (wd_db (snd (list_problems A r w))) = db_executions (wd_db w)"
    by (auto simp: list_problems_def split: handler_splits dest!: repo_executionsD)
  show "db_executions (wd_db (snd (get_problem A r w))) = db_executions (wd_db w)"
    by (auto simp: get_problem_def split: handler_splits dest!: repo_executionsD)
  show "db_executions (wd_db (snd (create_submission A r w))) = db_executions (wd_db w)"
    by (auto simp: create_submission_def store_submission_def split: handler_splits dest!: repo_executionsD)
  show "db_executions (wd_db (snd (get_submission A r w))) = db_executions (wd_db w)"
    by (auto simp: get_submission_def split: handler_splits dest!: repo_executionsD)
  show "db_executions (wd_db (snd (get_run A r w))) = db_executions (wd_db w)"
    by (auto simp: get_run_def get_execution_def Let_def split: handler_splits dest!: repo_executionsD)
  show "db_executions (wd_db (snd (analyze_code A r w))) = db_executions (wd_db w)"
    by (auto simp: analyze_code_def split: handler_splits dest!: repo_executionsD)
qed

lemma create_endpoints_grow:
  "grows F (wd_db w) (wd_db (snd (guarded_execute A r w)))" "grows F (wd_db w) (wd_db (snd (create_run A r w)))"
  using call_create_grows [of F w A]
  by (auto simp: guarded_execute_def handle_execute_def create_run_def grows_same split: prod.split sum.split)
    (metis snd_conv)+

lemma endpoint_grows:
  assumes "endpoint_of t = Some h"
  shows "grows F (wd_db w) (wd_db (snd (h A r w)))"
proof (cases t)
  case Execute
  with assms create_endpoints_grow(1) show ?thesis by auto
next
  case CreateRun
  with assms create_endpoints_grow(2) show ?thesis by auto
qed (use assms in \<open>auto intro!: grows_same simp: quiet_endpoints\<close>)

lemma api_request_grows:
  assumes "api_request A r w = (ans, w1)"
  shows "grows F (wd_db w) (wd_db w1)"
proof (cases "wd_db w1 = wd_db w")
  case False
  with assms obtain t vars h where "endpoint_of t = Some h" "w1 = snd (h A (r\<lparr>hq_vars := vars\<rparr>) w)"
    by (auto simp: api_request_def split: lookup.splits option.splits prod.splits) (metis snd_conv)
  with endpoint_grows [of t h F w A "r\<lparr>hq_vars := vars\<rparr>"] show ?thesis by simp
qed (simp add: grows_same)

lemma judge_executions: "db_executions (wd_db (snd (judge E i w))) = db_executions (wd_db w)"
proof -
  obtain r d1 where g: "submission_get_by_id i (wd_db w) = (r, d1)" by fastforce
  have l: "db_executions d1 = db_executions (wd_db w)"
    using repo_queries_later(1) [of "wd_db w" i] g later_tables by fastforce
  show ?thesis
  proof (cases r)
    case (Inl e)
    with g l show ?thesis by (simp add: judge_def)
  next
    case (Inr sub0)
    let ?sub = "sub0\<lparr>sb_Status := SubmissionStatusRunning\<rparr>" let ?w1 = "save_and_publish E ?sub (w\<lparr>wd_db := d1\<rparr>)"
    obtain q s1 w2 where f: "judge_fetched E ?sub ?w1 = (q, s1, w2)" by (metis prod.collapse)
    have "later (wd_db ?w1) (wd_db w2)" using judge_fetched_sub [OF f] by simp
    moreover have "db_executions (wd_db (finalize E s1 w2)) = db_executions (wd_db w2)"
      using submission_update_frame by (simp add: finalize_def Let_def)
    ultimately show ?thesis using g Inr f l submission_update_frame [of ?sub d1] later_tables
      by (fastforce simp: judge_def Let_def)
  qed
qed

section \<open>What a worker knows stays true\<close>

lemma row_sat_grows:
  assumes "grows F d d1" and "row_sat d i Q" and "\<And>r q. row_sim r q \<Longrightarrow> Q r \<Longrightarrow> Q q"
  shows "row_sat d1 i Q"
  using assms by (auto simp: grows_def row_sat_def dest!: table_simD)

lemma row_sim_program:
  assumes "row_sim r q"
  shows "same_program job q = same_program job r" "row_inputs q = row_inputs r" "results_for F q = results_for F r"
proof -
  have "er_language q = er_language r" "er_source_code q = er_source_code r" "er_inputs q = er_inputs r"
    using assms unfolding row_sim_def by blast+
  then show "same_program job q = same_program job r" "row_inputs q = row_inputs r" "results_for F q = results_for F r"
    by (simp_all add: same_program_def row_inputs_def results_for_def fun_eq_iff)
qed

lemma row_sim_terminal:
  assumes "row_sim r q" and "terminal_status (er_job_status r)"
  shows "terminal_status (er_job_status q)"
proof -
  have q: "q = r\<lparr>er_last_dispatched_at := er_last_dispatched_at q\<rparr>" using assms unfolding row_sim_def by blast
  have "er_job_status q = er_job_status r" by (subst q) simp
  with assms(2) show ?thesis by simp
qed

lemma finished_grows: "grows F d d1 \<Longrightarrow> finished d i \<Longrightarrow> finished d1 i"
  unfolding finished_def by (erule row_sat_grows) (auto intro: row_sim_terminal)

lemma pc_inv_grows:
  assumes "grows F d d1" and "pc_inv F d i pc"
  shows "pc_inv F d1 i pc"
proof (cases pc)
  case (AtPublishRunning job)
  have "row_sat d1 i (same_program job)"
    by (rule row_sat_grows [OF assms(1)]) (use assms(2) AtPublishRunning in \<open>auto simp: row_sim_program\<close>)
  with AtPublishRunning show ?thesis by simp
next
  case (AtExecute job rs inputs)
  have "row_sat d1 i (\<lambda>r. same_program job r \<and> (\<exists>ran. row_inputs r = ran @ inputs \<and> results_for F r ran (elems rs)))"
    by (rule row_sat_grows [OF assms(1)]) (use assms(2) AtExecute in \<open>auto simp: row_sim_program\<close>)
  with AtExecute show ?thesis by simp
next
  case (AtComplete rs)
  have "row_sat d1 i (\<lambda>r. results_for F r (row_inputs r) (elems rs))"
    by (rule row_sat_grows [OF assms(1)]) (use assms(2) AtComplete in \<open>auto simp: row_sim_program\<close>)
  with AtComplete show ?thesis by simp
qed (use assms(2) finished_grows [OF assms(1)] in auto)

lemma thread_inv_grows: "grows F d d1 \<Longrightarrow> thread_inv F d th \<Longrightarrow> thread_inv F d1 th"
  by (auto simp: thread_inv_def intro: pc_inv_grows)

section \<open>The steps of a worker\<close>

lemma pg_get_row_sat:
  "table_ok d \<Longrightarrow> pg_get i d = (Inr job, d1) \<Longrightarrow> row_sat d1 i (\<lambda>r. job = job_of_row r)"
  by (auto simp: row_sat_def later_tables dest!: pg_get_Inr)

lemma job_of_row_program: "same_program (job_of_row r) r"
  by (simp add: same_program_def job_of_row_def row_inputs_def)

lemma complete_rows:
  assumes "rows_inv F d" and "row_sat d i (\<lambda>r. results_for F r (row_inputs r) (elems rs))" and "table_ok d"
  shows "rows_inv F (snd (pg_complete i w rs d))"
proof -
  have later: "row_sat d0 i (\<lambda>r. results_for F r (row_inputs r) (elems rs)) \<and> table_ok d0 \<and> rows_inv F d0" if "later d d0" for d0
    using that assms by (auto simp: row_sat_def later_tables intro: rows_inv_later table_ok_later)
  have step: "rows_inv F d2" if l: "later d d0" and s: "complete_stmt i w rs d0 = Inr (n, d2)" for d0 d2 n
  proof -
    from later [OF l] obtain r where r: "find_row er_id i (db_executions d0) = Some r" "results_for F r (row_inputs r) (elems rs)"
      and ok: "table_ok d0" "rows_inv F d0" by (auto simp: row_sat_def)
    have unique: "q = r" if "q \<in> set (db_executions d0)" "er_id q = i" for q
      using find_row_distinct [of er_id "db_executions d0" q] that ok(1) r(1) by (simp add: table_ok_def)
    have "row_inv F (complete_set rs now r)" for now
      using r(2) by (auto simp: row_inv_def complete_set_def results_for_def row_inputs_def)
    with s ok(2) unique show ?thesis
      by (auto simp: complete_stmt_def rows_inv_def update_executions_def set_update_where complete_where_def split: if_splits)
  qed
  show ?thesis unfolding pg_complete_def snd_affected_or
    by (rule run_stmt_cases [of "complete_stmt i w rs" d]) (auto intro: step dest: later)
qed

lemma pg_complete_grows:
  assumes "row_sat d i (\<lambda>r. results_for F r (row_inputs r) (elems rs))" and "table_ok d"
  shows "grows F d (snd (pg_complete i w rs d))"
  using assms by (simp add: grows_def pg_complete_sim pg_complete_ok complete_rows)

lemma pg_complete_finished:
  assumes "table_ok d" and "pg_complete i w rs d = (None, d1)"
  shows "finished d1 i"
  using pg_complete_updated [OF assms] by (auto simp: row_updated_def finished_def row_sat_def complete_set_def terminal_status_def)

lemma publish_job_db [simp]: "wd_db (publish_job P i job w) = wd_db w"
  by (simp add: publish_job_def split: option.splits)

lemma row_satI: "row_sat d i R \<Longrightarrow> (\<And>r. R r \<Longrightarrow> Q r) \<Longrightarrow> row_sat d i Q"
  by (auto simp: row_sat_def)

lemma step_at_grows:
  assumes "table_ok (wd_db w)" and "pc \<noteq> AtJudge \<Longrightarrow> pc_inv F (wd_db w) (qm_JobID msg) pc \<or> pc = AtAck"
    and "step_at P msg worker c pc w = (pc1, w1)"
  shows "grows F (wd_db w) (wd_db w1)"
proof (cases pc)
  case AtGetState
  with assms(3) pg_get_later [of "wd_db w" "qm_JobID msg"] show ?thesis
    by (auto simp: Let_def split: prod.splits sum.splits if_splits intro: grows_later)
next
  case AtFetch
  with assms(3) pg_get_later [of "wd_db w" "qm_JobID msg"] show ?thesis
    by (auto simp: Let_def split: prod.splits sum.splits intro: grows_later)
next
  case AtRefetch
  with assms(3) pg_get_later [of "wd_db w" "qm_JobID msg"] show ?thesis
    by (auto simp: Let_def split: prod.splits sum.splits intro: grows_later)
next
  case (AtExecute job rs inputs)
  with assms(3) show ?thesis
    by (cases inputs) (auto simp: Let_def split: prod.splits sum.splits if_splits intro: grows_same)
next
  case AtClaim
  with assms(3) op_grows(2) [of F "wd_db w" "qm_JobID msg" worker lease_duration] show ?thesis
    by (auto simp: Let_def split: prod.splits option.splits if_splits)
next
  case AtMarkRunning
  with assms(3) op_grows(3) [of F "wd_db w" "qm_JobID msg" worker] show ?thesis
    by (auto simp: Let_def split: prod.splits option.splits)
next
  case (AtFail e)
  with assms(3) op_grows(4) show ?thesis by auto
next
  case (AtComplete rs)
  with assms(2) have "row_sat (wd_db w) (qm_JobID msg) (\<lambda>r. results_for F r (row_inputs r) (elems rs))" by simp
  from pg_complete_grows [OF this assms(1), of worker] AtComplete assms(3) show ?thesis
    by (auto simp: Let_def split: prod.splits option.splits)
next
  case AtJudge
  with assms(3) judge_executions show ?thesis by (auto intro!: grows_same)
qed (use assms(3) in \<open>auto simp: grows_same\<close>)

text \<open>The knowledge a step of a run gains.\<close>

lemma step_at_pc_inv:
  assumes ok: "table_ok (wd_db w)" and inv: "pc_inv F (wd_db w) (qm_JobID msg) pc"
    and step: "step_at P msg worker c pc w = (pc1, w1)" and P: "P \<in> F"
  shows "pc_inv F (wd_db w1) (qm_JobID msg) pc1"
proof (cases pc)
  case AtClaim
  with step show ?thesis by (auto simp: Let_def split: prod.splits option.splits if_splits)
next
  case AtGetState
  with step pg_get_row_sat [OF ok, of "qm_JobID msg"] show ?thesis
    by (auto simp: Let_def finished_def job_of_row_def split: prod.splits sum.splits if_splits elim!: row_satI)
next
  case AtFetch
  with step pg_get_row_sat [OF ok, of "qm_JobID msg"] job_of_row_program show ?thesis
    by (auto simp: Let_def split: prod.splits sum.splits elim!: row_satI)
next
  case (AtPublishRunning job)
  with inv step show ?thesis
    by (auto simp: results_for_def same_program_def elim!: row_satI)
next
  case (AtExecute job rs inputs)
  show ?thesis
  proof (cases inputs)
    case Nil
    with AtExecute inv step show ?thesis by (auto elim!: row_satI)
  next
    case (Cons input rest)
    obtain res h where e: "execute_request (pl_host P) (pl_sandbox P) (pl_registry P) (run_request job input) (wd_host w) = (res, h)"
      by fastforce
    have sat: "row_sat (wd_db w) (qm_JobID msg) (\<lambda>r. same_program job r \<and>
        (\<exists>ran. row_inputs r = ran @ input # rest \<and> results_for F r ran (elems rs)))"
      using inv AtExecute Cons by simp
    show ?thesis
    proof (cases res)
      case (Inl err)
      with e AtExecute Cons step show ?thesis by (auto simp: Let_def split: if_splits)
    next
      case (Inr result)
      have made: "produced F (er_language r) (er_source_code r) input result" if "same_program job r" for r
        using e Inr that P by (auto simp: produced_def run_request_def same_program_def)
      have "row_sat (wd_db w) (qm_JobID msg) (\<lambda>r. same_program job r \<and>
          (\<exists>ran. row_inputs r = ran @ rest \<and> results_for F r ran (elems (append_slice rs result))))"
        using sat
      proof (rule row_satI)
        fix r assume "same_program job r \<and> (\<exists>ran. row_inputs r = ran @ input # rest \<and> results_for F r ran (elems rs))"
        then obtain ran where r: "same_program job r" "row_inputs r = ran @ input # rest" "results_for F r ran (elems rs)" by blast
        then have "results_for F r (ran @ [input]) (elems (append_slice rs result))"
          using made [OF r(1)] by (simp add: results_for_def append_slice_def list_all2_appendI)
        with r show "same_program job r \<and> (\<exists>ran. row_inputs r = ran @ rest \<and> results_for F r ran (elems (append_slice rs result)))"
          by (intro conjI exI [of _ "ran @ [input]"]) simp_all
      qed
      with e Inr AtExecute Cons step show ?thesis by (auto simp: Let_def)
    qed
  qed
next
  case (AtComplete rs)
  with step pg_complete_finished [OF ok] show ?thesis by (auto simp: Let_def split: prod.splits option.splits)
next
  case AtRefetch
  with inv step pg_get_later [of "wd_db w" "qm_JobID msg"] show ?thesis
    by (auto simp: Let_def split: prod.splits sum.splits intro: finished_grows [OF grows_later])
qed (use inv step in \<open>auto simp: Let_def split: prod.splits option.splits\<close>)

lemma run_step_inv:
  assumes ok: "table_ok (wd_db w)" and inv: "thread_inv F (wd_db w) th" and step: "run_step P th w = (th1, w1)"
    and P: "P \<in> F"
  shows "grows F (wd_db w) (wd_db w1) \<and> thread_inv F (wd_db w1) th1 \<and> th_worker th1 = th_worker th"
proof -
  obtain pc where pc: "step_at P (th_msg th) (th_worker th) (th_cancelled th) (th_pc th) w = (pc, w1)" "th1 = th\<lparr>th_pc := pc\<rparr>"
    using step by (auto simp: run_step_def Let_def split: prod.splits)
  show ?thesis
  proof (cases "qm_JobType (th_msg th) = ''submission''")
    case True
    with inv consider "th_pc th = AtJudge" | "th_pc th = AtAck" | "th_pc th = Returned" by (auto simp: thread_inv_def)
    then show ?thesis using True pc judge_executions
      by cases (auto simp: thread_inv_def intro!: grows_same)
  next
    case False
    with inv have i: "pc_inv F (wd_db w) (qm_JobID (th_msg th)) (th_pc th)" by (simp add: thread_inv_def)
    with step_at_grows [OF ok _ pc(1)] step_at_pc_inv [OF ok i pc(1) P] False pc(2) show ?thesis
      by (auto simp: thread_inv_def)
  qed
qed

section \<open>The invariant holds\<close>

lemma sys_inv_change:
  assumes "sys_inv F (w, ths)" and "grows F (wd_db w) (wd_db w1)"
    and "\<forall>th \<in> set ths1. th \<in> set ths \<or> thread_inv F (wd_db w1) th" and "distinct (map th_worker ths1)"
  shows "sys_inv F (w1, ths1)"
  using assms thread_inv_grows [OF assms(2)] by (auto simp: sys_inv_def grows_def)

text \<open>One worker moves, the others stay.\<close>

lemma sys_inv_update:
  assumes "sys_inv F (w, ths)" and "grows F (wd_db w) (wd_db w1)" and "i < length ths"
    and "thread_inv F (wd_db w1) th" and "th_worker th = th_worker (ths ! i)"
  shows "sys_inv F (w1, ths[i := th])"
proof (rule sys_inv_change [OF assms(1,2)])
  show "\<forall>t \<in> set (ths[i := th]). t \<in> set ths \<or> thread_inv F (wd_db w1) t"
    using assms(4) set_update_subset_insert [of ths i th] by blast
  have "map th_worker (ths[i := th]) = map th_worker ths" using assms(3,5) by (simp add: map_update list_update_same_conv)
  then show "distinct (map th_worker (ths[i := th]))" using assms(1) by (simp add: sys_inv_def)
qed

lemma start_thread_inv: "thread_inv F d (start_thread msg worker)"
  by (simp add: thread_inv_def start_thread_def start_pc_def)

lemma start_thread_worker [simp]: "th_worker (start_thread msg worker) = worker"
  by (simp add: start_thread_def)

lemma sys_inv_step:
  assumes "sys_step P pr s s1" and "sys_inv F s" and "P \<in> F"
  shows "sys_inv F s1"
  using assms(1,2)
proof (induction rule: sys_step.induct)
  case (receive flag worker polls w msg s ths)
  then show ?case
    by (intro sys_inv_change [OF receive.prems]) (auto simp: grows_same start_thread_inv sys_inv_def)
next
  case (run i ths w th w1)
  then have "table_ok (wd_db w)" "thread_inv F (wd_db w) (ths ! i)" by (auto simp: sys_inv_def)
  from run_step_inv [OF this run.hyps(2) assms(3)] run show ?case by (intro sys_inv_update [OF run.prems]) auto
next
  case (renew i ths w th d)
  then have inv: "thread_inv F (wd_db w) (ths ! i)" by (auto simp: sys_inv_def)
  have d: "d = snd (pg_renew_lease (qm_JobID (th_msg (ths ! i))) (th_worker (ths ! i)) lease_duration (wd_db w))"
    and th: "th = ths ! i \<or> th = (ths ! i)\<lparr>th_cancelled := True\<rparr>"
    using renew.hyps(3) by (auto simp: renew_step_def split: prod.splits option.splits)
  have g: "grows F (wd_db w) d" unfolding d by (rule op_grows(5))
  from th thread_inv_grows [OF g inv] have "thread_inv F d th" "th_worker th = th_worker (ths ! i)"
    by (auto simp: thread_inv_def)
  with g renew show ?case by (intro sys_inv_update [OF renew.prems]) auto
next
  case (cancel i ths w)
  then have "thread_inv F (wd_db w) (ths ! i)" by (auto simp: sys_inv_def)
  with cancel show ?case by (intro sys_inv_update [OF cancel.prems]) (auto simp: grows_same thread_inv_def)
next
  case (panic i ths w th d)
  then have "grows F (wd_db w) d" using op_grows(4) by (auto simp: recover_panic_def)
  with panic show ?case
    by (intro sys_inv_update [OF panic.prems]) (auto simp: recover_panic_def thread_inv_def)
next
  case (leave w us th ths)
  then show ?case by (intro sys_inv_change [OF leave.prems]) (auto simp: grows_same sys_inv_def)
next
  case (request A r w ans w1 ths)
  then show ?case
    by (intro sys_inv_change [OF request.prems]) (auto simp: sys_inv_def dest: api_request_grows)
next
  case (tick timeout w d s ths)
  then show ?case by (intro sys_inv_change [OF tick.prems]) (auto simp: sys_inv_def dest: recovery_tick_grows)
next
  case (sweep fuel start w d s ths)
  then have "later (wd_db w) d" using run_recovery_db by fastforce
  with sweep show ?case by (intro sys_inv_change [OF sweep.prems]) (auto simp: sys_inv_def grows_later)
next
  case (beat w ths worker)
  then show ?case by (intro sys_inv_change [OF beat.prems]) (auto simp: sys_inv_def grows_same)
next
  case (report w ths worker st)
  then show ?case by (intro sys_inv_change [OF report.prems]) (auto simp: sys_inv_def grows_same)
next
  case (outside w d ths s h)
  then show ?case by (intro sys_inv_change [OF outside.prems]) (auto simp: sys_inv_def grows_later)
qed

text \<open>A system at rest whose jobs have no results yet.\<close>

definition fresh_start :: "('q, 'h) sys \<Rightarrow> bool" where
  "fresh_start s \<longleftrightarrow>
     snd s = [] \<and> table_ok (wd_db (fst s)) \<and> (\<forall>r \<in> set (db_executions (wd_db (fst s))). er_results r = None)"

lemma sys_inv_start: "fresh_start s \<Longrightarrow> sys_inv F s"
  by (simp add: fresh_start_def sys_inv_def rows_inv_def row_inv_def)

lemma sys_inv_reach: "(sys_step P pr)\<^sup>*\<^sup>* s s1 \<Longrightarrow> P \<in> F \<Longrightarrow> sys_inv F s \<Longrightarrow> sys_inv F s1"
  by (induction rule: rtranclp_induct) (auto intro: sys_inv_step)

text \<open>A message processed without interruption is one of the interleavings.\<close>

lemma sys_step_single:
  "step_at P (th_msg th) (th_worker th) (th_cancelled th) (th_pc th) w = (pc, w1) \<Longrightarrow>
     sys_step P pr (w, [th]) (w1, [th\<lparr>th_pc := pc\<rparr>])"
  using sys_step.run [of 0 "[th]" P w "th\<lparr>th_pc := pc\<rparr>" w1 pr] by (simp add: run_step_def)

lemma process_interleaving:
  "(sys_step P pr)\<^sup>*\<^sup>* (w, [\<lparr>th_msg = msg, th_worker = worker, th_pc = pc, th_cancelled = c\<rparr>])
     (process P msg worker c pc w, [\<lparr>th_msg = msg, th_worker = worker, th_pc = Returned, th_cancelled = c\<rparr>])"
proof (induction P msg worker c pc w rule: process.induct)
  case (1 P msg worker c pc w)
  show ?case
  proof (cases "pc = Returned")
    case False
    obtain pc1 w1 where s: "step_at P msg worker c pc w = (pc1, w1)" by fastforce
    have "sys_step P pr (w, [\<lparr>th_msg = msg, th_worker = worker, th_pc = pc, th_cancelled = c\<rparr>])
        (w1, [\<lparr>th_msg = msg, th_worker = worker, th_pc = pc1, th_cancelled = c\<rparr>])"
      using sys_step_single [of P "\<lparr>th_msg = msg, th_worker = worker, th_pc = pc, th_cancelled = c\<rparr>" w pc1 w1 pr] s by simp
    then show ?thesis
      using "1.IH" [OF False s [symmetric] refl] process_step [OF s False] by (simp add: converse_rtranclp_into_rtranclp)
  qed simp
qed

section \<open>Properties\<close>

text \<open>
  results are what the programs gave: in every state the running system can reach, whatever the workers,
  the recovery services and the failures of database and Redis have done in whatever order, a completed job
  has exactly one result per input, in the order of the inputs, and each is the value of \<^verbatim>\<open>Execute\<close> for the
  program of its row on that input (with its output made valid UTF-8).
\<close>

theorem completed_results_are_runs:
  assumes "fresh_start s0" and "(sys_step P pr)\<^sup>*\<^sup>* s0 s1"
    and "r \<in> set (db_executions (wd_db (fst s1)))" and "er_job_status r = JobCompleted"
  shows "\<exists>rs. er_results r = Some (marshal enc_result rs) \<and>
    list_all2 (\<lambda>input res. \<exists>h h1. execute_request (pl_host P) (pl_sandbox P) (pl_registry P)
        \<lparr>rq_Language = er_language r, rq_SourceCode = er_source_code r, rq_Input = input\<rparr> h = (Inr res, h1))
      (elems (unmarshal (er_inputs r))) (elems rs)"
proof -
  have inv: "sys_inv {P} s1" by (rule sys_inv_reach [OF assms(2) singletonI sys_inv_start [OF assms(1)]])
  then have "row_ok r" "row_inv {P} r" using assms(3) by (auto simp: sys_inv_def table_ok_def rows_inv_def)
  with assms(4) show ?thesis
    by (auto simp: row_ok_def row_inv_def results_for_def produced_def [abs_def] row_inputs_def)
qed

definition talking_redis :: "nat redis_client" where
  "talking_redis = silent_redis\<lparr>rx_XReadGroup :=
     (\<lambda>g c st n. (Inr [[\<lparr>sm_ID = ''1-0'', sm_Values = [''job_id'' \<mapsto> ''exec_1'']\<rparr>]], n))\<rparr>"

definition talking_pool :: "(nat \<times> queue_event list, nat) pool" where
  "talking_pool = pool_example host_example runtime_example\<lparr>pl_redis := logged_redis talking_redis\<rparr>"

definition after_read :: "(nat \<times> queue_event list, 'h) world \<Rightarrow> (nat \<times> queue_event list, 'h) world" where
  "after_read w = w\<lparr>wd_queue := (fst (wd_queue w),
     EvRead (Inr [[\<lparr>sm_ID = ''1-0'', sm_Values = [''job_id'' \<mapsto> ''exec_1'']\<rparr>]]) # snd (wd_queue w))\<rparr>"

lemma receive_example:
  "sys_step talking_pool pending_example (w, []) (after_read w, [start_thread message_example ''w''])"
proof -
  obtain q l where ql: "wd_queue w = (q, l)" by fastforce
  have "consume (pl_redis talking_pool) (pl_queue talking_pool) (\<lambda>k. False) ''w'' (Suc 0) 0 (wd_queue w) =
      Some (Inr message_example, (q, EvRead (Inr [[\<lparr>sm_ID = ''1-0'', sm_Values = [''job_id'' \<mapsto> ''exec_1'']\<rparr>]]) # l))"
    by (simp add: ql talking_pool_def pool_example_def talking_redis_def silent_redis_def logged_redis_def
        first_message_def decode_message_def message_example_def)
  from sys_step.receive [OF this, of "[]" pending_example] ql show ?thesis by (simp add: after_read_def)
qed

lemma after_read_sel [simp]: "wd_db (after_read w) = wd_db w" "wd_host (after_read w) = wd_host w"
  by (simp_all add: after_read_def)

lemma execute_all_redis: "execute_all (P\<lparr>pl_redis := C\<rparr>) job inputs h = execute_all P job inputs h"
  by (induction inputs arbitrary: h) (auto split: prod.splits sum.splits option.splits)

lemma process_example:
  "(sys_step talking_pool pending_example)\<^sup>*\<^sup>* (queued_world, [])
     (process_message talking_pool message_example ''w'' False (after_read queued_world),
      [\<lparr>th_msg = message_example, th_worker = ''w'', th_pc = Returned, th_cancelled = False\<rparr>])"
proof (rule rtranclp_trans [OF r_into_rtranclp])
  show "sys_step talking_pool pending_example (queued_world, []) (after_read queued_world, [start_thread message_example ''w''])"
    by (rule receive_example)
qed (simp add: process_message_def start_thread_def process_interleaving)

lemma fresh_example: "fresh_start (queued_world, [])"
  using example_ok [of 5] by (simp add: fresh_start_def queued_world_def example_defs)

lemma processed_example:
  "\<exists>r \<in> set (db_executions (wd_db (process_message talking_pool message_example ''w'' False (after_read queued_world)))).
     er_job_status r = JobCompleted \<and> er_inputs r = JArray [[]]"
proof -
  let ?w = "after_read queued_world"
  have redis: "pl_redis talking_pool = logged_redis talking_redis" by (simp add: talking_pool_def)
  have store: "list_all result_storable [result_of StatusSuccess ''ok'' [] 0]"
    by (simp add: result_storable_def no_nul_def)
  have exec: "execute_all talking_pool (job_of_row (row_example JobQueued None 0 5))
      (elems (unmarshal (er_inputs (row_example JobQueued None 0 5)))) (wd_host ?w) = Some ([result_of StatusSuccess ''ok'' [] 0], 0)"
    using execute_all_example queued_world_facts(7) by (simp add: talking_pool_def execute_all_redis)
  note q = queued_world_facts
  from undisturbed_run [OF redis _ _ _ _ q(5) exec store q(6), of "''w''" False] q(1-4) obtain r where
    r: "find_row er_id (qm_JobID message_example)
        (db_executions (wd_db (process_message talking_pool message_example ''w'' False ?w))) = Some r"
      "er_job_status r = JobCompleted" "er_inputs r = JArray [[]]"
    by (auto simp: row_example_def)
  with find_row_SomeD [OF r(1)] show ?thesis by blast
qed

theorem completed_results_are_runs_witness:
  "\<exists>w1 ths r rs. (sys_step talking_pool pending_example)\<^sup>*\<^sup>* (queued_world, []) (w1, ths) \<and>
     r \<in> set (db_executions (wd_db w1)) \<and> er_job_status r = JobCompleted \<and>
     er_results r = Some (marshal enc_result rs) \<and> length (elems rs) = 1"
proof -
  let ?s1 = "(process_message talking_pool message_example ''w'' False (after_read queued_world),
      [\<lparr>th_msg = message_example, th_worker = ''w'', th_pc = Returned, th_cancelled = False\<rparr>])"
  obtain r where r: "r \<in> set (db_executions (wd_db (fst ?s1)))" "er_job_status r = JobCompleted" "er_inputs r = JArray [[]]"
    using processed_example by auto
  from completed_results_are_runs [OF fresh_example process_example r(1,2)] r(3) obtain rs where
    "er_results r = Some (marshal enc_result rs)" "length (elems rs) = 1" by (auto dest!: list_all2_lengthD)
  with process_example r show ?thesis by auto
qed

text \<open>
  a run is acknowledged only when it is over: whenever a worker of the running system is about to
  acknowledge the message of a run, the job is completed or dead-lettered; so a job that is queued or was
  left behind by a dead worker keeps its message, or is found by the recovery services.
\<close>

theorem acks_only_finished_runs:
  assumes "fresh_start s0" and "(sys_step P pr)\<^sup>*\<^sup>* s0 (w1, ths)"
    and "th \<in> set ths" and "th_pc th = AtAck" and "qm_JobType (th_msg th) \<noteq> ''submission''"
  shows "\<exists>r. find_row er_id (qm_JobID (th_msg th)) (db_executions (wd_db w1)) = Some r \<and>
    (er_job_status r = JobCompleted \<or> er_job_status r = JobDeadLettered)"
proof -
  have "sys_inv {P} (w1, ths)" by (rule sys_inv_reach [OF assms(2) singletonI sys_inv_start [OF assms(1)]])
  then have "thread_inv {P} (wd_db w1) th" using assms(3) by (simp add: sys_inv_def)
  with assms(4,5) show ?thesis by (auto simp: thread_inv_def finished_def row_sat_def terminal_status_def)
qed

definition dead_row :: execution_row where
  "dead_row = (row_example JobQueued None 1 1)\<lparr>er_job_status := JobDeadLettered, er_claimed_at := Some 1,
     er_last_error := Some ''e'', er_dead_lettered_at := Some 5\<rparr>"

definition dead_world :: "(nat \<times> queue_event list, nat) world" where
  "dead_world = \<lparr>wd_db = database_example [dead_row], wd_queue = (0, []), wd_host = 0\<rparr>"

lemma dead_world_fresh: "fresh_start (dead_world, [])"
  by (simp add: fresh_start_def dead_world_def dead_row_def example_defs table_ok_def row_ok_def active_status_def
      attempt_budget_def int4_max_def)

lemma dead_world_ack:
  "(sys_step talking_pool pending_example)\<^sup>*\<^sup>* (dead_world, [])
     (after_read dead_world, [start_thread message_example ''w''\<lparr>th_pc := AtAck\<rparr>])"
proof -
  let ?th = "start_thread message_example ''w''" and ?w = "after_read dead_world"
  have same: "?w\<lparr>wd_db := wd_db dead_world\<rparr> = ?w" using after_read_sel(1) [of dead_world] by (metis world.unfold_congs(1) world.surjective world.update_convs(1))
  have m: "th_msg ?th = message_example" "th_worker ?th = ''w''" "th_pc ?th = AtClaim" "th_cancelled ?th = False"
    by (simp_all add: start_thread_def start_pc_def message_example_def)
  have claim: "pg_claim ''exec_1'' ''w'' lease_duration (wd_db dead_world) = (Some ErrInvalidState, wd_db dead_world)"
    by (simp add: dead_world_def dead_row_def example_defs pg_claim_def store_run_defs)
  have get: "pg_get ''exec_1'' (wd_db dead_world) = (Inr (job_of_row dead_row), wd_db dead_world)"
    by (rule quiet_get) (simp_all add: dead_world_def dead_row_def example_defs)
  have s1: "step_at talking_pool message_example ''w'' False AtClaim ?w = (AtGetState, ?w)"
    by (simp add: message_example_def claim same)
  have s2: "step_at talking_pool message_example ''w'' False AtGetState ?w = (AtAck, ?w)"
    by (simp add: message_example_def get same job_of_row_def dead_row_def terminal_status_def)
  have "sys_step talking_pool pending_example (?w, [?th]) (?w, [?th\<lparr>th_pc := AtGetState\<rparr>])"
    by (rule sys_step_single) (simp only: m s1)
  moreover have "sys_step talking_pool pending_example (?w, [?th\<lparr>th_pc := AtGetState\<rparr>]) (?w, [?th\<lparr>th_pc := AtAck\<rparr>])"
    using sys_step_single [of talking_pool "?th\<lparr>th_pc := AtGetState\<rparr>" ?w AtAck ?w pending_example]
    by (simp add: m s2 del: step_at.simps)
  ultimately show ?thesis using receive_example [of dead_world] by (meson r_into_rtranclp rtranclp.rtrancl_into_rtrancl)
qed

theorem acks_only_finished_runs_witness:
  "\<exists>r. find_row er_id ''exec_1'' (db_executions (wd_db (after_read dead_world))) = Some r \<and>
     (er_job_status r = JobCompleted \<or> er_job_status r = JobDeadLettered)"
  using acks_only_finished_runs [OF dead_world_fresh dead_world_ack, of "start_thread message_example ''w''\<lparr>th_pc := AtAck\<rparr>"]
  by (simp add: start_thread_def message_example_def)

text \<open>Lease recovery on a database that answers: the row of a lost job with attempts left is queued and due.\<close>

lemma quiet_recover:
  assumes "db_script d = []" and "find_row er_id i (db_executions d) = Some r" and "expired_where (db_now d) r"
  shows "db_script (recover_abandoned_jobs d) = []" "db_now (recover_abandoned_jobs d) = db_now d"
    "find_row er_id i (db_executions (recover_abandoned_jobs d)) = Some (expired_set (db_now d) r)"
  using assms
  by (simp_all add: recover_abandoned_jobs_def run_stmt_def apply_stmt_def update_executions_def find_row_update_where)

text \<open>
  a crash loses no job: a job whose worker died, so that its lease has expired, and which has attempts
  left, is requeued by the next pass of lease recovery, and the next worker that receives a message of it
  and is not disturbed completes it, with a result for every input, counting one more attempt.
\<close>

theorem crashed_job_is_rerun:
  fixes w :: "('q \<times> queue_event list, 'h) world"
  assumes "pl_redis P = logged_redis C" and "db_script (wd_db w) = []" and "table_ok (wd_db w)"
    and "find_row er_id (qm_JobID msg) (db_executions (wd_db w)) = Some r"
    and "expired_where (db_now (wd_db w)) r" and "er_attempt_count r < er_max_attempts r"
    and "execute_all P (job_of_row r) (elems (unmarshal (er_inputs r))) (wd_host w) = Some (rs, h1)"
    and "list_all result_storable rs" and "qm_JobType msg \<noteq> ''submission''"
  shows "\<exists>q. find_row er_id (qm_JobID msg) (db_executions (wd_db
      (process_message P msg worker c (w\<lparr>wd_db := recover_abandoned_jobs (wd_db w)\<rparr>)))) = Some q \<and>
    er_job_status q = JobCompleted \<and> er_results q = Some (marshal enc_result (append_all None rs)) \<and>
    er_attempt_count q = er_attempt_count r + 1"
proof -
  let ?d = "wd_db w" let ?w1 = "w\<lparr>wd_db := recover_abandoned_jobs ?d\<rparr>" and ?r1 = "expired_set (db_now ?d) r"
  note rec = quiet_recover [OF assms(2,4,5)]
  have id: "er_id r = qm_JobID msg" using find_row_SomeD [OF assms(4)] by simp
  have ok: "row_ok r" using assms(3) find_row_SomeD [OF assms(4)] by (simp add: table_ok_def)
  have due: "claim_where (qm_JobID msg) (db_now (wd_db ?w1)) ?r1" "er_attempt_count ?r1 < int4_max"
    using assms(6) ok id by (auto simp: rec claim_where_def expired_set_def retry_due_def row_ok_def)
  have "execute_all P (job_of_row ?r1) = execute_all P (job_of_row r)"
    by (rule execute_all_program) (simp_all add: job_of_row_def expired_set_def)
  then have exec: "execute_all P (job_of_row ?r1) (elems (unmarshal (er_inputs ?r1))) (wd_host ?w1) = Some (rs, h1)"
    using assms(7) by (simp add: expired_set_def)
  have w1: "db_script (wd_db ?w1) = []" "table_ok (wd_db ?w1)"
    "find_row er_id (qm_JobID msg) (db_executions (wd_db ?w1)) = Some ?r1"
    using rec recover_abandoned_jobs_ok [OF assms(3)] by simp_all
  from undisturbed_run [OF assms(1) w1 due exec assms(8,9), of worker c] show ?thesis
    by (auto simp: expired_set_def)
qed

theorem crashed_job_is_rerun_witness:
  "\<exists>q. find_row er_id ''exec_1'' (db_executions (wd_db (process_message (pool_example host_example runtime_example)
       message_example ''v'' False (queued_world\<lparr>wd_db := recover_abandoned_jobs
         (database_example [row_example JobRunning (Some ''w'') 1 5]\<lparr>db_now := 40\<rparr>)\<rparr>)))) = Some q \<and>
     er_job_status q = JobCompleted \<and> er_attempt_count q = 2"
proof -
  let ?r = "row_example JobRunning (Some ''w'') 1 5"
  let ?w = "queued_world\<lparr>wd_db := database_example [?r]\<lparr>db_now := 40\<rparr>\<rparr>"
  have redis: "pl_redis (pool_example host_example runtime_example) = logged_redis silent_redis"
    by (simp add: pool_example_def)
  have w: "db_script (wd_db ?w) = []" "table_ok (wd_db ?w)"
    "find_row er_id (qm_JobID message_example) (db_executions (wd_db ?w)) = Some ?r"
    "expired_where (db_now (wd_db ?w)) ?r" "er_attempt_count ?r < er_max_attempts ?r"
    using example_held_ok [of JobRunning 5 "''w''"]
    by (simp_all add: message_example_def example_defs expired_where_def active_status_def table_ok_def)
  let ?q = "row_example JobQueued None 0 5"
  have "execute_all P (job_of_row ?r) = execute_all P (job_of_row ?q)" for P :: "(nat \<times> queue_event list, nat) pool"
    by (rule execute_all_program) (simp_all add: job_of_row_def row_example_def)
  moreover have "er_inputs ?r = er_inputs ?q" "wd_host ?w = 0" by (simp_all add: row_example_def queued_world_def)
  ultimately have exec: "execute_all (pool_example host_example runtime_example) (job_of_row ?r) (elems (unmarshal (er_inputs ?r)))
      (wd_host ?w) = Some ([result_of StatusSuccess ''ok'' [] 0], 0)"
    using execute_all_example by (simp only:)
  have store: "list_all result_storable [result_of StatusSuccess ''ok'' [] 0]"
    by (simp add: result_storable_def no_nul_def)
  from crashed_job_is_rerun [OF redis w exec store queued_world_facts(6), of "''v''" False] show ?thesis
    by (auto simp: message_example_def row_example_def)
qed

end
