(* ===== verification/Logging.thy ===== *)
theory Logging imports Go_Text begin

text \<open>
  \<^verbatim>\<open>backend/internal/platform/logger/logger.go\<close>: the structured logger of the process. Levels are ordered
  as the integers of \<^verbatim>\<open>log/slog\<close>; a line is printed when its level is at least that of the logger.
\<close>

datatype log_level = LevelDebug | LevelInfo | LevelWarn | LevelError

text \<open>The values \<^verbatim>\<open>slog\<close> gives to its levels.\<close>

fun level_value :: "log_level \<Rightarrow> int" where
  "level_value LevelDebug = -4"
| "level_value LevelInfo = 0"
| "level_value LevelWarn = 4"
| "level_value LevelError = 8"

lemma level_value_inj: "level_value a = level_value b \<longleftrightarrow> a = b"
  by (cases a; cases b) auto

instantiation log_level :: linorder
begin

definition less_eq_log_level :: "log_level \<Rightarrow> log_level \<Rightarrow> bool" where
  "a \<le> b \<longleftrightarrow> level_value a \<le> level_value b"

definition less_log_level :: "log_level \<Rightarrow> log_level \<Rightarrow> bool" where
  "a < b \<longleftrightarrow> level_value a < level_value b"

instance
  by standard (auto simp: less_eq_log_level_def less_log_level_def level_value_inj)

end

text \<open>
  \<^verbatim>\<open>strings.ToLower\<close> on ASCII. Of the other runes only the dotted capital I has a lower case in ASCII, and a
  text with it can become \<open>info\<close> only, which is also the default.
\<close>

definition ascii_lower :: "char \<Rightarrow> char" where
  "ascii_lower c = (if 65 \<le> (of_char c :: nat) \<and> (of_char c :: nat) \<le> 90 then char_of ((of_char c :: nat) + 32) else c)"

datatype log_format = JsonLines | TextLines

record logger =
  lg_level :: log_level
  lg_format :: log_format

definition level_of :: "string \<Rightarrow> log_level" where
  "level_of levelStr =
     (let l = map ascii_lower levelStr
      in if l = ''debug'' then LevelDebug else if l = ''info'' then LevelInfo else if l = ''warn'' then LevelWarn
         else if l = ''error'' then LevelError else LevelInfo)"

definition new_logger :: "string \<Rightarrow> string \<Rightarrow> logger" where
  "new_logger env levelStr =
     \<lparr>lg_level = level_of levelStr, lg_format = (if env = ''production'' then JsonLines else TextLines)\<rparr>"

definition logged :: "logger \<Rightarrow> log_level \<Rightarrow> 'a \<Rightarrow> (log_level \<times> 'a) list \<Rightarrow> (log_level \<times> 'a) list" where
  "logged lg l line out = (if lg_level lg \<le> l then out @ [(l, line)] else out)"

lemma errors_always_logged: "logged lg LevelError line out = out @ [(LevelError, line)]"
  by (cases "lg_level lg") (auto simp: logged_def less_eq_log_level_def)

lemma logged_grows: "\<exists>more. logged lg l line out = out @ more"
  by (simp add: logged_def)

end
