(* ===== verification/Api_Contract.thy ===== *)
theory Api_Contract imports Api begin

text \<open>
  What the API promises its clients: hidden test cases cannot be observed through it, accepted
  submissions are stored and queued, every request is answered and logged with the status the client
  gets; and where it falls short of it.
\<close>

section \<open>Hidden test cases\<close>

definition public_cases :: "test_case list \<Rightarrow> test_case list" where
  "public_cases ts = filter (\<lambda>t. tc_Visibility t = VisibilityPublic) ts"

definition with_tests :: "test_case list \<Rightarrow> database \<Rightarrow> database" where
  "with_tests ts d = d\<lparr>db_test_cases := ts\<rparr>"

definition world_tests :: "test_case list \<Rightarrow> ('q, 'h) world \<Rightarrow> ('q, 'h) world" where
  "world_tests ts w = w\<lparr>wd_db := with_tests ts (wd_db w)\<rparr>"

text \<open>
  A statement is blind when other test cases with the same public ones do not change what it returns and
  does, and it leaves the test cases alone.
\<close>

definition blind :: "'a statement \<Rightarrow> bool" where
  "blind f \<longleftrightarrow>
     (\<forall>d ts. public_cases ts = public_cases (db_test_cases d) \<longrightarrow>
        f (with_tests ts d) = map_sum (\<lambda>e. e) (apsnd (with_tests ts)) (f d)) \<and>
     (\<forall>d x d1. f d = Inr (x, d1) \<longrightarrow> db_test_cases d1 = db_test_cases d)"

lemma with_tests_sel [simp]:
  "db_now (with_tests ts d) = db_now d" "db_script (with_tests ts d) = db_script d"
  "db_executions (with_tests ts d) = db_executions d" "db_problems (with_tests ts d) = db_problems d"
  "db_submissions (with_tests ts d) = db_submissions d" "db_uuid_in (with_tests ts d) = db_uuid_in d"
  "db_uuid (with_tests ts d) = db_uuid d" "db_seq (with_tests ts d) = db_seq d"
  "db_test_cases (with_tests ts d) = ts" "fresh_id (with_tests ts d) = fresh_id d"
  by (simp_all add: with_tests_def fresh_id_def)

lemma with_tests_upd [simp]:
  "db_now_update n (with_tests ts d) = with_tests ts (db_now_update n d)"
  "db_script_update s (with_tests ts d) = with_tests ts (db_script_update s d)"
  "db_executions_update es (with_tests ts d) = with_tests ts (db_executions_update es d)"
  "db_submissions_update ss (with_tests ts d) = with_tests ts (db_submissions_update ss d)"
  "db_seq_update m (with_tests ts d) = with_tests ts (db_seq_update m d)"
  by (simp_all add: with_tests_def)

text \<open>An operation on the database that other hidden test cases do not disturb.\<close>

definition unobserving :: "(database \<Rightarrow> 'a \<times> database) \<Rightarrow> bool" where
  "unobserving op \<longleftrightarrow>
     (\<forall>d ts. public_cases ts = public_cases (db_test_cases d) \<longrightarrow> op (with_tests ts d) = apsnd (with_tests ts) (op d)) \<and>
     (\<forall>d x d1. op d = (x, d1) \<longrightarrow> db_test_cases d1 = db_test_cases d)"

lemma unobservingD:
  assumes "unobserving op" and "public_cases ts = public_cases (db_test_cases d)" and "op d = (x, d1)"
  shows "op (with_tests ts d) = (x, with_tests ts d1) \<and> public_cases ts = public_cases (db_test_cases d1)"
  using assms by (auto simp: unobserving_def)

lemma blind_apply:
  assumes "blind f" and "public_cases ts = public_cases (db_test_cases d)"
  shows "apply_stmt f (with_tests ts d) = apsnd (with_tests ts) (apply_stmt f d)"
  using assms by (auto simp: blind_def apply_stmt_def split: sum.splits)

lemma blind_run: "blind f \<Longrightarrow> unobserving (run_stmt f)"
proof -
  assume f: "blind f"
  have same: "run_stmt f (with_tests ts d) = apsnd (with_tests ts) (run_stmt f d)"
    if "public_cases ts = public_cases (db_test_cases d)" for ts d
    using that blind_apply [OF f, of ts d]
      blind_apply [OF f, of ts "d\<lparr>db_now := n, db_script := s\<rparr>" for n s]
    by (auto simp: run_stmt_def Let_def split: list.split outcome.split prod.split)
  have keep: "db_test_cases d1 = db_test_cases d" if "run_stmt f d = (x, d1)" for d x d1
    using f that by (auto simp: run_stmt_def apply_stmt_def blind_def Let_def split: list.splits outcome.splits prod.splits sum.splits)
  from same keep show ?thesis unfolding unobserving_def by blast
qed

lemma blind_query:
  assumes "\<And>d ts. public_cases ts = public_cases (db_test_cases d) \<Longrightarrow> g (with_tests ts d) = g d"
  shows "blind (query g)"
  using assms by (auto simp: blind_def query_def split: sum.splits)

lemma public_test_cases:
  "public_cases ts = public_cases (db_test_cases d) \<Longrightarrow> test_cases_of u False (with_tests ts d) = test_cases_of u False d"
proof -
  have f: "filter (\<lambda>t. tc_ProblemID t = u \<and> tc_Visibility t = VisibilityPublic) ts' =
      filter (\<lambda>t. tc_ProblemID t = u) (public_cases ts')" for ts'
    by (simp add: public_cases_def conj_commute)
  assume "public_cases ts = public_cases (db_test_cases d)"
  then show ?thesis by (simp add: test_cases_of_def f)
qed

lemma blind_inserts: "blind (insert_submission s)" "blind (insert_execution job)"
  by (auto simp: blind_def insert_submission_def insert_execution_def with_uuid_def fresh_id_def split: option.splits)

lemma blind_result: "blind f \<Longrightarrow> unobserving (\<lambda>d. apfst g (run_stmt f d))"
proof -
  assume "blind f"
  then have u: "unobserving (run_stmt f)" by (rule blind_run)
  have "db_test_cases d1 = db_test_cases d" if "apfst g (run_stmt f d) = (x, d1)" for d x d1
    using u that by (cases "run_stmt f d") (auto simp: unobserving_def)
  with u show "unobserving (\<lambda>d. apfst g (run_stmt f d))" by (simp add: unobserving_def apsnd_apfst_commute)
qed

lemma blind_lookups:
  "blind (with_uuid i (\<lambda>u. query (\<lambda>d. Inr (find_row pb_ID u (db_problems d)))))"
  "blind (with_uuid i (\<lambda>u. query (\<lambda>d. Inr (find_row sb_ID u (db_submissions d)))))"
  "blind (with_uuid i (\<lambda>u. query (\<lambda>d. Inr (test_cases_of u False d))))"
  unfolding with_uuid_query by (rule blind_query; simp add: public_test_cases split: option.split)+

lemma unobserving_gets:
  "unobserving (problem_get_by_id i)" "unobserving (submission_get_by_id i)" "unobserving (get_execution i)"
proof -
  have p: "problem_get_by_id i = (\<lambda>d. apfst (\<lambda>x. case x of Inl e \<Rightarrow> Inl e | Inr None \<Rightarrow> Inl ErrProblemNotFound | Inr (Some p) \<Rightarrow> Inr p)
      (run_stmt (with_uuid i (\<lambda>u. query (\<lambda>d. Inr (find_row pb_ID u (db_problems d))))) d))"
    by (rule ext) (simp add: problem_get_by_id_def split: prod.split sum.split option.split)
  show "unobserving (problem_get_by_id i)" unfolding p by (intro blind_result blind_lookups)
  have s: "submission_get_by_id i = (\<lambda>d. apfst (\<lambda>x. case x of Inl e \<Rightarrow> Inl e | Inr None \<Rightarrow> Inl ErrSubmissionNotFound | Inr (Some p) \<Rightarrow> Inr p)
      (run_stmt (with_uuid i (\<lambda>u. query (\<lambda>d. Inr (find_row sb_ID u (db_submissions d))))) d))"
    by (rule ext) (simp add: submission_get_by_id_def split: prod.split sum.split option.split)
  show "unobserving (submission_get_by_id i)" unfolding s by (intro blind_result blind_lookups)
  have e: "get_execution i = (\<lambda>d. apfst (\<lambda>x. case x of Inl e \<Rightarrow> Inl (Wrapped ''failed to scan job: '' e [])
        | Inr None \<Rightarrow> Inl ErrJobNotFound | Inr (Some r) \<Rightarrow> Inr (job_of_row r))
      (run_stmt (query (\<lambda>d. Inr (find_row er_id i (db_executions d)))) d))"
    by (rule ext) (simp add: get_execution_def pg_get_def split: prod.split sum.split option.split)
  show "unobserving (get_execution i)" unfolding e by (intro blind_result blind_query) simp
qed

lemma unobserving_lists:
  "unobserving problem_list_all" "unobserving (test_case_get_by_problem_id i False)" "unobserving ping_db"
proof -
  have l: "problem_list_all = run_stmt (query (\<lambda>d. Inr (sort_key (\<lambda>p. - pb_CreatedAt p) (db_problems d))))"
    by (rule ext) (simp add: problem_list_all_def)
  show "unobserving problem_list_all" unfolding l by (intro blind_run blind_query) simp
  have t: "test_case_get_by_problem_id i False = run_stmt (with_uuid i (\<lambda>u. query (\<lambda>d. Inr (test_cases_of u False d))))"
    by (rule ext) (simp add: test_case_get_by_problem_id_def)
  show "unobserving (test_case_get_by_problem_id i False)" unfolding t by (intro blind_run blind_lookups)
  have g: "ping_db = (\<lambda>d. apfst (\<lambda>x. case x of Inl e \<Rightarrow> Some e | Inr u \<Rightarrow> None) (run_stmt (query (\<lambda>d. Inr ())) d))"
    by (rule ext) (simp add: ping_db_def split: prod.split sum.split)
  show "unobserving ping_db" unfolding g by (intro blind_result blind_query) simp
qed

lemma unobserving_writes: "unobserving (submission_create s)" "unobserving (pg_create job)"
proof -
  have c: "submission_create s = (\<lambda>d. apfst (map_sum (\<lambda>e. e) (\<lambda>i. s\<lparr>sb_ID := i\<rparr>)) (run_stmt (insert_submission s) d))"
    by (rule ext) (simp add: submission_create_def split: prod.split sum.split)
  show "unobserving (submission_create s)" unfolding c by (intro blind_result blind_inserts)
  show "unobserving (pg_create job)"
  proof (cases "ej_Status job = JobQueued")
    case True
    then have p: "pg_create job = (\<lambda>d. apfst (\<lambda>x. case x of Inl e \<Rightarrow> Some (Wrapped ''failed to insert job: '' e []) | Inr n \<Rightarrow> None)
        (run_stmt (insert_execution job) d))"
      by (intro ext) (simp add: pg_create_def split: prod.split sum.split)
    show ?thesis unfolding p by (intro blind_result blind_inserts)
  next
    case False
    then show ?thesis by (simp add: unobserving_def pg_create_def)
  qed
qed

lemmas unobserving_ops = unobserving_gets unobserving_lists unobserving_writes

lemma world_tests_sel [simp]:
  "wd_db (world_tests ts w) = with_tests ts (wd_db w)" "wd_queue (world_tests ts w) = wd_queue w"
  "wd_host (world_tests ts w) = wd_host w"
  by (simp_all add: world_tests_def)

lemma world_tests_upd [simp]:
  "(world_tests ts w)\<lparr>wd_db := with_tests ts d\<rparr> = world_tests ts (w\<lparr>wd_db := d\<rparr>)"
  "wd_queue_update q (world_tests ts w) = world_tests ts (wd_queue_update q w)"
  "wd_host_update h (world_tests ts w) = world_tests ts (wd_host_update h w)"
  by (simp_all add: world_tests_def)

lemma create_execution_tests:
  assumes "public_cases ts = public_cases (db_test_cases d)"
    and "create_execution C q registry ulid now req (d, s) = (res, d1, s1)"
  shows "create_execution C q registry ulid now req (with_tests ts d, s) = (res, with_tests ts d1, s1)"
proof -
  obtain e d2 where c: "pg_create (new_job ulid now req) d = (e, d2)" by fastforce
  from unobservingD [OF unobserving_writes(2) assms(1) c] assms(2) c show ?thesis
    by (auto simp: create_execution_def Let_def split: if_splits sum.splits option.splits prod.splits)
qed

lemma call_create_tests:
  assumes "public_cases ts = public_cases (db_test_cases (wd_db w))" and "call_create A req w = (res, w1)"
  shows "call_create A req (world_tests ts w) = (res, world_tests ts w1)"
proof -
  obtain u now h res2 d s where n: "ap_new_id A (wd_host w) = ((u, now), h)"
    and c: "create_execution (ap_redis A) (ap_queue A) (ap_registry A) u now req (wd_db w, wd_queue w) = (res2, d, s)"
    by (metis surj_pair)
  from create_execution_tests [OF assms(1) c] n c assms(2) show ?thesis
    by (auto simp: call_create_def)
qed

definition keeps_tests_hidden :: "('q, 'h) endpoint \<Rightarrow> bool" where
  "keeps_tests_hidden h \<longleftrightarrow>
     (\<forall>A r w ts. public_cases ts = public_cases (db_test_cases (wd_db w)) \<longrightarrow>
        h A r (world_tests ts w) = apsnd (world_tests ts) (h A r w))"

lemma keeps_tests_hiddenI:
  "(\<And>A r w ts. public_cases ts = public_cases (db_test_cases (wd_db w)) \<Longrightarrow>
      h A r (world_tests ts w) = apsnd (world_tests ts) (h A r w)) \<Longrightarrow> keeps_tests_hidden h"
  by (simp add: keeps_tests_hidden_def)

text \<open>An endpoint that makes one access to the database.\<close>

lemma one_access:
  assumes "unobserving op" and "public_cases ts = public_cases (db_test_cases (wd_db w))"
    and "\<And>x d1. op (wd_db w) = (x, d1) \<Longrightarrow> op (with_tests ts (wd_db w)) = (x, with_tests ts d1) \<Longrightarrow>
      public_cases ts = public_cases (db_test_cases d1) \<Longrightarrow> Q"
  shows Q
  using unobservingD [OF assms(1,2)] assms(3) by (metis surj_pair)

lemma plain_tests:
  "keeps_tests_hidden handle_health_live" "keeps_tests_hidden handle_version" "keeps_tests_hidden analyze_code"
  by (rule keeps_tests_hiddenI;
      simp add: handle_health_live_def handle_version_def analyze_code_def split: option.split sum.split prod.split)+

lemma list_problems_tests: "keeps_tests_hidden list_problems"
proof (rule keeps_tests_hiddenI)
  fix A :: "('q, 'h) api" and r and w :: "('q, 'h) world" and ts
  assume s: "public_cases ts = public_cases (db_test_cases (wd_db w))"
  show "list_problems A r (world_tests ts w) = apsnd (world_tests ts) (list_problems A r w)"
    by (rule one_access [OF unobserving_lists(1) s]) (simp add: list_problems_def split: sum.split)
qed

lemma get_submission_tests: "keeps_tests_hidden get_submission"
proof (rule keeps_tests_hiddenI)
  fix A :: "('q, 'h) api" and r and w :: "('q, 'h) world" and ts
  assume s: "public_cases ts = public_cases (db_test_cases (wd_db w))"
  show "get_submission A r (world_tests ts w) = apsnd (world_tests ts) (get_submission A r w)"
    by (rule one_access [OF unobserving_gets(2) [of "path_value r ''id''"] s]) (simp add: get_submission_def split: sum.split)
qed

lemma get_run_tests: "keeps_tests_hidden get_run"
proof (rule keeps_tests_hiddenI)
  fix A :: "('q, 'h) api" and r and w :: "('q, 'h) world" and ts
  assume s: "public_cases ts = public_cases (db_test_cases (wd_db w))"
  show "get_run A r (world_tests ts w) = apsnd (world_tests ts) (get_run A r w)"
    by (rule one_access [OF unobserving_gets(3) [of "path_value r ''id''"] s]) (simp add: get_run_def split: sum.split)
qed

lemma handle_get_execution_tests: "keeps_tests_hidden handle_get_execution"
proof (rule keeps_tests_hiddenI)
  fix A :: "('q, 'h) api" and r and w :: "('q, 'h) world" and ts
  assume s: "public_cases ts = public_cases (db_test_cases (wd_db w))"
  show "handle_get_execution A r (world_tests ts w) = apsnd (world_tests ts) (handle_get_execution A r w)"
    by (rule one_access [OF unobserving_gets(3) [of "split_on (CHR ''/'') (url_path r) ! 4"] s]) (simp add: handle_get_execution_def Let_def split: sum.split)
qed

lemma handle_health_ready_tests: "keeps_tests_hidden handle_health_ready"
proof (rule keeps_tests_hiddenI)
  fix A :: "('q, 'h) api" and r and w :: "('q, 'h) world" and ts
  assume s: "public_cases ts = public_cases (db_test_cases (wd_db w))"
  have ready: "ready_redis A r (world_tests ts w) = apsnd (world_tests ts) (ready_redis A r w)" for w :: "('q, 'h) world"
    by (simp add: ready_redis_def split: option.split prod.split)
  show "handle_health_ready A r (world_tests ts w) = apsnd (world_tests ts) (handle_health_ready A r w)"
    by (rule one_access [OF unobserving_lists(3) s]) (simp add: handle_health_ready_def ready split: option.split)
qed

lemma get_problem_tests: "keeps_tests_hidden get_problem"
proof (rule keeps_tests_hiddenI)
  fix A :: "('q, 'h) api" and r and w :: "('q, 'h) world" and ts
  let ?i = "path_value r ''id''"
  assume s: "public_cases ts = public_cases (db_test_cases (wd_db w))"
  show "get_problem A r (world_tests ts w) = apsnd (world_tests ts) (get_problem A r w)"
  proof (rule one_access [OF unobserving_gets(1) [of ?i] s])
    fix x d1
    assume p: "problem_get_by_id ?i (wd_db w) = (x, d1)"
      "problem_get_by_id ?i (with_tests ts (wd_db w)) = (x, with_tests ts d1)"
      and s1: "public_cases ts = public_cases (db_test_cases d1)"
    obtain y d2 where t: "test_case_get_by_problem_id ?i False d1 = (y, d2)" by fastforce
    from unobservingD [OF unobserving_lists(2) s1 t] t p show ?thesis
      by (simp add: get_problem_def split: sum.split)
  qed
qed

lemma create_submission_tests: "keeps_tests_hidden create_submission"
proof (rule keeps_tests_hiddenI)
  fix A :: "('q, 'h) api" and r and w :: "('q, 'h) world" and ts
  assume s: "public_cases ts = public_cases (db_test_cases (wd_db w))"
  have store: "store_submission A sub (world_tests ts w1) = apsnd (world_tests ts) (store_submission A sub w1)"
    if s1: "public_cases ts = public_cases (db_test_cases (wd_db w1))" for sub and w1 :: "('q, 'h) world"
    by (rule one_access [OF unobserving_writes(1) [of sub] s1])
      (simp add: store_submission_def split: sum.split prod.split option.split)
  show "create_submission A r (world_tests ts w) = apsnd (world_tests ts) (create_submission A r w)"
  proof (rule one_access [OF unobserving_gets(1) [of "path_value r ''id''"] s])
    fix x d1
    assume p: "problem_get_by_id (path_value r ''id'') (wd_db w) = (x, d1)"
      "problem_get_by_id (path_value r ''id'') (with_tests ts (wd_db w)) = (x, with_tests ts d1)"
      and "public_cases ts = public_cases (db_test_cases d1)"
    with store [of "w\<lparr>wd_db := d1\<rparr>"] show ?thesis
      by (simp add: create_submission_def split: sum.split)
  qed
qed

lemma create_tests: "keeps_tests_hidden guarded_execute" "keeps_tests_hidden create_run"
proof -
  have c: "call_create A req (world_tests ts w) = apsnd (world_tests ts) (call_create A req w)"
    if "public_cases ts = public_cases (db_test_cases (wd_db w))" for A req ts w
    using call_create_tests [OF that, of A req] by (cases "call_create A req w") simp
  show "keeps_tests_hidden guarded_execute"
    by (rule keeps_tests_hiddenI) (simp add: guarded_execute_def handle_execute_def c split: sum.split prod.split)
  show "keeps_tests_hidden create_run"
    by (rule keeps_tests_hiddenI) (simp add: create_run_def c split: sum.split prod.split)
qed

lemmas public_endpoints = plain_tests list_problems_tests get_submission_tests get_run_tests handle_get_execution_tests
  handle_health_ready_tests get_problem_tests create_submission_tests create_tests

definition admin_target :: "api_target \<Rightarrow> bool" where
  "admin_target t \<longleftrightarrow> t \<in> {CreateProblem, CreateFullProblem, CreateTestCase}"

lemma public_endpoint: "endpoint_of t = Some h \<Longrightarrow> \<not> admin_target t \<Longrightarrow> keeps_tests_hidden h"
  by (cases t) (auto simp: admin_target_def public_endpoints)

lemma admin_path:
  assumes "mux_lookup api_routes r = Route t vars" and "admin_target t"
  shows "\<exists>ss. hq_segments r = ''admin'' # ss"
proof -
  from assms(1) have "find_route api_routes (hq_method r) (hq_segments r) = Some (t, vars)"
    by (auto simp: mux_lookup_def split: if_splits option.splits prod.splits)
  then obtain p where "p \<in> set api_routes" "rt_target p = t" "match_path p (hq_segments r) = Some vars"
    using find_route_Some by metis
  with assms(2) show ?thesis
    by (cases "hq_segments r") (auto simp: route_defs admin_target_def match_path_def split: if_splits)
qed

section \<open>Properties\<close>


lemma submission_create_Inr:
  assumes "submission_create s d = (Inr s1, d1)"
  shows "\<exists>i u. s1 = s\<lparr>sb_ID := i\<rparr> \<and>
    find_row sb_ID i (db_submissions d1) = Some (s\<lparr>sb_ID := i, sb_ProblemID := u, sb_StartedAt := None\<rparr>)"
proof -
  from assms obtain i where r: "run_stmt (insert_submission s) d = (Inr i, d1)" and s1: "s1 = s\<lparr>sb_ID := i\<rparr>"
    by (auto simp: submission_create_def split: prod.splits sum.splits)
  from run_stmt_InrD [OF r] obtain d0 where d0: "insert_submission s d0 = Inr (i, d1)" by blast
  then obtain u where n: "find_row sb_ID i (db_submissions d0) = None" and
    d1: "db_submissions d1 = db_submissions d0 @ [s\<lparr>sb_ID := i, sb_ProblemID := u, sb_StartedAt := None\<rparr>]"
    by (auto simp: insert_submission_def split: if_splits)
  then show ?thesis using s1 by (intro exI [of _ i] exI [of _ u]) (simp add: find_row_append)
qed

text \<open>
  C21: an accepted submission (202) is stored and queued: its problem exists and is published, its language
  has an executor, its row holds the program, queued and pending, and exactly one entry, a submission with
  the id of the row, was added to the stream. The row is dated with the zero time, the first of January of
  the year 1, as the handler sets no time and the insert stores what it is given.
\<close>

theorem accepted_submission_is_stored_and_queued:
  fixes A :: "('q \<times> queue_event list, 'h) api"
  assumes "ap_redis A = logged_redis C" and "create_submission A r w = (rep, w1)" and "reply_status rep = 202"
  shows "\<exists>req p i row. ap_submission_request A (hq_body r) = Inr req \<and> p \<in> set (db_problems (wd_db w)) \<and>
    pb_Status p = ''PUBLISHED'' \<and> (\<exists>ex. get_executor (ap_registry A) (cs_Language req) = Inr ex) \<and>
    rep = JsonReply False (Some 202) (SubmissionValue ((new_submission p req)\<lparr>sb_ID := i\<rparr>)) \<and>
    find_row sb_ID i (db_submissions (wd_db w1)) = Some row \<and> sb_Status row = SubmissionStatusQueued \<and>
    sb_Verdict row = VerdictPending \<and> sb_Language row = cs_Language req \<and> sb_SourceCode row = cs_SourceCode req \<and>
    sb_CreatedAt row = zero_time \<and>
    added (snd (wd_queue w1)) = added (snd (wd_queue w)) @ [job_entry i ''submission''] \<and>
    acked (snd (wd_queue w1)) = acked (snd (wd_queue w))"
proof -
  from assms(2,3) obtain req p d where req: "ap_submission_request A (hq_body r) = Inr req"
    and p: "problem_get_by_id (path_value r ''id'') (wd_db w) = (Inr p, d)" "pb_Status p = ProblemStatusPublished"
    and ex: "\<exists>ex. get_executor (ap_registry A) (cs_Language req) = Inr ex"
    and st: "store_submission A (new_submission p req) (w\<lparr>wd_db := d\<rparr>) = (rep, w1)"
    by (auto simp: create_submission_def reply_status_def split: sum.splits prod.splits if_splits)
  from st assms(3) obtain sub d1 s where c: "submission_create (new_submission p req) d = (Inr sub, d1)"
    and e: "enqueue (ap_redis A) (ap_queue A) (sb_ID sub) ''submission'' (wd_queue w) = (None, s)"
    and rep: "rep = JsonReply False (Some 202) (SubmissionValue sub)" "w1 = w\<lparr>wd_db := d1, wd_queue := s\<rparr>"
    by (auto simp: store_submission_def reply_status_def split: sum.splits prod.splits option.splits)
  obtain q l q1 l1 where q: "wd_queue w = (q, l)" "s = (q1, l1)" by (metis surj_pair)
  from e q assms(1) have e1: "enqueue (logged_redis C) (ap_queue A) (sb_ID sub) ''submission'' (q, l) = (None, q1, l1)" by simp
  from submission_create_Inr [OF c] obtain i u where i: "sub = (new_submission p req)\<lparr>sb_ID := i\<rparr>"
    "find_row sb_ID i (db_submissions d1) =
       Some ((new_submission p req)\<lparr>sb_ID := i, sb_ProblemID := u, sb_StartedAt := None\<rparr>)" by blast
  have "p \<in> set (db_problems (wd_db w))" using problem_get_Inr [OF p(1)] find_row_SomeD by metis
  with req p(2) ex rep i q enqueue_logged [OF e1] show ?thesis
    by (auto simp: new_submission_def ProblemStatusPublished_def)
qed


text \<open>
  the two ways to start a run disagree on a language without executor: \<^verbatim>\<open>/run\<close> answers 400, but
  \<^verbatim>\<open>/api/v1/executions\<close> answers 500, unless the name of the language happens to make the text of the
  error contain the word it looks for.
\<close>

theorem unsupported_language_is_server_error:
  assumes "hq_method r = ''POST''" and "ap_job_request A (hq_body r) = Inr req"
    and "jr_Language req \<noteq> []" and "jr_SourceCode req \<noteq> []"
    and "get_executor (ap_registry A) (jr_Language req) = Inl e"
    and "\<not> contains_sub ''required'' (''unsupported language: '' @ jr_Language req)"
    and "ap_run_request A (hq_body g) = Inr runreq" and "cr_Language runreq = jr_Language req"
  shows "fst (handle_execute A r w) = ErrorReply 500 ''Internal Server Error'' \<and>
    create_run A g w = (ErrorReply 400 ''unsupported language'', w)"
proof -
  obtain u now h where n: "ap_new_id A (wd_host w) = ((u, now), h)" by (metis surj_pair)
  have "call_create A req w = (Inl (ErrMsg (''unsupported language: '' @ jr_Language req)), w\<lparr>wd_host := h\<rparr>)"
    using assms(3-5) n by (simp add: call_create_def create_execution_def)
  with assms(1,2,6) have "fst (handle_execute A r w) = ErrorReply 500 ''Internal Server Error''"
    by (simp add: handle_execute_def create_failure_def)
  with assms(5,7,8) show ?thesis by (simp add: create_run_def)
qed

lemma get_execution_request:
  assumes "hq_clean r" and "hq_method r = ''GET''"
    and "hq_segments r = [''api'', ''v1'', ''executions''] @ x # rest" and "CHR ''/'' \<notin> set x"
  shows "api_request A r w =
    (case get_execution x (wd_db w) of
       (Inl err, d) \<Rightarrow> (Answered (if errors_is err ErrJobNotFound then ErrorReply 404 ''Not found''
                         else ErrorReply 500 ''Internal Server Error''), w\<lparr>wd_db := d\<rparr>)
     | (Inr job, d) \<Rightarrow> (Answered (JsonReply True (Some 200) (execution_view job)), w\<lparr>wd_db := d\<rparr>))"
proof -
  have route: "mux_lookup api_routes r = Route GetExecution []"
    using assms(1-3) by (simp add: mux_lookup_def route_defs match_path_def method_matches_def)
  have split: "split_on (CHR ''/'') (url_path (r\<lparr>hq_vars := []\<rparr>)) =
      [] # ''api'' # ''v1'' # ''executions'' # split_on (CHR ''/'') (x @ concat (map (\<lambda>s. CHR ''/'' # s) rest))"
    using assms(3) by (simp add: url_path_def)
  have "split_on (CHR ''/'') (x @ concat (map (\<lambda>s. CHR ''/'' # s) rest)) ! 0 = x"
    using assms(4) by (cases rest) (simp_all add: split_on_no_sep split_on_append_free)
  moreover have "split_on (CHR ''/'') (x @ concat (map (\<lambda>s. CHR ''/'' # s) rest)) \<noteq> []" by simp
  ultimately show ?thesis
    using assms(2)
    by (auto simp: api_request_def route handle_get_execution_def split Let_def Suc_le_eq split: prod.split sum.split)
qed

text \<open>
  the id of an execution is the fourth segment of the path, whatever follows it: the handler answers for
  that id even when it is empty or when more segments follow, and its answer for a missing id is never
  sent.
\<close>

theorem execution_id_is_fourth_segment:
  assumes "hq_clean r" and "hq_method r = ''GET''"
    and "hq_segments r = [''api'', ''v1'', ''executions''] @ x # rest" and "CHR ''/'' \<notin> set x"
  shows "api_request A r w =
    (case get_execution x (wd_db w) of
       (Inl err, d) \<Rightarrow> (Answered (if errors_is err ErrJobNotFound then ErrorReply 404 ''Not found''
                         else ErrorReply 500 ''Internal Server Error''), w\<lparr>wd_db := d\<rparr>)
     | (Inr job, d) \<Rightarrow> (Answered (JsonReply True (Some 200) (execution_view job)), w\<lparr>wd_db := d\<rparr>))"
  using get_execution_request [OF assms] .

lemma created_row:
  assumes "pg_create job d = (None, d1)"
  shows "\<exists>r. find_row er_id (ej_ID job) (db_executions d1) = Some r \<and> er_id r = ej_ID job \<and>
    er_job_status r = JobQueued \<and> er_results r = None \<and> er_started_at r = None \<and> er_completed_at r = None"
  using pg_create_Inr [OF assms] by (auto simp: insert_execution_def find_row_append split: if_splits)

text \<open>
  C22: an accepted execution can be fetched: with the id of the 202 answer, a request for the execution that
  the database answers returns the queued job, without results yet.
\<close>

theorem accepted_execution_can_be_fetched:
  assumes "handle_execute A r w = (JsonReply True (Some 202) (AcceptedValue i st), w1)"
    and "CHR ''/'' \<notin> set i" and "db_script (wd_db w1) = []"
    and "hq_clean g" and "hq_method g = ''GET''" and "hq_segments g = [''api'', ''v1'', ''executions'', i]"
  shows "\<exists>created. fst (api_request A g w1) =
    Answered (JsonReply True (Some 200) (ExecutionValue i JobQueued created None None []))"
proof -
  from assms(1) obtain req job where c: "call_create A req w = (Inr job, w1)" and j: "ej_ID job = i"
    by (auto simp: handle_execute_def create_failure_def split: if_splits sum.splits prod.splits)
  from c obtain u now s where "create_execution (ap_redis A) (ap_queue A) (ap_registry A) u now req (wd_db w, wd_queue w)
      = (Inr job, wd_db w1, s)"
    by (auto simp: call_create_def split: prod.splits)
  from create_execution_Inr [OF this] have p: "pg_create (new_job u now req) (wd_db w) = (None, wd_db w1)"
    and id: "ej_ID (new_job u now req) = i" using j by auto
  from created_row [OF p] obtain row where row: "find_row er_id i (db_executions (wd_db w1)) = Some row" "er_id row = i"
    "er_job_status row = JobQueued" "er_results row = None" "er_started_at row = None" "er_completed_at row = None"
    unfolding id by auto
  have "get_execution i (wd_db w1) = (Inr (job_of_row row), wd_db w1)"
    using assms(3) row(1) by (simp add: get_execution_def pg_get_def run_stmt_def apply_stmt_def query_def)
  with get_execution_request [OF assms(4,5), of i "[]" A w1] assms(2,6) row show ?thesis
    by (simp add: execution_view_def job_of_row_def)
qed

section \<open>Shutdown\<close>

lemma api_request_eq:
  fixes A A1 :: "('q, 'h) api"
  assumes "mux_lookup api_routes r1 = mux_lookup api_routes r"
    and "\<And>t h vars. mux_lookup api_routes r = Route t vars \<Longrightarrow> endpoint_of t = Some h \<Longrightarrow>
      h A1 (r1\<lparr>hq_vars := vars\<rparr>) w = h A (r\<lparr>hq_vars := vars\<rparr>) w"
  shows "api_request A1 r1 w = api_request A r w"
proof (cases "mux_lookup api_routes r")
  case (Route t vars)
  show ?thesis
  proof (cases "endpoint_of t :: ('q, 'h) endpoint option")
    case (Some h)
    with assms(2) [OF Route this] Route show ?thesis by (simp add: api_request_def assms(1))
  qed (simp add: api_request_def assms(1) Route)
qed (simp_all add: api_request_def assms(1))

lemma shutdown_unread:
  assumes "endpoint_of t = Some h" and "t \<notin> {Execute, HealthReady}"
  shows "h (A\<lparr>ap_shuttingDown := b\<rparr>) r w = h A r w"
proof -
  have c: "call_create (A\<lparr>ap_shuttingDown := b\<rparr>) = call_create A"
    by (intro ext) (simp add: call_create_def)
  have st: "store_submission (A\<lparr>ap_shuttingDown := b\<rparr>) = store_submission A"
    by (intro ext) (simp add: store_submission_def cong: sum.case_cong prod.case_cong)
  from assms show ?thesis
    by (cases t; clarsimp) (simp_all add: handle_health_live_def handle_version_def handle_get_execution_def
        create_problem_def create_full_problem_def create_test_case_def list_problems_def get_problem_def
        create_submission_def get_submission_def create_run_def get_run_def analyze_code_def c st
        cong: sum.case_cong prod.case_cong option.case_cong if_cong)
qed

text \<open>
  while the server shuts down, only \<^verbatim>\<open>/api/v1/executions\<close> refuses new work, without touching anything;
  every other request, a new run or submission included, is handled as before (readiness apart).
\<close>

theorem shutdown_stops_only_executions:
  fixes A :: "('q, 'h) api"
  assumes "mux_lookup api_routes r = Route t vars"
  shows "if t = Execute
    then api_request (A\<lparr>ap_shuttingDown := True\<rparr>) r w =
      (Answered (ErrorReply 503 ''Service Unavailable - Shutting Down''), w)
    else t = HealthReady \<or> api_request (A\<lparr>ap_shuttingDown := True\<rparr>) r w = api_request A r w"
proof (cases "t = Execute \<or> t = HealthReady")
  case True
  then show ?thesis by (auto simp: api_request_def assms guarded_execute_def)
next
  case False
  then have "api_request (A\<lparr>ap_shuttingDown := True\<rparr>) r w = api_request A r w"
    by (intro api_request_eq) (auto simp: assms intro: shutdown_unread)
  with False show ?thesis by simp
qed

section \<open>Answers\<close>

definition api_handler :: "int \<Rightarrow> (api_target \<Rightarrow> (string \<times> string) list \<Rightarrow> (api_value, ('q, 'h) world) handler) \<Rightarrow>
    ('q, 'h) api \<Rightarrow> (api_value, ('q, 'h) world) handler" where
  "api_handler code sockets A r wr w =
     (case api_request A r w of
        (Answered rep, w1) \<Rightarrow> (Finished, write_reply rep wr, w1)
      | (Redirected, w1) \<Rightarrow> (Finished, write_header code wr, w1)
      | (Upgrading t vars, w1) \<Rightarrow> sockets t vars (r\<lparr>hq_vars := vars\<rparr>) wr w1)"

definition draw_request_id :: "'s platform \<Rightarrow> request \<Rightarrow> 's \<Rightarrow> string \<times> 's" where
  "draw_request_id F r s =
     (if hq_header r ''X-Request-ID'' = [] then generate_request_id F s else (hq_header r ''X-Request-ID'', s))"

lemma api_request_id: "api_request A (r\<lparr>hq_request_id := i\<rparr>) w = api_request A r w"
proof -
  have p: "path_value (r\<lparr>hq_request_id := i, hq_vars := v\<rparr>) = path_value (r\<lparr>hq_vars := v\<rparr>)"
    "url_path (r\<lparr>hq_request_id := i, hq_vars := v\<rparr>) = url_path (r\<lparr>hq_vars := v\<rparr>)" for v
    by (auto simp: path_value_def url_path_def)
  have "h A (r\<lparr>hq_request_id := i, hq_vars := v\<rparr>) w = h A (r\<lparr>hq_vars := v\<rparr>) w" if "endpoint_of t = Some h" for h t v
    using that by (cases t; clarsimp) (simp_all add: handler_defs p cong: sum.case_cong prod.case_cong option.case_cong)
  then show ?thesis by (intro api_request_eq) (auto simp: mux_lookup_def)
qed



section \<open>Examples\<close>

definition request_to :: "string \<Rightarrow> string list \<Rightarrow> request" where
  "request_to method path =
     \<lparr>hq_method = method, hq_segments = path, hq_clean = True, hq_header = (\<lambda>k. []), hq_body = [], hq_vars = [],
      hq_request_id = None\<rparr>"

definition api_example :: "(nat \<times> queue_event list, nat) api" where
  "api_example =
     \<lparr>ap_redis = logged_redis silent_redis, ap_queue = new_redis_queue ''jobs'' ''g'' 10, ap_registry = main_registry,
      ap_analyzer = None, ap_shuttingDown = False, ap_has_db = True, ap_redis_ping = None,
      ap_new_id = (\<lambda>n. ((dec_of_nat n, 5), Suc n)),
      ap_problem = (\<lambda>b. Inr problem_example),
      ap_full_problem = (\<lambda>b. Inr \<lparr>fp_Problem = problem_example, fp_TestCases = Some [(test_example [])\<lparr>tc_Input := [CHR 0x00]\<rparr>]\<rparr>),
      ap_test_case = (\<lambda>b. Inr (test_example [])), ap_job_request = (\<lambda>b. Inr job_request_example),
      ap_run_request = (\<lambda>b. Inr \<lparr>cr_Language = ''ruby'', cr_SourceCode = ''x'', cr_Inputs = None\<rparr>),
      ap_submission_request = (\<lambda>b. Inr \<lparr>cs_UserID = ''u'', cs_Language = ''sql'', cs_SourceCode = ''x''\<rparr>)\<rparr>"

definition shop_world :: "f64 problem list \<Rightarrow> (nat \<times> queue_event list, nat) world" where
  "shop_world ps = \<lparr>wd_db = database_example []\<lparr>db_problems := ps\<rparr>, wd_queue = (0, []), wd_host = 1\<rparr>"

theorem routes_unambiguous_witness:
  "match_path (api_routes ! 0) [''problems'', ''7''] = None \<or> match_path (api_routes ! 9) [''problems'', ''7''] = None"
  by (rule routes_unambiguous) (simp_all add: route_defs)


lemma submission_example_stored:
  "\<exists>rep w1. create_submission api_example ((request_to ''POST'' [])\<lparr>hq_vars := [(''id'', ''p1'')]\<rparr>)
     (shop_world [problem_example]) = (rep, w1) \<and> reply_status rep = 202"
proof -
  have st: "submission_storable (new_submission problem_example \<lparr>cs_UserID = ''u'', cs_Language = ''sql'', cs_SourceCode = ''x''\<rparr>)"
    by code_simp
  have sql: "\<exists>ex. get_executor main_registry ''sql'' = Inr ex" by (simp add: get_executor_def main_registry_simps)
  then obtain ex where ex: "get_executor main_registry ''sql'' = Inr ex" ..
  have id: "sb_ProblemID (new_submission problem_example req) = ''p1''" for req
    by (simp add: new_submission_def problem_example_def)
  have pub: "pb_Status problem_example = ProblemStatusPublished" "pb_ID problem_example = ''p1''"
    by (simp_all add: problem_example_def ProblemStatusPublished_def)
  show ?thesis
    using st ex
    by (simp add: create_submission_def store_submission_def api_example_def shop_world_def request_to_def path_value_def
        problem_get_by_id_def run_stmt_def apply_stmt_def query_def with_uuid_def database_example_def pub id
        submission_create_def insert_submission_def fresh_id_def enqueue_def new_redis_queue_def logged_redis_def
        silent_redis_def reply_status_def)
qed

theorem accepted_submission_is_stored_and_queued_witness:
  "\<exists>i w1. added (snd (wd_queue (w1 :: (nat \<times> queue_event list, nat) world))) = [job_entry i ''submission'']"
proof -
  obtain rep w1 where s: "create_submission api_example ((request_to ''POST'' [])\<lparr>hq_vars := [(''id'', ''p1'')]\<rparr>)
     (shop_world [problem_example]) = (rep, w1)" "reply_status rep = 202" using submission_example_stored by blast
  have "ap_redis api_example = logged_redis silent_redis" by (simp add: api_example_def)
  from accepted_submission_is_stored_and_queued [OF this s] show ?thesis by (auto simp: shop_world_def)
qed



theorem unsupported_language_is_server_error_witness:
  "fst (handle_execute (api_example\<lparr>ap_job_request := (\<lambda>b. Inr (job_request_example\<lparr>jr_Language := ''ruby''\<rparr>))\<rparr>)
      (request_to ''POST'' []) (shop_world [])) = ErrorReply 500 ''Internal Server Error'' \<and>
   create_run (api_example\<lparr>ap_job_request := (\<lambda>b. Inr (job_request_example\<lparr>jr_Language := ''ruby''\<rparr>))\<rparr>)
      (request_to ''POST'' []) (shop_world []) = (ErrorReply 400 ''unsupported language'', shop_world [])"
proof -
  have "''ruby'' \<notin> dom main_registry" unfolding main_registry_dom by simp
  then have ruby: "get_executor main_registry ''ruby'' = Inl ErrUnsupportedLanguage"
    by (simp add: get_executor_def domIff)
  have no_req: "\<not> contains_sub ''required'' (''unsupported language: '' @ ''ruby'')" by code_simp
  show ?thesis
    by (rule unsupported_language_is_server_error
        [where req = "job_request_example\<lparr>jr_Language := ''ruby''\<rparr>" and e = ErrUnsupportedLanguage and
          runreq = "\<lparr>cr_Language = ''ruby'', cr_SourceCode = ''x'', cr_Inputs = None\<rparr>"])
      (use no_req in \<open>simp_all add: request_to_def api_example_def job_request_example_def ruby\<close>)
qed

theorem execution_id_is_fourth_segment_witness:
  "fst (api_request api_example (request_to ''GET'' [''api'', ''v1'', ''executions'', []]) (shop_world [])) =
     Answered (ErrorReply 404 ''Not found'')"
proof -
  have "api_request api_example (request_to ''GET'' [''api'', ''v1'', ''executions'', []]) (shop_world []) =
    (case get_execution [] (wd_db (shop_world [])) of
       (Inl err, d) \<Rightarrow> (Answered (if errors_is err ErrJobNotFound then ErrorReply 404 ''Not found''
                         else ErrorReply 500 ''Internal Server Error''), (shop_world [])\<lparr>wd_db := d\<rparr>)
     | (Inr job, d) \<Rightarrow> (Answered (JsonReply True (Some 200) (execution_view job)), (shop_world [])\<lparr>wd_db := d\<rparr>))"
    by (rule execution_id_is_fourth_segment) (simp_all add: request_to_def)
  then show ?thesis
    by (simp add: get_execution_def pg_get_def run_stmt_def apply_stmt_def query_def shop_world_def database_example_def)
qed

lemma handle_execute_empty:
  fixes w :: "(nat \<times> queue_event list, nat) world"
  assumes "db_script (wd_db w) = []" and "db_executions (wd_db w) = []" and "wd_host w = 1"
  shows "\<exists>w1. handle_execute api_example (request_to ''POST'' []) w =
     (JsonReply True (Some 202) (AcceptedValue ''exec_1'' JobQueued), w1) \<and> db_script (wd_db w1) = []"
proof -
  have py: "\<exists>ex. get_executor main_registry ''python'' = Inr ex" by (simp add: get_executor_def main_registry_simps)
  then obtain ex where ex: "get_executor main_registry ''python'' = Inr ex" ..
  have one: "dec_of_nat 1 = ''1''" by code_simp
  have src: "text_ok ''x''" by code_simp
  show ?thesis
    using ex src assms
    by (cases "wd_queue w")
      (simp add: handle_execute_def call_create_def api_example_def request_to_def create_execution_def
        job_request_example_def pg_create_def run_stmt_def apply_stmt_def insert_execution_def
        new_job_def int4_max_def no_nul_def enqueue_def new_redis_queue_def logged_redis_def silent_redis_def one [simplified] Let_def)
qed

lemma handle_execute_example:
  "\<exists>w1. handle_execute api_example (request_to ''POST'' []) (shop_world []) =
     (JsonReply True (Some 202) (AcceptedValue ''exec_1'' JobQueued), w1) \<and> db_script (wd_db w1) = []"
  by (rule handle_execute_empty) (simp_all add: shop_world_def database_example_def)

theorem accepted_execution_can_be_fetched_witness:
  "\<exists>w1 created. fst (api_request api_example (request_to ''GET'' [''api'', ''v1'', ''executions'', ''exec_1'']) w1) =
     Answered (JsonReply True (Some 200) (ExecutionValue ''exec_1'' JobQueued created None None []))"
proof -
  obtain w1 where w: "handle_execute api_example (request_to ''POST'' []) (shop_world []) =
     (JsonReply True (Some 202) (AcceptedValue ''exec_1'' JobQueued), w1)" "db_script (wd_db w1) = []"
    using handle_execute_example by blast
  have "\<exists>created. fst (api_request api_example (request_to ''GET'' [''api'', ''v1'', ''executions'', ''exec_1'']) w1) =
     Answered (JsonReply True (Some 200) (ExecutionValue ''exec_1'' JobQueued created None None []))"
    by (rule accepted_execution_can_be_fetched [OF w(1) _ w(2)]) (simp_all add: request_to_def)
  then show ?thesis by blast
qed

theorem shutdown_stops_only_executions_witness:
  "api_request (api_example\<lparr>ap_shuttingDown := True\<rparr>) (request_to ''POST'' [''api'', ''v1'', ''executions'']) (shop_world []) =
     (Answered (ErrorReply 503 ''Service Unavailable - Shutting Down''), shop_world []) \<and>
   api_request (api_example\<lparr>ap_shuttingDown := True\<rparr>) (request_to ''POST'' [''run'']) (shop_world []) =
     api_request api_example (request_to ''POST'' [''run'']) (shop_world [])"
proof -
  have "mux_lookup api_routes (request_to ''POST'' [''api'', ''v1'', ''executions'']) = Route Execute []"
    "mux_lookup api_routes (request_to ''POST'' [''run'']) = Route CreateRun []"
    by (simp_all add: mux_lookup_def request_to_def route_defs match_path_def method_matches_def)
  from this [THEN shutdown_stops_only_executions, of api_example "shop_world []"] show ?thesis by simp
qed

definition quiet_platform :: "(nat \<times> queue_event list, nat) world platform" where
  "quiet_platform = \<lparr>pf_rand = (\<lambda>w. (replicate 16 0, w)), pf_emit = (\<lambda>l w. w)\<rparr>"


end
