(* ===== verification/Live_Updates.thy ===== *)
theory Live_Updates imports Api_Contract Worker begin

text \<open>
  The web sockets of \<^verbatim>\<open>backend/internal/server/ws_handler.go\<close>: a handler sends the current state of its
  job or submission and then forwards the updates published for it until a final one. What the handler
  waits for in its \<^verbatim>\<open>select\<close> is a list of events, in the order in which it receives them; the subscription
  delivers only what is published after it was made.
\<close>

section \<open>Frames and events\<close>

datatype 'a frame = StateFrame 'a | NotFoundFrame | PingFrame | CloseFrame

text \<open>
  A published payload; the nil message of a subscription that was closed (by the goroutine that reads
  from the client, when the client leaves); a tick, with the success of the ping it sends; the end of the
  request's context.
\<close>

datatype ws_event = Update string | SubscriptionClosed | Tick bool | ContextDone

text \<open>A handler has returned (\<open>Ended\<close>), has panicked (the nil message is dereferenced), or still waits.\<close>

datatype ws_end = Ended | Crashed | Waiting

section \<open>The handlers\<close>

fun ws_loop :: "(string \<Rightarrow> 'a option) \<Rightarrow> ('a \<Rightarrow> bool) \<Rightarrow> ws_event list \<Rightarrow> 'a frame list \<times> ws_end" where
  "ws_loop decode final [] = ([], Waiting)"
| "ws_loop decode final (Update payload # es) =
     (case decode payload of
        None \<Rightarrow> ws_loop decode final es
      | Some x \<Rightarrow>
          (if final x then ([StateFrame x, CloseFrame], Ended)
           else case ws_loop decode final es of (fs, e) \<Rightarrow> (StateFrame x # fs, e)))"
| "ws_loop decode final (SubscriptionClosed # es) = ([], Crashed)"
| "ws_loop decode final (Tick ok # es) =
     (if ok then case ws_loop decode final es of (fs, e) \<Rightarrow> (PingFrame # fs, e) else ([], Ended))"
| "ws_loop decode final (ContextDone # es) = ([], Ended)"

text \<open>After the upgrade: the state that was fetched, and the loop where it is not final.\<close>

definition ws_session ::
  "(string \<Rightarrow> 'a option) \<Rightarrow> ('a \<Rightarrow> bool) \<Rightarrow> goerror + 'a \<Rightarrow> ws_event list \<Rightarrow> 'a frame list \<times> ws_end" where
  "ws_session decode final fetched es =
     (case fetched of
        Inl err \<Rightarrow> ([NotFoundFrame], Ended)
      | Inr x \<Rightarrow>
          (if final x then ([StateFrame x, CloseFrame], Ended)
           else case ws_loop decode final es of (fs, e) \<Rightarrow> (StateFrame x # fs, e)))"

definition run_final :: "execution_job \<Rightarrow> bool" where
  "run_final job \<longleftrightarrow> ej_Status job = JobCompleted \<or> ej_Status job = JobDeadLettered"

definition submission_final :: "submission \<Rightarrow> bool" where
  "submission_final s \<longleftrightarrow> sb_Status s = SubmissionStatusCompleted"

text \<open>What a request to a socket comes to: an error before the upgrade, nothing, or a session.\<close>

datatype 'a ws_result = WsError reply | NotUpgraded | Session "'a frame list" ws_end

definition handle_run_ws ::
  "(string \<Rightarrow> execution_job option) \<Rightarrow> bool \<Rightarrow> ws_event list \<Rightarrow> request \<Rightarrow> ('q, 'h) world
   \<Rightarrow> execution_job ws_result \<times> ('q, 'h) world" where
  "handle_run_ws decode upgraded es r w =
     (if path_value r ''id'' = [] then (WsError (ErrorReply 400 ''missing id''), w)
      else if \<not> upgraded then (NotUpgraded, w)
      else case get_execution (path_value r ''id'') (wd_db w) of
             (res, d) \<Rightarrow>
               (case ws_session decode run_final res es of (fs, e) \<Rightarrow> (Session fs e, w\<lparr>wd_db := d\<rparr>)))"

definition handle_submission_ws ::
  "(string \<Rightarrow> submission option) \<Rightarrow> bool \<Rightarrow> ws_event list \<Rightarrow> request \<Rightarrow> ('q, 'h) world
   \<Rightarrow> submission ws_result \<times> ('q, 'h) world" where
  "handle_submission_ws decode upgraded es r w =
     (if path_value r ''id'' = [] then (WsError (ErrorReply 400 ''missing id''), w)
      else if \<not> upgraded then (NotUpgraded, w)
      else case submission_get_by_id (path_value r ''id'') (wd_db w) of
             (res, d) \<Rightarrow>
               (case ws_session decode submission_final res es of (fs, e) \<Rightarrow> (Session fs e, w\<lparr>wd_db := d\<rparr>)))"

section \<open>What a session sends\<close>

text \<open>The states among the frames; the updates a subscription delivers, and their part up to the first final one.\<close>

fun states :: "'a frame list \<Rightarrow> 'a list" where
  "states [] = []"
| "states (StateFrame x # fs) = x # states fs"
| "states (_ # fs) = states fs"

fun updates :: "(string \<Rightarrow> 'a option) \<Rightarrow> ws_event list \<Rightarrow> 'a list" where
  "updates decode [] = []"
| "updates decode (Update p # es) = (case decode p of None \<Rightarrow> updates decode es | Some x \<Rightarrow> x # updates decode es)"
| "updates decode (_ # es) = updates decode es"

fun up_to_final :: "('a \<Rightarrow> bool) \<Rightarrow> 'a list \<Rightarrow> 'a list" where
  "up_to_final final [] = []"
| "up_to_final final (x # xs) = x # (if final x then [] else up_to_final final xs)"

text \<open>The client stays and the server goes on.\<close>

definition undisturbed :: "ws_event list \<Rightarrow> bool" where
  "undisturbed es \<longleftrightarrow> (\<forall>e \<in> set es. (\<exists>p. e = Update p) \<or> e = Tick True)"

lemma undisturbed_simps [simp]:
  "undisturbed []" "undisturbed (Update p # es) = undisturbed es" "undisturbed (Tick ok # es) = (ok \<and> undisturbed es)"
  "\<not> undisturbed (SubscriptionClosed # es)" "\<not> undisturbed (ContextDone # es)"
  by (auto simp: undisturbed_def)

lemma ws_loop_sends:
  assumes "undisturbed es" and "ws_loop decode final es = (fs, e)"
  shows "states fs = up_to_final final (updates decode es) \<and>
    (if list_ex final (updates decode es) then e = Ended \<and> last fs = CloseFrame \<and> fs \<noteq> []
     else e = Waiting \<and> CloseFrame \<notin> set fs)"
  using assms
proof (induction decode final es arbitrary: fs e rule: ws_loop.induct)
  case (2 decode final p es)
  show ?case
  proof (cases "decode p")
    case None
    with 2 show ?thesis by simp
  next
    case (Some x)
    obtain fs1 e1 where l: "ws_loop decode final es = (fs1, e1)" by fastforce
    with 2 Some show ?thesis by (cases "final x") (auto split: if_splits)
  qed
next
  case (4 decode final ok es)
  obtain fs1 e1 where l: "ws_loop decode final es = (fs1, e1)" by fastforce
  with 4 show ?case by (auto split: if_splits)
qed auto

section \<open>The contract of a socket\<close>

text \<open>
  Both handlers run a session on what a lookup finds. The laws of that are the locale; its lemmas hold for
  the sockets of runs and of submissions.
\<close>

locale live_socket =
  fixes handler :: "(string \<Rightarrow> 'a option) \<Rightarrow> bool \<Rightarrow> ws_event list \<Rightarrow> request \<Rightarrow> ('q, 'h) world
      \<Rightarrow> 'a ws_result \<times> ('q, 'h) world"
    and fetch :: "string \<Rightarrow> database \<Rightarrow> (goerror + 'a) \<times> database"
    and final :: "'a \<Rightarrow> bool"
  assumes session: "\<lbrakk>path_value r ''id'' \<noteq> []; fetch (path_value r ''id'') (wd_db w) = (res, d);
      ws_session decode final res es = (fs, e)\<rbrakk> \<Longrightarrow> handler decode True es r w = (Session fs e, w\<lparr>wd_db := d\<rparr>)"
    and refused: "path_value r ''id'' \<noteq> [] \<Longrightarrow> handler decode False es r w = (NotUpgraded, w)"
begin

lemma streams:
  assumes "path_value r ''id'' \<noteq> []" and "undisturbed es"
    and "fetch (path_value r ''id'') (wd_db w) = (Inr x, d)"
  shows "\<exists>fs e. handler decode True es r w = (Session fs e, w\<lparr>wd_db := d\<rparr>) \<and>
    states fs = up_to_final final (x # updates decode es) \<and>
    (if list_ex final (x # updates decode es) then e = Ended \<and> last fs = CloseFrame
     else e = Waiting \<and> CloseFrame \<notin> set fs)"
proof -
  obtain fs e where l: "ws_loop decode final es = (fs, e)" by fastforce
  obtain fs1 e1 where s: "ws_session decode final (Inr x) es = (fs1, e1)" by fastforce
  from ws_loop_sends [OF assms(2) l] l s
  have "states fs1 = up_to_final final (x # updates decode es) \<and>
    (if list_ex final (x # updates decode es) then e1 = Ended \<and> last fs1 = CloseFrame
     else e1 = Waiting \<and> CloseFrame \<notin> set fs1)"
    by (cases "final x") (auto simp: ws_session_def split: if_splits)
  with session [OF assms(1,3) s] show ?thesis by blast
qed

lemma waits:
  assumes "path_value r ''id'' \<noteq> []" and "fetch (path_value r ''id'') (wd_db w) = (Inr x, d)" and "\<not> final x"
  shows "fst (handler decode True (replicate n (Tick True)) r w) = Session (StateFrame x # replicate n PingFrame) Waiting"
proof -
  have "ws_loop decode final (replicate n (Tick True)) = (replicate n PingFrame, Waiting)" by (induction n) auto
  with assms(3) have "ws_session decode final (Inr x) (replicate n (Tick True)) = (StateFrame x # replicate n PingFrame, Waiting)"
    by (simp add: ws_session_def)
  from session [OF assms(1,2) this] show ?thesis by simp
qed

lemma crashes:
  assumes "path_value r ''id'' \<noteq> []" and "fetch (path_value r ''id'') (wd_db w) = (Inr x, d)"
    and "undisturbed es" and "\<not> list_ex final (x # updates decode es)"
  shows "\<exists>fs. fst (handler decode True (es @ SubscriptionClosed # es1) r w) = Session fs Crashed"
proof -
  have "\<exists>fs. ws_loop decode final (es @ SubscriptionClosed # es1) = (fs, Crashed)"
    using assms(3,4)
  proof (induction es)
    case (Cons e es)
    then show ?case by (cases e) (auto split: option.splits)
  qed simp
  then obtain fs where "ws_session decode final (Inr x) (es @ SubscriptionClosed # es1) = (StateFrame x # fs, Crashed)"
    using assms(4) by (auto simp: ws_session_def)
  from session [OF assms(1,2) this] show ?thesis by simp
qed

end

interpretation run_socket: live_socket handle_run_ws get_execution run_final
  by unfold_locales (auto simp: handle_run_ws_def)

interpretation submission_socket: live_socket handle_submission_ws submission_get_by_id submission_final
  by unfold_locales (auto simp: handle_submission_ws_def)

section \<open>Properties\<close>


text \<open>
  a socket can wait for ever: where the final update is published after the job was fetched but before
  the subscription was made, the loop receives ticks only; it never looks at the database again, and
  however many pings it sends, it neither sends the final state nor ends.
\<close>

theorem missed_update_never_sent:
  assumes "path_value r ''id'' \<noteq> []"
    and "get_execution (path_value r ''id'') (wd_db w) = (Inr job, d)" and "\<not> run_final job"
  shows "fst (handle_run_ws decode True (replicate n (Tick True)) r w) = Session (StateFrame job # replicate n PingFrame) Waiting"
  by (rule run_socket.waits [OF assms])

text \<open>
  C39: a client that leaves makes the handler panic: the goroutine that notices it closes the subscription,
  whose channel then yields a nil message, and the loop dereferences it, unless it has ended before.
\<close>

theorem leaving_client_crashes_handler:
  assumes "path_value r ''id'' \<noteq> []"
    and "get_execution (path_value r ''id'') (wd_db w) = (Inr job, d)"
    and "undisturbed es" and "\<not> list_ex run_final (job # updates decode es)"
  shows "\<exists>fs. fst (handle_run_ws decode True (es @ SubscriptionClosed # es1) r w) = Session fs Crashed"
  by (rule run_socket.crashes [OF assms])

section \<open>Watching a run\<close>

text \<open>What was published on a channel, oldest first; what a subscription delivers.\<close>

fun published_on :: "string \<Rightarrow> queue_event list \<Rightarrow> string list" where
  "published_on ch [] = []"
| "published_on ch (EvPublish c p # l) = published_on ch l @ (if c = ch then [p] else [])"
| "published_on ch (_ # l) = published_on ch l"

lemma published_on_append: "published_on ch (l @ m) = published_on ch m @ published_on ch l"
  by (induction ch l rule: published_on.induct) auto

definition published_since :: "string \<Rightarrow> queue_event list \<Rightarrow> queue_event list \<Rightarrow> string list" where
  "published_since ch old new = drop (length (published_on ch old)) (published_on ch new)"

lemma published_since_append [simp]: "published_since ch old (l @ old) = published_on ch l"
  by (simp add: published_since_def published_on_append)

fun payloads :: "ws_event list \<Rightarrow> string list" where
  "payloads [] = []"
| "payloads (Update p # es) = p # payloads es"
| "payloads (_ # es) = payloads es"

lemma updates_payloads: "updates decode es = List.map_filter decode (payloads es)"
  by (induction decode es rule: updates.induct) (auto split: option.split)

text \<open>
  C17: who watches a run sees it to its end: where a socket is subscribed before a worker takes the queued,
  due job, and neither the database nor Redis nor the client disturbs them, the updates that the worker
  publishes make the socket send exactly a queued, a running and a completed job and then close.
\<close>

theorem watched_run_is_streamed:
  fixes w :: "('q \<times> queue_event list, 'h) world"
  assumes "pl_redis P = logged_redis C" and "db_script (wd_db w) = []" and "table_ok (wd_db w)"
    and "find_row er_id (qm_JobID msg) (db_executions (wd_db w)) = Some row"
    and "claim_where (qm_JobID msg) (db_now (wd_db w)) row" and "er_attempt_count row < int4_max"
    and "execute_all P (job_of_row row) (elems (unmarshal (er_inputs row))) (wd_host w) = Some (rs, h1)"
    and "list_all result_storable rs" and "qm_JobType msg \<noteq> ''submission''"
    and json: "\<And>job. \<exists>p job1. pl_json P job = Some p \<and> decode p = Some job1 \<and> ej_Status job1 = ej_Status job"
    and r: "path_value r ''id'' = qm_JobID msg" "qm_JobID msg \<noteq> []"
    and es: "undisturbed es" "payloads es =
      published_since (''job-updates:'' @ qm_JobID msg) (snd (wd_queue w)) (snd (wd_queue (process_message P msg worker c w)))"
  shows "\<exists>fs. fst (handle_run_ws decode True es r w) = Session fs Ended \<and>
    map ej_Status (states fs) = [JobQueued, JobRunning, JobCompleted] \<and> last fs = CloseFrame"
proof -
  let ?now = "db_now (wd_db w)" and ?ch = "''job-updates:'' @ qm_JobID msg"
  let ?running = "job_of_row (running_set ?now (claim_set worker lease_duration ?now row))"
    and ?done = "job_of_row (completed_row worker (append_all None rs) ?now row)"
  from undisturbed_run [OF assms(1-9), of worker c] obtain ok where log: "snd (wd_queue (process_message P msg worker c w)) =
      (EvAck (qm_ID msg) ok # job_published P (qm_JobID msg) ?done @ job_published P (qm_JobID msg) ?running) @ snd (wd_queue w)"
    by auto
  obtain p1 j1 where p1: "pl_json P ?running = Some p1" "decode p1 = Some j1" "ej_Status j1 = JobRunning"
    using json [of ?running] running_job_sel by metis
  obtain p2 j2 where p2: "pl_json P ?done = Some p2" "decode p2 = Some j2" "ej_Status j2 = JobCompleted"
    using json [of ?done] by (auto simp: job_of_row_def)
  have pub: "payloads es = [p1, p2]"
    unfolding es(2) log published_since_append by (simp add: job_published_def p1(1) p2(1) published_on_append)
  have up: "updates decode es = [j1, j2]" by (simp add: updates_payloads pub List.map_filter_simps p1(2) p2(2))
  have fetched: "get_execution (path_value r ''id'') (wd_db w) = (Inr (job_of_row row), wd_db w)"
    using quiet_get [OF assms(2,4)] by (simp add: r(1) get_execution_def)
  have queued: "ej_Status (job_of_row row) = JobQueued" using assms(5) by (simp add: claim_where_def job_of_row_def)
  from run_socket.streams [OF _ es(1) fetched, of decode] r obtain fs e where
    "fst (handle_run_ws decode True es r w) = Session fs e" "states fs = up_to_final run_final [job_of_row row, j1, j2]"
    "if list_ex run_final [job_of_row row, j1, j2] then e = Ended \<and> last fs = CloseFrame else e = Waiting \<and> CloseFrame \<notin> set fs"
    by (auto simp: up)
  then show ?thesis using queued p1(3) p2(3) by (auto simp: run_final_def)
qed

text \<open>
  A run that fails for good is not announced: the failure that uses up the attempts of a job dead-letters
  it, which is a final state, but the worker publishes nothing, and the sockets of the job keep waiting.
\<close>

theorem dead_letter_not_announced:
  assumes "table_ok (wd_db w)" and "find_row er_id (qm_JobID msg) (db_executions (wd_db w)) = Some row"
    and "er_max_attempts row \<le> er_attempt_count row"
    and "pg_fail_job (qm_JobID msg) worker (error_text err) retry_backoff (wd_db w) = (None, d)"
  shows "\<exists>q. step_at P msg worker c (AtFail err) w = (Returned, w\<lparr>wd_db := d\<rparr>) \<and>
    find_row er_id (qm_JobID msg) (db_executions d) = Some q \<and> run_final (job_of_row q)"
proof -
  from pg_fail_job_updated [OF assms(1,4)] assms(2) have
    "find_row er_id (qm_JobID msg) (db_executions d) = Some (fail_set (error_text err) retry_backoff (db_now d) row)"
    by (auto simp: row_updated_def)
  moreover have "run_final (job_of_row (fail_set (error_text err) retry_backoff (db_now d) row))"
    using assms(3) by (simp add: fail_set_def run_final_def job_of_row_def)
  ultimately show ?thesis using assms(4) by simp
qed

section \<open>Examples\<close>

definition socket_request :: request where
  "socket_request = (request_to ''GET'' [''ws'', ''run'', ''exec_1''])\<lparr>hq_vars := [(''id'', ''exec_1'')]\<rparr>"

text \<open>Updates name the new status of the job.\<close>

definition status_update :: "string \<Rightarrow> execution_job option" where
  "status_update p =
     (if p = ''COMPLETED'' then Some (job_of_row (row_example JobCompleted None 1 5))
      else if p = ''RUNNING'' then Some (job_of_row (row_example JobRunning (Some ''w'') 1 5)) else None)"

definition running_world :: "(nat, nat) world" where
  "running_world = \<lparr>wd_db = database_example [row_example JobRunning (Some ''w'') 1 5], wd_queue = 0, wd_host = 0\<rparr>"

lemma socket_request_id: "path_value socket_request ''id'' = ''exec_1''"
  by (simp add: socket_request_def path_value_def request_to_def)

lemma running_fetched:
  "get_execution (path_value socket_request ''id'') (wd_db running_world) =
     (Inr (job_of_row (row_example JobRunning (Some ''w'') 1 5)), wd_db running_world)"
  unfolding socket_request_id
  by (simp add: get_execution_def pg_get_def run_stmt_def apply_stmt_def query_def running_world_def example_defs)

lemma running_not_final: "\<not> run_final (job_of_row (row_example JobRunning w n m))"
  by (simp add: run_final_def job_of_row_def row_example_def)

lemma completed_final: "run_final (job_of_row (row_example JobCompleted w n m))"
  by (simp add: run_final_def job_of_row_def row_example_def)


theorem missed_update_never_sent_witness:
  "fst (handle_run_ws status_update True (replicate 3 (Tick True)) socket_request running_world) =
     Session (StateFrame (job_of_row (row_example JobRunning (Some ''w'') 1 5)) # replicate 3 PingFrame) Waiting"
  by (rule missed_update_never_sent [OF _ running_fetched running_not_final]) (simp add: socket_request_id)

theorem leaving_client_crashes_handler_witness:
  "\<exists>fs. fst (handle_run_ws status_update True [Tick True, SubscriptionClosed] socket_request running_world) =
     Session fs Crashed"
proof -
  have "path_value socket_request ''id'' \<noteq> []" by (simp add: socket_request_id)
  from leaving_client_crashes_handler [OF this running_fetched, of "[Tick True]" status_update "[]"] show ?thesis
    by (simp add: running_not_final)
qed


definition status_pool :: "(nat \<times> queue_event list, nat) pool" where
  "status_pool = (pool_example host_example runtime_example)\<lparr>pl_json := (\<lambda>job. Some (status_text (ej_Status job)))\<rparr>"

definition any_status :: "string \<Rightarrow> execution_job option" where
  "any_status p =
     map_option (\<lambda>st. job_of_row (row_example st None 0 5))
       (find (\<lambda>st. status_text st = p) [JobQueued, JobClaimed, JobRunning, JobCompleted, JobDeadLettered])"

theorem watched_run_is_streamed_witness:
  "\<exists>es fs. fst (handle_run_ws any_status True es socket_request queued_world) = Session fs Ended \<and>
     map ej_Status (states fs) = [JobQueued, JobRunning, JobCompleted]"
proof -
  have redis: "pl_redis status_pool = logged_redis silent_redis" by (simp add: status_pool_def pool_example_def)
  have "execute_all status_pool = execute_all (pool_example host_example runtime_example)"
  proof (intro ext)
    show "execute_all status_pool job is h = execute_all (pool_example host_example runtime_example) job is h" for job "is" h
      by (induction "is" arbitrary: h) (simp_all add: status_pool_def pool_example_def split: prod.split sum.split)
  qed
  with execute_all_example have exec: "execute_all status_pool (job_of_row (row_example JobQueued None 0 5))
     (elems (unmarshal (er_inputs (row_example JobQueued None 0 5)))) (wd_host queued_world) =
       Some ([result_of StatusSuccess ''ok'' [] 0], 0)" by (simp add: queued_world_facts(7))
  have store: "list_all result_storable [result_of StatusSuccess ''ok'' [] 0]" by (simp add: result_storable_def no_nul_def)
  have json: "\<exists>p job1. pl_json status_pool job = Some p \<and> any_status p = Some job1 \<and> ej_Status job1 = ej_Status job" for job
    by (cases "ej_Status job") (simp_all add: status_pool_def any_status_def job_of_row_def row_example_def)
  have id: "path_value socket_request ''id'' = qm_JobID message_example" "qm_JobID message_example \<noteq> []"
    by (simp_all add: socket_request_id message_example_def)
  let ?ps = "published_since (''job-updates:'' @ qm_JobID message_example) (snd (wd_queue queued_world))
      (snd (wd_queue (process_message status_pool message_example ''w'' False queued_world)))"
  have es: "undisturbed (map Update ps)" "payloads (map Update ps) = ps" for ps by (induction ps) auto
  from watched_run_is_streamed [OF redis queued_world_facts(1-5) exec store queued_world_facts(6) json id es(1) es(2) [of ?ps]]
  show ?thesis by (intro exI [of _ "map Update ?ps"]) auto
qed

end
