(* ===== verification/Analyzer.thy ===== *)
theory Analyzer imports Judge_Engine begin

text \<open>
  \<^verbatim>\<open>backend/internal/ai/analyzer.go\<close>: the complexity analysis of a program by a generative model. The client
  of the model and \<^verbatim>\<open>json.Unmarshal\<close> are parameters; what the program does with an answer is modelled.
\<close>

section \<open>The client\<close>

datatype answer_part = TextPart string | OtherPart

text \<open>A candidate whose \<^verbatim>\<open>Content\<close> is nil is \<open>None\<close>.\<close>

type_synonym candidates = "answer_part list option list"

text \<open>
  \<open>gc_decode\<close> decodes into a value that may hold something already, and leaves it with what it has stored
  by then where it fails.
\<close>

record 'h gen_client =
  gc_generate :: "string \<Rightarrow> 'h \<Rightarrow> (goerror + candidates) \<times> 'h"
  gc_decode :: "string \<Rightarrow> complexity_analysis \<Rightarrow> goerror option \<times> complexity_analysis"

definition empty_analysis :: complexity_analysis where
  "empty_analysis = \<lparr>ca_TimeComplexity = [], ca_SpaceComplexity = [], ca_Feedback = []\<rparr>"

section \<open>Analysing a program\<close>

definition trim_prefix :: "string \<Rightarrow> string \<Rightarrow> string" where
  "trim_prefix s p = (if has_prefix p s then drop (length p) s else s)"

definition trim_suffix :: "string \<Rightarrow> string \<Rightarrow> string" where
  "trim_suffix s p = (if has_suffix p s then take (length s - length p) s else s)"

definition analysis_prompt :: "string \<Rightarrow> string \<Rightarrow> string" where
  "analysis_prompt sourceCode language = ''Language: '' @ language @ newline # ''Code:'' @ newline # sourceCode"

definition clean_answer :: "string \<Rightarrow> string" where
  "clean_answer t = trim_suffix (trim_suffix (trim_prefix t (''```json'' @ [newline])) (newline # ''```'')) ''```''"

definition parse_answer :: "'h gen_client \<Rightarrow> string \<Rightarrow> goerror + complexity_analysis" where
  "parse_answer G t =
     (case gc_decode G t empty_analysis of
        (None, a) \<Rightarrow> Inr a
      | (Some err, a) \<Rightarrow>
          (case gc_decode G (clean_answer t) a of
             (None, a1) \<Rightarrow> Inr a1
           | (Some err2, a1) \<Rightarrow> Inl (Wrapped ''failed to parse JSON from AI: '' err2 ('', text: '' @ t))))"

text \<open>The first part of the first candidate; \<open>None\<close> is the panic at a nil \<^verbatim>\<open>Content\<close>.\<close>

definition read_answer :: "'h gen_client \<Rightarrow> candidates \<Rightarrow> (goerror + complexity_analysis) option" where
  "read_answer G cs =
     (case cs of
        [] \<Rightarrow> Some (Inl (ErrMsg ''empty response from model''))
      | None # _ \<Rightarrow> None
      | Some [] # _ \<Rightarrow> Some (Inl (ErrMsg ''empty response from model''))
      | Some (OtherPart # _) # _ \<Rightarrow> Some (Inl (ErrMsg ''unexpected response type''))
      | Some (TextPart t # _) # _ \<Rightarrow> Some (parse_answer G t))"

definition analyze_complexity ::
  "'h gen_client \<Rightarrow> string \<Rightarrow> string \<Rightarrow> 'h \<Rightarrow> (goerror + complexity_analysis) option \<times> 'h" where
  "analyze_complexity G sourceCode language h =
     (case gc_generate G (analysis_prompt sourceCode language) h of
        (Inl err, h1) \<Rightarrow> (Some (Inl (Wrapped ''failed to generate content: '' err [])), h1)
      | (Inr cs, h1) \<Rightarrow> (read_answer G cs, h1))"

section \<open>Answers in a fence\<close>

lemma trim_prefix_append [simp]: "trim_prefix (p @ s) p = s"
  by (simp add: trim_prefix_def has_prefix_def)

lemma trim_suffix_append [simp]: "trim_suffix (s @ p) p = s"
  by (simp add: trim_suffix_def has_suffix_def has_prefix_def)

lemma trim_suffix_other: "\<not> has_suffix p s \<Longrightarrow> trim_suffix s p = s"
  by (simp add: trim_suffix_def)

definition fenced :: "string \<Rightarrow> string" where
  "fenced body = ''```json'' @ [newline] @ body @ [newline] @ ''```''"

lemma clean_fenced: "\<not> has_suffix ''```'' body \<Longrightarrow> clean_answer (fenced body) = body"
proof -
  assume "\<not> has_suffix ''```'' body"
  moreover have "fenced body = (''```json'' @ [newline]) @ body @ (newline # ''```'')" by (simp add: fenced_def)
  moreover have "trim_suffix (body @ (newline # ''```'')) (newline # ''```'') = body" by (rule trim_suffix_append)
  ultimately show ?thesis by (simp only: clean_answer_def trim_prefix_append trim_suffix_other not_False_eq_True)
qed

text \<open>
  An answer that the model wraps in a Markdown fence is understood as the JSON inside the fence, where the
  decoder refuses the fence itself without storing anything (as \<^verbatim>\<open>json.Unmarshal\<close> does for text that is
  not JSON) and the JSON does not end in another fence.
\<close>

theorem fenced_answer_accepted:
  assumes "gc_generate G (analysis_prompt code lang) h = (Inr (Some (TextPart (fenced body) # ps) # cs), h1)"
    and "gc_decode G (fenced body) empty_analysis = (Some err, empty_analysis)"
    and "gc_decode G body empty_analysis = (None, a)" and "\<not> has_suffix ''```'' body"
  shows "analyze_complexity G code lang h = (Some (Inr a), h1)"
  using assms by (simp add: analyze_complexity_def read_answer_def parse_answer_def clean_fenced)

text \<open>
  The analysis panics exactly when the first candidate has no content, as for an answer that the model's
  safety filter has blocked: the length of its parts is taken before the pointer is tested.
\<close>

theorem analysis_panics_without_content:
  assumes "gc_generate G (analysis_prompt code lang) h = (Inr cs, h1)"
  shows "fst (analyze_complexity G code lang h) = None \<longleftrightarrow> (\<exists>rest. cs = None # rest)"
  using assms by (auto simp: analyze_complexity_def read_answer_def split: list.splits option.splits answer_part.splits)

definition gen_example :: "nat gen_client" where
  "gen_example =
     \<lparr>gc_generate = (\<lambda>p n. if n = 0 then (Inr [Some [TextPart (fenced ''{}'')]], 1) else (Inr [None], n)),
      gc_decode = (\<lambda>t a. if t = ''{}'' then (None, a) else (Some (ErrMsg ''invalid character''), a))\<rparr>"

theorem fenced_answer_accepted_witness:
  "analyze_complexity gen_example ''x'' ''go'' 0 = (Some (Inr empty_analysis), 1)"
proof -
  have n: "fenced ''{}'' \<noteq> ''{}''" "\<not> has_suffix ''```'' ''{}''" by code_simp+
  show ?thesis
    by (rule fenced_answer_accepted [where body = "''{}''" and ps = "[]" and cs = "[]" and err = "ErrMsg ''invalid character''"])
      (use n in \<open>simp_all add: gen_example_def\<close>)
qed

theorem analysis_panics_without_content_witness: "fst (analyze_complexity gen_example ''x'' ''go'' 1) = None"
proof -
  have "gc_generate gen_example (analysis_prompt ''x'' ''go'') 1 = (Inr [None], 1)" by (simp add: gen_example_def)
  from analysis_panics_without_content [OF this] show ?thesis by simp
qed

end
