(* ===== verification/Boot.thy ===== *)
theory Boot imports Config Worker Pending Api Analyzer Logging begin

text \<open>
  The program entry \<^verbatim>\<open>backend/cmd/api/main.go\<close> and the connections of \<^verbatim>\<open>internal/db\<close>: what the process
  opens, which services run for a role, and what happens to them when a signal arrives or the server fails.
  The answers of the libraries at start-up (parsing the URL, opening a pool, pinging, migrating) are fields
  of the record \<open>deps\<close>.
\<close>

section \<open>The process\<close>

datatype out_line = Text string | ErrLine string goerror

datatype resource = PgPool "32 word" "32 word" | RedisClient | Migrator

text \<open>
  \<open>ps_config_error\<close> is the bootstrap message written to the standard output before there is a logger.
\<close>

record ('q, 'h) proc_state =
  ps_world :: "('q, 'h) world"
  ps_log :: "(log_level \<times> out_line) list"
  ps_open :: "resource list"
  ps_config_error :: "config_error option"

datatype migration = MigrationsApplied | NoChange | MigrationFailed goerror

record ('q, 'h) deps =
  dp_parse_url :: "string \<Rightarrow> goerror option"
  dp_open_pool :: "string \<Rightarrow> 32 word \<Rightarrow> 32 word \<Rightarrow> goerror option"
  dp_ping_pool :: "goerror option"
  dp_migration_files :: "goerror option"
  dp_migrator :: "string \<Rightarrow> goerror option"
  dp_migrate :: migration
  dp_redis :: "'q redis_client"
  dp_redis_ping :: "string \<Rightarrow> string \<Rightarrow> i64 \<Rightarrow> 'q \<Rightarrow> goerror option \<times> 'q"
  dp_new_analyzer :: "string \<Rightarrow> goerror + (string \<Rightarrow> string \<Rightarrow> 'h \<Rightarrow> (goerror + complexity_analysis) \<times> 'h)"
  dp_host :: "'h os_host"
  dp_temp_error :: "goerror option" \<comment> \<open>of \<^verbatim>\<open>os.CreateTemp\<close> for the seccomp profile\<close>
  dp_seccomp_path :: string
  dp_clock :: "'h \<Rightarrow> int"
  dp_job_json :: "execution_job \<Rightarrow> string option"
  dp_submission_json :: "submission \<Rightarrow> string option"
  dp_codecs :: "('q, 'h) api" \<comment> \<open>the decoders of requests and the source of ULIDs\<close>

definition say :: "logger \<Rightarrow> log_level \<Rightarrow> out_line \<Rightarrow> ('q, 'h) proc_state \<Rightarrow> ('q, 'h) proc_state" where
  "say lg l line st = st\<lparr>ps_log := logged lg l line (ps_log st)\<rparr>"

definition acquire :: "resource \<Rightarrow> ('q, 'h) proc_state \<Rightarrow> ('q, 'h) proc_state" where
  "acquire x st = st\<lparr>ps_open := x # ps_open st\<rparr>"

definition release :: "resource \<Rightarrow> ('q, 'h) proc_state \<Rightarrow> ('q, 'h) proc_state" where
  "release x st = st\<lparr>ps_open := remove1 x (ps_open st)\<rparr>"

section \<open>Connections (db/postgres.go, db/redis.go)\<close>

definition pool_of_config :: "config \<Rightarrow> resource" where
  "pool_of_config cfg = PgPool (cf_DBMaxConns cfg) (cf_DBMinConns cfg)"

definition db_connect :: "('q, 'h) deps \<Rightarrow> config \<Rightarrow> logger \<Rightarrow> ('q, 'h) proc_state \<Rightarrow> goerror option \<times> ('q, 'h) proc_state" where
  "db_connect D cfg lg st =
     (case dp_parse_url D (cf_DatabaseURL cfg) of
        Some err \<Rightarrow> (Some (Wrapped ''unable to parse database url: '' err []), st)
      | None \<Rightarrow>
          (case dp_open_pool D (cf_DatabaseURL cfg) (cf_DBMaxConns cfg) (cf_DBMinConns cfg) of
             Some err \<Rightarrow> (Some (Wrapped ''unable to create connection pool: '' err []), st)
           | None \<Rightarrow>
               (let st1 = acquire (pool_of_config cfg) st
                in case dp_ping_pool D of
                     Some err \<Rightarrow>
                       (Some (Wrapped ''unable to ping database: '' err []), release (pool_of_config cfg) st1)
                   | None \<Rightarrow> (None, say lg LevelInfo (Text ''Connected to PostgreSQL successfully'') st1))))"

definition db_close :: "config \<Rightarrow> logger \<Rightarrow> ('q, 'h) proc_state \<Rightarrow> ('q, 'h) proc_state" where
  "db_close cfg lg st = release (pool_of_config cfg) (say lg LevelInfo (Text ''Closing PostgreSQL connection pool'') st)"

text \<open>The migrator is closed on every path once it exists.\<close>

definition run_migrations :: "('q, 'h) deps \<Rightarrow> string \<Rightarrow> logger \<Rightarrow> ('q, 'h) proc_state \<Rightarrow> goerror option \<times> ('q, 'h) proc_state" where
  "run_migrations D url lg st =
     (case dp_migration_files D of
        Some err \<Rightarrow> (Some (Wrapped ''failed to load embedded migrations: '' err []), st)
      | None \<Rightarrow>
          (case dp_migrator D url of
             Some err \<Rightarrow> (Some (Wrapped ''failed to initialize migrator: '' err []), st)
           | None \<Rightarrow>
               (let st1 = say lg LevelInfo (Text ''Running database migrations...'') (acquire Migrator st)
                in case dp_migrate D of
                     NoChange \<Rightarrow> (None, release Migrator (say lg LevelInfo (Text ''Database schema is up to date'') st1))
                   | MigrationFailed err \<Rightarrow> (Some (Wrapped ''migration failed: '' err []), release Migrator st1)
                   | MigrationsApplied \<Rightarrow>
                       (None, release Migrator
                                (say lg LevelInfo (Text ''Database migrations applied successfully'') st1)))))"

text \<open>A client whose ping fails is not closed.\<close>

definition connect_redis :: "('q, 'h) deps \<Rightarrow> config \<Rightarrow> logger \<Rightarrow> ('q, 'h) proc_state \<Rightarrow> goerror option \<times> ('q, 'h) proc_state" where
  "connect_redis D cfg lg st =
     (let st1 = acquire RedisClient st;
          w = ps_world st1
      in case dp_redis_ping D (cf_RedisAddr cfg) (cf_RedisPassword cfg) (cf_RedisDB cfg) (wd_queue w) of
           (Some err, s) \<Rightarrow>
             (Some (Wrapped ''failed to connect to redis: '' err []), st1\<lparr>ps_world := w\<lparr>wd_queue := s\<rparr>\<rparr>)
         | (None, s) \<Rightarrow>
             (None, say lg LevelInfo (Text ''Connected to Redis successfully'') (st1\<lparr>ps_world := w\<lparr>wd_queue := s\<rparr>\<rparr>)))"

definition redis_close :: "logger \<Rightarrow> ('q, 'h) proc_state \<Rightarrow> ('q, 'h) proc_state" where
  "redis_close lg st = release RedisClient (say lg LevelInfo (Text ''Closing Redis connection'') st)"

section \<open>The services of a role (main.go)\<close>

definition main_queue :: "config \<Rightarrow> redis_queue" where
  "main_queue cfg = new_redis_queue (cf_RedisStream cfg) (cf_RedisConsumerGroup cfg) (cf_RedisStreamMaxLen cfg)"

definition runs_workers :: "config \<Rightarrow> bool" where
  "runs_workers cfg \<longleftrightarrow> cf_Role cfg = ''worker'' \<or> cf_Role cfg = ''all''"

definition runs_api :: "config \<Rightarrow> bool" where
  "runs_api cfg \<longleftrightarrow> cf_Role cfg = ''api'' \<or> cf_Role cfg = ''all''"

text \<open>
  \<^verbatim>\<open>docker.NewRuntime\<close> writes the seccomp profile to a temporary file; it panics when there is none.
\<close>

definition create_seccomp_profile :: "('q, 'h) deps \<Rightarrow> string + string" where
  "create_seccomp_profile D =
     (case dp_temp_error D of
        Some err \<Rightarrow> Inl (''failed to create temp seccomp file: '' @ error_text err)
      | None \<Rightarrow> Inr (dp_seccomp_path D))"

definition new_runtime :: "('q, 'h) deps \<Rightarrow> 'h sandbox_runtime" where
  "new_runtime D = docker_runtime (dp_host D) (dp_seccomp_path D)"

text \<open>The constructors; loggers and the unused settings are left out.\<close>

definition new_engine ::
  "language_registry \<Rightarrow> 'h os_host \<Rightarrow> 'h sandbox_runtime \<Rightarrow> comparator_registry \<Rightarrow> 'q redis_client \<Rightarrow> redis_queue
   \<Rightarrow> ('h \<Rightarrow> int) \<Rightarrow> (submission \<Rightarrow> string option) \<Rightarrow> ('q, 'h) engine" where
  "new_engine registry H sb comparators C q clock json =
     \<lparr>en_redis = C, en_queue = q, en_host = H, en_sandbox = sb, en_registry = registry,
      en_comparators = comparators, en_analyzer = None, en_clock = clock, en_json = json\<rparr>"

definition set_analyzer ::
  "(string \<Rightarrow> string \<Rightarrow> 'h \<Rightarrow> (goerror + complexity_analysis) \<times> 'h) \<Rightarrow> ('q, 'h) engine \<Rightarrow> ('q, 'h) engine" where
  "set_analyzer analyzer E = E\<lparr>en_analyzer := Some analyzer\<rparr>"

definition new_pool ::
  "'q redis_client \<Rightarrow> redis_queue \<Rightarrow> ('q, 'h) engine \<Rightarrow> 'h os_host \<Rightarrow> 'h sandbox_runtime \<Rightarrow> language_registry \<Rightarrow> i64
   \<Rightarrow> string \<Rightarrow> (execution_job \<Rightarrow> string option) \<Rightarrow> ('q, 'h) pool" where
  "new_pool C q E H sb registry workers instanceID json =
     \<lparr>pl_redis = C, pl_queue = q, pl_engine = E, pl_host = H, pl_sandbox = sb, pl_registry = registry,
      pl_numWorkers = workers, pl_instanceID = instanceID, pl_status = WorkerStarting, pl_json = json\<rparr>"

definition new_pending_recovery :: "redis_queue \<Rightarrow> string \<Rightarrow> string \<Rightarrow> i64 \<Rightarrow> i64 \<Rightarrow> pending_recovery" where
  "new_pending_recovery q stream grp idle batch =
     \<lparr>pc_stream = stream, pc_group = grp, pc_idleTimeout = idle, pc_claimBatchSize = batch, pc_queue = q\<rparr>"

definition sweep_interval :: i64 where "sweep_interval = 15 * second"

definition main_engine ::
  "('q, 'h) deps \<Rightarrow> config \<Rightarrow> (string \<Rightarrow> string \<Rightarrow> 'h \<Rightarrow> (goerror + complexity_analysis) \<times> 'h) option \<Rightarrow> ('q, 'h) engine" where
  "main_engine D cfg analyzer =
     (let E = new_engine main_registry (dp_host D) (new_runtime D) main_comparators (dp_redis D) (main_queue cfg)
                (dp_clock D) (dp_submission_json D)
      in case analyzer of None \<Rightarrow> E | Some analyze \<Rightarrow> set_analyzer analyze E)"

definition main_pool ::
  "('q, 'h) deps \<Rightarrow> config \<Rightarrow> (string \<Rightarrow> string \<Rightarrow> 'h \<Rightarrow> (goerror + complexity_analysis) \<times> 'h) option \<Rightarrow> ('q, 'h) pool" where
  "main_pool D cfg analyzer =
     new_pool (dp_redis D) (main_queue cfg) (main_engine D cfg analyzer) (dp_host D) (new_runtime D) main_registry
       (cf_ExecutionWorkers cfg) (cf_InstanceID cfg) (dp_job_json D)"

definition main_sweep :: "config \<Rightarrow> pending_recovery" where
  "main_sweep cfg =
     new_pending_recovery (main_queue cfg) (cf_RedisStream cfg) (cf_RedisConsumerGroup cfg)
       (cf_RedisPendingIdleTimeout cfg) (cf_RedisPendingClaimBatchSize cfg)"

lemmas main_pool_defs = main_pool_def new_pool_def new_runtime_def

text \<open>The \<^verbatim>\<open>http.Server\<close> of \<^verbatim>\<open>server.New\<close>: its address and the limits it puts on a connection.\<close>

record http_server =
  hs_Addr :: string
  hs_ReadHeaderTimeout :: i64
  hs_ReadTimeout :: i64
  hs_WriteTimeout :: i64
  hs_IdleTimeout :: i64

definition new_http_server :: "config \<Rightarrow> http_server" where
  "new_http_server cfg =
     \<lparr>hs_Addr = '':'' @ cf_Port cfg, hs_ReadHeaderTimeout = 5 * second, hs_ReadTimeout = 10 * second,
      hs_WriteTimeout = 30 * second, hs_IdleTimeout = 120 * second\<rparr>"

definition main_api ::
  "('q, 'h) deps \<Rightarrow> config \<Rightarrow> (string \<Rightarrow> string \<Rightarrow> 'h \<Rightarrow> (goerror + complexity_analysis) \<times> 'h) option \<Rightarrow> ('q, 'h) api" where
  "main_api D cfg analyzer =
     (dp_codecs D)\<lparr>ap_redis := dp_redis D, ap_queue := main_queue cfg, ap_registry := main_registry,
        ap_analyzer := analyzer, ap_shuttingDown := False, ap_has_db := True,
        ap_redis_ping := Some (dp_redis_ping D (cf_RedisAddr cfg) (cf_RedisPassword cfg) (cf_RedisDB cfg))\<rparr>"

text \<open>
  What runs: a pool with the names of its workers, the interval of its heartbeats and the patience of its
  \<^verbatim>\<open>Stop\<close>, next to the sweep over pending messages; the server, next to the recovery service with its
  interval and the age at which a worker is stale.
\<close>

record ('q, 'h) worker_role =
  wk_pool :: "('q, 'h) pool"
  wk_names :: "string list"
  wk_heartbeat :: i64
  wk_shutdown :: i64
  wk_sweep :: pending_recovery

record ('q, 'h) api_role =
  ar_http :: http_server
  ar_api :: "('q, 'h) api"
  ar_interval :: i64
  ar_timeout :: i64

record ('q, 'h) services =
  sv_worker :: "('q, 'h) worker_role option"
  sv_api :: "('q, 'h) api_role option"

definition start_workers ::
  "('q, 'h) deps \<Rightarrow> config \<Rightarrow> (string \<Rightarrow> string \<Rightarrow> 'h \<Rightarrow> (goerror + complexity_analysis) \<times> 'h) option
   \<Rightarrow> ('q, 'h) proc_state \<Rightarrow> ('q, 'h) worker_role option \<times> ('q, 'h) proc_state" where
  "start_workers D cfg analyzer st =
     (if runs_workers cfg
      then case start_pool (main_pool D cfg analyzer) (wd_db (ps_world st)) of
             (P, names, d) \<Rightarrow>
               (Some \<lparr>wk_pool = P, wk_names = names, wk_heartbeat = cf_WorkerHeartbeatInterval cfg,
                      wk_shutdown = cf_WorkerShutdownTimeout cfg, wk_sweep = main_sweep cfg\<rparr>,
                st\<lparr>ps_world := (ps_world st)\<lparr>wd_db := d\<rparr>\<rparr>)
      else (None, st))"

definition start_api ::
  "('q, 'h) deps \<Rightarrow> config \<Rightarrow> (string \<Rightarrow> string \<Rightarrow> 'h \<Rightarrow> (goerror + complexity_analysis) \<times> 'h) option
   \<Rightarrow> ('q, 'h) api_role option" where
  "start_api D cfg analyzer =
     (if runs_api cfg
      then Some \<lparr>ar_http = new_http_server cfg, ar_api = main_api D cfg analyzer, ar_interval = cf_RecoveryInterval cfg,
                 ar_timeout = cf_WorkerHeartbeatTimeout cfg\<rparr>
      else None)"

definition new_analyzer ::
  "('q, 'h) deps \<Rightarrow> string \<Rightarrow> goerror + (string \<Rightarrow> string \<Rightarrow> 'h \<Rightarrow> (goerror + complexity_analysis) \<times> 'h)" where
  "new_analyzer D apiKey =
     (case dp_new_analyzer D apiKey of
        Inl err \<Rightarrow> Inl (Wrapped ''failed to create genai client: '' err [])
      | Inr client \<Rightarrow> Inr client)"

definition main_analyzer ::
  "('q, 'h) deps \<Rightarrow> config \<Rightarrow> logger \<Rightarrow> ('q, 'h) proc_state
   \<Rightarrow> (string \<Rightarrow> string \<Rightarrow> 'h \<Rightarrow> (goerror + complexity_analysis) \<times> 'h) option \<times> ('q, 'h) proc_state" where
  "main_analyzer D cfg lg st =
     (if cf_GeminiAPIKey cfg = []
      then (None, say lg LevelWarn (Text ''GEMINI_API_KEY not set. AI complexity analysis is disabled.'') st)
      else case new_analyzer D (cf_GeminiAPIKey cfg) of
             Inl err \<Rightarrow> (None, say lg LevelError (ErrLine ''Failed to initialize AI Analyzer'' err) st)
           | Inr analyze \<Rightarrow> (Some analyze, say lg LevelInfo (Text ''AI Analyzer initialized successfully'') st))"

text \<open>\<^verbatim>\<open>os.Exit(1)\<close> ends the process without its deferred calls.\<close>

datatype ('q, 'h) launch = Exited int | StartPanics string | Launched logger config "('q, 'h) services"

definition fail_start :: "logger \<Rightarrow> string \<Rightarrow> goerror \<Rightarrow> ('q, 'h) proc_state \<Rightarrow> ('q, 'h) launch \<times> ('q, 'h) proc_state" where
  "fail_start lg what err st = (Exited 1, say lg LevelError (ErrLine what err) st)"

definition launch_services :: "('q, 'h) deps \<Rightarrow> config \<Rightarrow> logger \<Rightarrow> ('q, 'h) proc_state \<Rightarrow> ('q, 'h) launch \<times> ('q, 'h) proc_state" where
  "launch_services D cfg lg st =
     (case ensure_group_exists (dp_redis D) (main_queue cfg) (wd_queue (ps_world st)) of
        (Some err, s) \<Rightarrow>
          fail_start lg ''Failed to initialize redis consumer group'' err (st\<lparr>ps_world := (ps_world st)\<lparr>wd_queue := s\<rparr>\<rparr>)
      | (None, s) \<Rightarrow>
          (case main_analyzer D cfg lg
                  (say lg LevelInfo (Text ''Starting application'') (st\<lparr>ps_world := (ps_world st)\<lparr>wd_queue := s\<rparr>\<rparr>)) of
             (analyzer, st1) \<Rightarrow>
               (case start_workers D cfg analyzer st1 of
                  (workers, st2) \<Rightarrow>
                    (Launched lg cfg \<lparr>sv_worker = workers, sv_api = start_api D cfg analyzer\<rparr>, st2))))"

definition boot :: "('q, 'h) deps \<Rightarrow> environ \<Rightarrow> string \<Rightarrow> ('q, 'h) proc_state \<Rightarrow> ('q, 'h) launch \<times> ('q, 'h) proc_state" where
  "boot D env uuid st =
     (case load_config env uuid of
        Inl e \<Rightarrow> (Exited 1, st\<lparr>ps_config_error := Some e\<rparr>)
      | Inr cfg \<Rightarrow>
          (let lg = new_logger (cf_Env cfg) (cf_LogLevel cfg)
           in case create_seccomp_profile D of
                Inl msg \<Rightarrow> (StartPanics msg, st)
              | Inr path \<Rightarrow>
                  (case db_connect D cfg lg st of
                     (Some err, st1) \<Rightarrow> fail_start lg ''Failed to connect to database'' err st1
                   | (None, st1) \<Rightarrow>
                       (case run_migrations D (cf_DatabaseURL cfg) lg st1 of
                          (Some err, st2) \<Rightarrow> fail_start lg ''Failed to run migrations'' err st2
                        | (None, st2) \<Rightarrow>
                            (case connect_redis D cfg lg st2 of
                               (Some err, st3) \<Rightarrow> fail_start lg ''Failed to connect to redis'' err st3
                             | (None, st3) \<Rightarrow> launch_services D cfg lg st3)))))"


text \<open>\<^verbatim>\<open>time.NewTicker\<close> panics for an interval that is not positive; a panic in a goroutine ends the process.\<close>

definition ticker_panics :: "i64 \<Rightarrow> bool" where
  "ticker_panics interval \<longleftrightarrow> interval <=s 0"

definition services_crash :: "('q, 'h) services \<Rightarrow> bool" where
  "services_crash sv \<longleftrightarrow>
     (\<exists>wk. sv_worker sv = Some wk \<and> (ticker_panics (wk_heartbeat wk) \<or> ticker_panics sweep_interval)) \<or>
     (\<exists>ar. sv_api sv = Some ar \<and> ticker_panics (ar_interval ar))"

text \<open>
  The loops of the background services, over what their \<^verbatim>\<open>select\<close> finds: the context or the ticker. \<open>None\<close>: a
  pass did not end. The flag tells whether the loop has returned.
\<close>

datatype loop_event = ContextDone | Tick

fun service_loop :: "('s \<Rightarrow> 's option) \<Rightarrow> loop_event list \<Rightarrow> 's \<Rightarrow> ('s \<times> bool) option" where
  "service_loop pass [] s = Some (s, False)"
| "service_loop pass (ContextDone # evs) s = Some (s, True)"
| "service_loop pass (Tick # evs) s = (case pass s of None \<Rightarrow> None | Some s1 \<Rightarrow> service_loop pass evs s1)"

definition heartbeat_run :: "string \<Rightarrow> loop_event list \<Rightarrow> database \<Rightarrow> (database \<times> bool) option" where
  "heartbeat_run worker evs d = service_loop (\<lambda>d. Some (heartbeat_tick worker d)) evs d"

definition recovery_start ::
  "'q redis_client \<Rightarrow> redis_queue \<Rightarrow> int \<Rightarrow> loop_event list \<Rightarrow> database \<times> 'q \<Rightarrow> ((database \<times> 'q) \<times> bool) option" where
  "recovery_start C q timeout evs st = service_loop (\<lambda>st. Some (recovery_tick C q timeout st)) evs st"

definition pending_start ::
  "'q redis_client \<Rightarrow> pending_recovery \<Rightarrow> nat \<Rightarrow> loop_event list \<Rightarrow> database \<times> 'q \<Rightarrow> ((database \<times> 'q) \<times> bool) option" where
  "pending_start C pr fuel evs st = service_loop (run_recovery C pr fuel ''-'') evs st"

text \<open>A loop passes once per tick up to the end of its context, and what comes later does not matter.\<close>

lemma service_loop_total:
  "(\<And>s. pass s \<noteq> None) \<Longrightarrow> \<exists>s1. service_loop pass evs s = Some (s1, ContextDone \<in> set evs)"
  by (induction pass evs s rule: service_loop.induct) (auto split: option.split)

lemma service_loop_passes:
  "(\<And>s. pass s = Some (f s)) \<Longrightarrow>
     service_loop pass evs s = Some ((f ^^ length (takeWhile (\<lambda>e. e = Tick) evs)) s, ContextDone \<in> set evs)"
  by (induction pass evs s rule: service_loop.induct) (auto simp: funpow_swap1)

section \<open>The end of main\<close>

text \<open>What \<^verbatim>\<open>main\<close> waits for: the return of \<^verbatim>\<open>ListenAndServe\<close>, or a signal.\<close>

datatype main_event = ServerReturned "goerror option" | Signalled

definition ErrServerClosed :: goerror where
  "ErrServerClosed = ExternalError ''http: Server closed''"

definition shutdown_server :: "('q, 'h) services \<Rightarrow> ('q, 'h) services" where
  "shutdown_server sv =
     sv\<lparr>sv_api := map_option (\<lambda>ar. ar\<lparr>ar_api := (ar_api ar)\<lparr>ap_shuttingDown := True\<rparr>\<rparr>) (sv_api sv)\<rparr>"

text \<open>The services share one queue: \<^verbatim>\<open>Stop\<close> closes it for all of them.\<close>

definition close_shared_queue :: "('q, 'h) services \<Rightarrow> ('q, 'h) services" where
  "close_shared_queue sv =
     \<lparr>sv_worker = map_option (\<lambda>wk.
         wk\<lparr>wk_pool := (wk_pool wk)\<lparr>pl_queue := close_queue (pl_queue (wk_pool wk)),
              pl_engine := (pl_engine (wk_pool wk))\<lparr>en_queue := close_queue (en_queue (pl_engine (wk_pool wk)))\<rparr>\<rparr>,
            wk_sweep := (wk_sweep wk)\<lparr>pc_queue := close_queue (pc_queue (wk_sweep wk))\<rparr>\<rparr>) (sv_worker sv),
      sv_api = map_option (\<lambda>ar. ar\<lparr>ar_api := (ar_api ar)\<lparr>ap_queue := close_queue (ap_queue (ar_api ar))\<rparr>\<rparr>) (sv_api sv)\<rparr>"

definition stop_workers ::
  "bool \<Rightarrow> ('q, 'h) services \<Rightarrow> thread list \<Rightarrow> ('q, 'h) proc_state
   \<Rightarrow> ('q, 'h) services \<times> thread list \<times> ('q, 'h) proc_state" where
  "stop_workers drained sv ths st =
     (case sv_worker sv of
        None \<Rightarrow> (sv, ths, st)
      | Some wk \<Rightarrow>
          (case drain_pool (wk_pool wk) (wd_db (ps_world st)) of
             (P1, d1) \<Rightarrow>
               (case finish_stop drained P1 ths d1 of
                  (P2, ths1, d2) \<Rightarrow>
                    (close_shared_queue (sv\<lparr>sv_worker := Some (wk\<lparr>wk_pool := P2\<rparr>)\<rparr>), ths1,
                     st\<lparr>ps_world := (ps_world st)\<lparr>wd_db := d2\<rparr>\<rparr>))))"

text \<open>\<open>refusal\<close> is what \<^verbatim>\<open>Shutdown\<close> of the HTTP server returns.\<close>

definition graceful_shutdown ::
  "logger \<Rightarrow> goerror option \<Rightarrow> bool \<Rightarrow> ('q, 'h) services \<Rightarrow> thread list \<Rightarrow> ('q, 'h) proc_state
   \<Rightarrow> ('q, 'h) services \<times> thread list \<times> ('q, 'h) proc_state" where
  "graceful_shutdown lg refusal drained sv ths st =
     (let st1 = say lg LevelInfo (Text ''Graceful shutdown started'') st;
          st2 = (case (sv_api sv, refusal) of
                   (Some ar, Some err) \<Rightarrow> say lg LevelError (ErrLine ''Graceful shutdown error'' err) st1
                 | _ \<Rightarrow> st1)
      in case stop_workers drained (shutdown_server sv) ths st2 of
           (sv1, ths1, st3) \<Rightarrow> (sv1, ths1, say lg LevelInfo (Text ''Graceful shutdown completed'') st3))"

definition end_main ::
  "logger \<Rightarrow> config \<Rightarrow> main_event \<Rightarrow> goerror option \<Rightarrow> bool \<Rightarrow> ('q, 'h) services \<Rightarrow> thread list \<Rightarrow> ('q, 'h) proc_state
   \<Rightarrow> int \<times> ('q, 'h) services \<times> thread list \<times> ('q, 'h) proc_state" where
  "end_main lg cfg ev refusal drained sv ths st =
     (case ev of
        ServerReturned (Some err) \<Rightarrow>
          (if \<not> errors_is err ErrServerClosed then (1, sv, ths, say lg LevelError (ErrLine ''Server error'' err) st)
           else (0, sv, ths, db_close cfg lg (redis_close lg st)))
      | ServerReturned None \<Rightarrow> (0, sv, ths, db_close cfg lg (redis_close lg st))
      | Signalled \<Rightarrow>
          (case graceful_shutdown lg refusal drained sv ths st of
             (sv1, ths1, st1) \<Rightarrow> (0, sv1, ths1, db_close cfg lg (redis_close lg st1))))"

section \<open>What the steps keep\<close>

lemma say_sel [simp]:
  "ps_world (say lg l line st) = ps_world st" "ps_open (say lg l line st) = ps_open st"
  "ps_config_error (say lg l line st) = ps_config_error st"
  "ps_log (say lg l line st) = logged lg l line (ps_log st)"
  by (simp_all add: say_def)

lemma resource_sel [simp]:
  "ps_world (acquire x st) = ps_world st" "ps_world (release x st) = ps_world st"
  "ps_open (acquire x st) = x # ps_open st" "ps_open (release x st) = remove1 x (ps_open st)"
  "ps_log (acquire x st) = ps_log st" "ps_log (release x st) = ps_log st"
  by (simp_all add: acquire_def release_def)

lemma close_sel [simp]:
  "ps_world (db_close cfg lg st) = ps_world st" "ps_world (redis_close lg st) = ps_world st"
  "ps_open (db_close cfg lg st) = remove1 (pool_of_config cfg) (ps_open st)"
  "ps_open (redis_close lg st) = remove1 RedisClient (ps_open st)"
  by (simp_all add: db_close_def redis_close_def)

text \<open>A connection that fails is given back, one that succeeds is open.\<close>

lemma db_connect_open:
  "db_connect D cfg lg st = (e, st1) \<Longrightarrow>
   ps_open st1 = (if e = None then [pool_of_config cfg] else []) @ ps_open st \<and> ps_world st1 = ps_world st"
  by (auto simp: db_connect_def Let_def split: option.splits)

lemma run_migrations_open:
  "run_migrations D url lg st = (e, st1) \<Longrightarrow> ps_open st1 = ps_open st \<and> ps_world st1 = ps_world st"
  by (auto simp: run_migrations_def Let_def split: option.splits migration.splits)

lemma connect_redis_open:
  "connect_redis D cfg lg st = (e, st1) \<Longrightarrow>
   ps_open st1 = RedisClient # ps_open st \<and> wd_db (ps_world st1) = wd_db (ps_world st)"
  by (auto simp: connect_redis_def Let_def split: prod.splits option.splits)

lemma main_analyzer_open:
  "main_analyzer D cfg lg st = (a, st1) \<Longrightarrow> ps_open st1 = ps_open st \<and> ps_world st1 = ps_world st"
  by (auto simp: main_analyzer_def split: if_splits sum.splits)

lemma start_workers_open:
  "start_workers D cfg a st = (wk, st1) \<Longrightarrow>
   ps_open st1 = ps_open st \<and> db_executions (wd_db (ps_world st1)) = db_executions (wd_db (ps_world st))"
  by (auto simp: start_workers_def start_pool_def split: if_splits)

end
