(* ===== verification/Boot_Contract.thy ===== *)
theory Boot_Contract imports Boot Api_Contract begin

text \<open>
  What starting and stopping the process guarantees: which services a role has, that workers have names of
  their own, when an interval ends the process, and what a signal or a failing server leaves behind.
\<close>

section \<open>Names of workers\<close>

lemma last_dash_unique:
  "a @ CHR ''-'' # x = b @ CHR ''-'' # y \<Longrightarrow> CHR ''-'' \<notin> set x \<Longrightarrow> CHR ''-'' \<notin> set y \<Longrightarrow> a = b \<and> x = y"
  by (auto simp: append_eq_append_conv2 append_eq_Cons_conv Cons_eq_append_conv)

lemma dec_of_nat_no_dash: "CHR ''-'' \<notin> set (dec_of_nat n)"
proof (induction n rule: dec_of_nat.induct)
  case (1 n)
  have d: "digit_char k \<noteq> CHR ''-''" if "k < 10" for k
    using digit_char_digit [OF that] by (auto simp: dec_digit_def byte_in_def)
  show ?case
  proof (cases "n < 10")
    case True
    with d [of n] show ?thesis by (subst dec_of_nat.simps) auto
  next
    case False
    with 1 d [of "n mod 10"] show ?thesis by (subst dec_of_nat.simps) auto
  qed
qed

lemma dec_of_nat_inj: "dec_of_nat m = dec_of_nat n \<Longrightarrow> m = n"
  by (metis dec_value_printed option.inject)

lemma worker_name_inj: "worker_name P i = worker_name Q j \<longleftrightarrow> pl_instanceID P = pl_instanceID Q \<and> i = j"
proof
  assume "worker_name P i = worker_name Q j"
  then have "(pl_instanceID P @ ''-worker'') @ CHR ''-'' # dec_of_nat i = (pl_instanceID Q @ ''-worker'') @ CHR ''-'' # dec_of_nat j"
    by (simp add: worker_name_def)
  from last_dash_unique [OF this dec_of_nat_no_dash dec_of_nat_no_dash] dec_of_nat_inj
  show "pl_instanceID P = pl_instanceID Q \<and> i = j" by blast
qed (simp add: worker_name_def)

lemma start_pool_names:
  "start_pool P d = (P1, names, d1) \<Longrightarrow> distinct names \<and> length names = nat (sint (pl_numWorkers P))"
  by (auto simp: start_pool_def distinct_map inj_on_def worker_name_inj)

text \<open>
  Two workers share a name only when their instances share an id: the workers of one pool have different
  names, one for each of the configured number, and pools of different instances have no name in common,
  also where an id itself looks like the name of a worker. The ownership checks of the job table rest on it.
\<close>

theorem worker_names_unique:
  assumes "start_pool P d = (P1, names, d1)" and "start_pool Q e = (Q1, other_names, e1)"
    and "pl_instanceID P \<noteq> pl_instanceID Q"
  shows "distinct names \<and> length names = nat (sint (pl_numWorkers P)) \<and> set names \<inter> set other_names = {}"
proof -
  have "set names \<inter> set other_names = {}" using assms by (auto simp: start_pool_def worker_name_inj)
  with start_pool_names [OF assms(1)] show ?thesis by simp
qed

section \<open>Starting\<close>

lemma fail_start_not_launched [simp]: "fail_start lg what err st \<noteq> (Launched l c sv, st1)"
  by (simp add: fail_start_def)

lemma bootE:
  assumes "boot D env uuid st = (Launched lg cfg sv, st1)"
  obtains st2 st3 st4 where "load_config env uuid = Inr cfg"
    "db_connect D cfg lg st = (None, st2)" "run_migrations D (cf_DatabaseURL cfg) lg st2 = (None, st3)"
    "connect_redis D cfg lg st3 = (None, st4)" "launch_services D cfg lg st4 = (Launched lg cfg sv, st1)"
    "lg = new_logger (cf_Env cfg) (cf_LogLevel cfg)"
proof -
  have l: "launch_services D c l s = (Launched lg cfg sv, st1) \<Longrightarrow> l = lg \<and> c = cfg" for c l s
    by (auto simp: launch_services_def split: prod.splits option.splits)
  from assms that show thesis
    by (auto simp: boot_def Let_def split: sum.splits prod.splits option.splits dest: l)
qed

lemma launch_servicesE:
  assumes "launch_services D cfg lg st = (Launched lg cfg sv, st1)"
  obtains s analyzer st2 where
    "ensure_group_exists (dp_redis D) (main_queue cfg) (wd_queue (ps_world st)) = (None, s)"
    "main_analyzer D cfg lg (say lg LevelInfo (Text ''Starting application'')
        (st\<lparr>ps_world := (ps_world st)\<lparr>wd_queue := s\<rparr>\<rparr>)) = (analyzer, st2)"
    "start_workers D cfg analyzer st2 = (sv_worker sv, st1)" "sv_api sv = start_api D cfg analyzer"
  using assms that by (auto simp: launch_services_def split: prod.splits option.splits)

definition role_started :: "config \<Rightarrow> ('q, 'h) services \<Rightarrow> bool" where
  "role_started cfg sv \<longleftrightarrow>
     (sv_worker sv \<noteq> None \<longleftrightarrow> cf_Role cfg \<in> {''worker'', ''all''}) \<and>
     (sv_api sv \<noteq> None \<longleftrightarrow> cf_Role cfg \<in> {''api'', ''all''}) \<and>
     (\<forall>wk. sv_worker sv = Some wk \<longrightarrow>
        pl_status (wk_pool wk) = WorkerActive \<and> pl_queue (wk_pool wk) = main_queue cfg \<and>
        wk_heartbeat wk = cf_WorkerHeartbeatInterval cfg \<and> wk_names wk \<noteq> [] \<and> distinct (wk_names wk)) \<and>
     (\<forall>ar. sv_api sv = Some ar \<longrightarrow>
        \<not> ap_shuttingDown (ar_api ar) \<and> ap_queue (ar_api ar) = main_queue cfg \<and> ar_interval ar = cf_RecoveryInterval cfg \<and>
        hs_Addr (ar_http ar) = '':'' @ cf_Port cfg)"

lemma start_workers_role:
  assumes "start_workers D cfg a st = (wk, st1)" and "0 < sint (cf_ExecutionWorkers cfg)"
  shows "(wk \<noteq> None \<longleftrightarrow> cf_Role cfg \<in> {''worker'', ''all''}) \<and>
    (\<forall>k. wk = Some k \<longrightarrow> pl_status (wk_pool k) = WorkerActive \<and> pl_queue (wk_pool k) = main_queue cfg \<and>
        wk_heartbeat k = cf_WorkerHeartbeatInterval cfg \<and> wk_names k \<noteq> [] \<and> distinct (wk_names k))"
proof (cases "runs_workers cfg")
  case True
  obtain P names d where p: "start_pool (main_pool D cfg a) (wd_db (ps_world st)) = (P, names, d)" by (metis surj_pair)
  from start_pool_names [OF p] assms(2) have "names \<noteq> []" "distinct names" by (auto simp: main_pool_defs)
  with True p assms show ?thesis
    by (auto simp: start_workers_def runs_workers_def start_pool_def main_pool_defs)
next
  case False
  with assms show ?thesis by (auto simp: start_workers_def runs_workers_def)
qed

lemma start_api_role:
  "(start_api D cfg a \<noteq> None \<longleftrightarrow> cf_Role cfg \<in> {''api'', ''all''}) \<and>
   (\<forall>ar. start_api D cfg a = Some ar \<longrightarrow>
      \<not> ap_shuttingDown (ar_api ar) \<and> ap_queue (ar_api ar) = main_queue cfg \<and> ar_interval ar = cf_RecoveryInterval cfg \<and>
      hs_Addr (ar_http ar) = '':'' @ cf_Port cfg)"
  by (auto simp: start_api_def runs_api_def main_api_def new_http_server_def)

lemma loaded_workers_positive: "load_config env uuid = Inr cfg \<Longrightarrow> 0 < sint (cf_ExecutionWorkers cfg)"
  by (erule load_configE) (simp add: validate_None)

lemma launched_role:
  assumes "boot D env uuid st = (Launched lg cfg sv, st1)"
  shows "role_started cfg sv \<and> ps_open st1 = [RedisClient, pool_of_config cfg] @ ps_open st \<and>
    db_executions (wd_db (ps_world st1)) = db_executions (wd_db (ps_world st))"
  using assms
proof (rule bootE)
  fix st2 st3 st4
  assume c: "load_config env uuid = Inr cfg" and d: "db_connect D cfg lg st = (None, st2)"
    and m: "run_migrations D (cf_DatabaseURL cfg) lg st2 = (None, st3)" and r: "connect_redis D cfg lg st3 = (None, st4)"
    and l: "launch_services D cfg lg st4 = (Launched lg cfg sv, st1)"
  from l obtain s a st5 where a: "main_analyzer D cfg lg (say lg LevelInfo (Text ''Starting application'')
        (st4\<lparr>ps_world := (ps_world st4)\<lparr>wd_queue := s\<rparr>\<rparr>)) = (a, st5)"
    and w: "start_workers D cfg a st5 = (sv_worker sv, st1)" "sv_api sv = start_api D cfg a" by (rule launch_servicesE)
  from start_workers_role [OF w(1) loaded_workers_positive [OF c]] start_api_role [of D cfg a] w(2)
  have "role_started cfg sv" by (simp add: role_started_def)
  with db_connect_open [OF d] run_migrations_open [OF m] connect_redis_open [OF r] main_analyzer_open [OF a]
    start_workers_open [OF w(1)] show ?thesis by simp
qed

text \<open>The libraries answer every call of a start.\<close>

definition all_answer :: "('q, 'h) deps \<Rightarrow> config \<Rightarrow> 'q \<Rightarrow> bool" where
  "all_answer D cfg s \<longleftrightarrow>
     dp_temp_error D = None \<and> dp_parse_url D (cf_DatabaseURL cfg) = None \<and>
     dp_open_pool D (cf_DatabaseURL cfg) (cf_DBMaxConns cfg) (cf_DBMinConns cfg) = None \<and> dp_ping_pool D = None \<and>
     dp_migration_files D = None \<and> dp_migrator D (cf_DatabaseURL cfg) = None \<and>
     (\<forall>err. dp_migrate D \<noteq> MigrationFailed err) \<and>
     (case dp_redis_ping D (cf_RedisAddr cfg) (cf_RedisPassword cfg) (cf_RedisDB cfg) s of
        (e, s1) \<Rightarrow> e = None \<and> fst (ensure_group_exists (dp_redis D) (main_queue cfg) s1) = None)"

lemma boot_answers:
  assumes "load_config env uuid = Inr cfg"
  shows "(\<exists>lg sv st1. boot D env uuid st = (Launched lg cfg sv, st1)) \<longleftrightarrow> all_answer D cfg (wd_queue (ps_world st))"
  using assms
  by (auto simp: boot_def all_answer_def create_seccomp_profile_def db_connect_def run_migrations_def connect_redis_def launch_services_def
      fail_start_def Let_def split: option.splits prod.splits migration.splits)


text \<open>
  C26: A start brings up the services of its role: where the settings load and every library answers, the process
  has its two connections open and nothing else, a pool of at least one worker (with names of their own)
  exactly for the roles \<open>worker\<close> and \<open>all\<close>, a server that takes requests at the configured port exactly for
  \<open>api\<close> and \<open>all\<close>, all on the configured queue; no job was touched. For any other text in \<^verbatim>\<open>ROLE\<close>, which loading accepts, the
  process starts and serves nothing.
\<close>

theorem boot_starts_role:
  assumes "load_config env uuid = Inr cfg" and "all_answer D cfg (wd_queue (ps_world st))"
  shows "\<exists>lg sv st1. boot D env uuid st = (Launched lg cfg sv, st1) \<and> role_started cfg sv \<and>
    ps_open st1 = [RedisClient, pool_of_config cfg] @ ps_open st \<and>
    db_executions (wd_db (ps_world st1)) = db_executions (wd_db (ps_world st))"
proof -
  from boot_answers [OF assms(1)] assms(2) obtain lg sv st1 where "boot D env uuid st = (Launched lg cfg sv, st1)" by blast
  with launched_role [OF this] show ?thesis by blast
qed

lemma fail_start_says: "fail_start lg what err st = (Exited 1, say lg LevelError (ErrLine what err) st)"
  by (simp add: fail_start_def)

text \<open>
  A start that fails says why and starts nothing: the code is 1, the bootstrap message or the last line of
  the log, an error printed at every log level, has the reason, the database is as before and the migrator
  was closed.
\<close>

theorem failed_start_is_reported:
  assumes "boot D env uuid st = (Exited code, st1)"
  shows "code = 1 \<and> wd_db (ps_world st1) = wd_db (ps_world st) \<and>
    count_list (ps_open st1) Migrator = count_list (ps_open st) Migrator \<and>
    ((\<exists>e. load_config env uuid = Inl e \<and> ps_config_error st1 = Some e) \<or>
     (\<exists>what err. last (ps_log st1) = (LevelError, ErrLine what err)))"
proof (cases "load_config env uuid")
  case (Inl e)
  with assms show ?thesis by (auto simp: boot_def)
next
  case (Inr cfg)
  let ?lg = "new_logger (cf_Env cfg) (cf_LogLevel cfg)"
  obtain e2 st2 where d: "db_connect D cfg ?lg st = (e2, st2)" by fastforce
  obtain e3 st3 where m: "run_migrations D (cf_DatabaseURL cfg) ?lg st2 = (e3, st3)" by fastforce
  obtain e4 st4 where r: "connect_redis D cfg ?lg st3 = (e4, st4)" by fastforce
  have pg: "pool_of_config cfg \<noteq> Migrator" by (simp add: pool_of_config_def)
  from Inr d m r assms show ?thesis
    using db_connect_open [OF d] run_migrations_open [OF m] connect_redis_open [OF r] pg
    by (auto simp: boot_def Let_def fail_start_says errors_always_logged launch_services_def
        split: option.splits prod.splits sum.splits if_splits)
qed

text \<open>Without a temporary file for the seccomp profile the process panics before it touches anything.\<close>

lemma panic_touches_nothing:
  "boot D env uuid st = (StartPanics msg, st1) \<longleftrightarrow>
     st1 = st \<and> (\<exists>cfg err. load_config env uuid = Inr cfg \<and> dp_temp_error D = Some err \<and>
       msg = ''failed to create temp seccomp file: '' @ error_text err)"
  by (auto simp: boot_def Let_def create_seccomp_profile_def launch_services_def fail_start_def
      split: sum.splits option.splits prod.splits)

section \<open>Intervals\<close>

lemma loaded_intervals: "load_config env uuid = Inr cfg \<Longrightarrow> cf_WorkerHeartbeatInterval cfg \<noteq> 0 \<and> cf_RecoveryInterval cfg \<noteq> 0"
  by (erule load_configE) (simp add: load_worker_def second_def)

lemma ticker_panics_loaded: "i \<noteq> 0 \<Longrightarrow> ticker_panics i \<longleftrightarrow> sint i < 0"
proof -
  assume "i \<noteq> 0"
  then have "sint i \<noteq> 0" by (simp add: signed_eq_0_iff)
  then show ?thesis by (auto simp: ticker_panics_def word_sle_eq)
qed

lemma sweep_interval_ok [simp]: "\<not> ticker_panics sweep_interval"
  by (simp add: ticker_panics_def sweep_interval_def second_def word_sle_eq)

text \<open>
  Settings that load can end the process: a negative \<^verbatim>\<open>WORKER_HEARTBEAT_INTERVAL\<close> with workers, or a
  negative \<^verbatim>\<open>RECOVERY_INTERVAL\<close> with the API, makes a goroutine of a started process panic; with any other
  settings that load no ticker does.
\<close>

theorem negative_interval_ends_process:
  assumes "boot D env uuid st = (Launched lg cfg sv, st1)"
  shows "services_crash sv \<longleftrightarrow>
    cf_Role cfg \<in> {''worker'', ''all''} \<and> sint (cf_WorkerHeartbeatInterval cfg) < 0 \<or>
    cf_Role cfg \<in> {''api'', ''all''} \<and> sint (cf_RecoveryInterval cfg) < 0"
proof -
  from assms have "load_config env uuid = Inr cfg" by (rule bootE)
  note i = loaded_intervals [OF this]
  from launched_role [OF assms] have r: "role_started cfg sv" by blast
  show ?thesis
    using r i by (cases "sv_worker sv"; cases "sv_api sv")
      (auto simp: services_crash_def role_started_def ticker_panics_loaded)
qed

section \<open>Stopping\<close>

lemma report_stored:
  assumes "db_script d = []"
  shows "db_script (snd (heartbeat_update_status w s d)) = [] \<and>
    (\<exists>r. find_row wr_worker_id w (db_workers (snd (heartbeat_update_status w s d))) = Some r \<and> wr_status r = s)"
proof (cases "find_row wr_worker_id w (db_workers d)")
  case None
  with assms show ?thesis
    by (simp add: heartbeat_update_status_def run_stmt_def apply_stmt_def upsert_worker_def find_row_append)
next
  case (Some r)
  moreover from find_row_SomeD [OF Some] have "wr_worker_id r = w" by simp
  ultimately show ?thesis using assms
    by (simp add: heartbeat_update_status_def run_stmt_def apply_stmt_def upsert_worker_def update_workers_def table_simps)
qed

definition all_cancelled :: "thread list \<Rightarrow> thread list" where
  "all_cancelled ths = map (\<lambda>th. th\<lparr>th_cancelled := True\<rparr>) ths"

lemma stop_workers_role:
  assumes "stop_workers drained sv ths st = (sv1, ths1, st1)" and "sv_worker sv = Some wk"
  shows "(\<exists>wk1. sv_worker sv1 = Some wk1 \<and> pl_status (wk_pool wk1) = WorkerStopped \<and> kq_closed (pl_queue (wk_pool wk1))) \<and>
    (\<forall>ar1. sv_api sv1 = Some ar1 \<longrightarrow> kq_closed (ap_queue (ar_api ar1)) \<and>
       (\<exists>ar. sv_api sv = Some ar \<and> ap_shuttingDown (ar_api ar1) = ap_shuttingDown (ar_api ar))) \<and>
    ths1 = (if drained then ths else all_cancelled ths) \<and> ps_open st1 = ps_open st \<and>
    db_executions (wd_db (ps_world st1)) = db_executions (wd_db (ps_world st)) \<and>
    (db_script (wd_db (ps_world st)) = [] \<longrightarrow>
       (\<exists>r. find_row wr_worker_id (pl_instanceID (wk_pool wk)) (db_workers (wd_db (ps_world st1))) = Some r \<and>
            wr_status r = WorkerStopped))"
proof -
  let ?i = "pl_instanceID (wk_pool wk)" and ?d = "wd_db (ps_world st)"
  let ?d1 = "snd (heartbeat_update_status ?i WorkerDraining ?d)"
  have "db_script ?d = [] \<Longrightarrow> db_script ?d1 = []" using report_stored by blast
  note stopped = report_stored [OF this, of ?i WorkerStopped]
  from assms stopped show ?thesis
    by (auto simp: stop_workers_def drain_pool_def finish_stop_def close_shared_queue_def close_queue_def
        all_cancelled_def)
qed

lemma shutdown_server_sel [simp]:
  "sv_worker (shutdown_server sv) = sv_worker sv"
  "sv_api (shutdown_server sv) = Some ar1 \<Longrightarrow> ap_shuttingDown (ar_api ar1)"
  "sv_api (shutdown_server sv) = None \<longleftrightarrow> sv_api sv = None"
  by (auto simp: shutdown_server_def)


text \<open>
  A server that fails, for instance because its port is taken, ends the process at once: the exit code is 1,
  and neither are the connections closed nor the workers drained; they keep their state and their leases.
\<close>

theorem server_failure_abandons_workers:
  assumes "\<not> errors_is err ErrServerClosed"
  shows "end_main lg cfg (ServerReturned (Some err)) refusal drained sv ths st =
    (1, sv, ths, say lg LevelError (ErrLine ''Server error'' err) st) \<and>
    last (ps_log (say lg LevelError (ErrLine ''Server error'' err) st)) = (LevelError, ErrLine ''Server error'' err)"
  using assms by (simp add: end_main_def errors_always_logged)


section \<open>Examples\<close>

lemma load_recovery_interval:
  assumes "load_config env uuid = Inr c" and "parse_duration t = Some d" and "d \<noteq> 0"
  shows "load_config (env(''RECOVERY_INTERVAL'' := t)) uuid = Inr (c\<lparr>cf_RecoveryInterval := d\<rparr>)"
proof -
  let ?env = "env(''RECOVERY_INTERVAL'' := t)"
  from assms(1) obtain c0 c1 c2 c3 where s: "load_process env = Inr c0" "load_execution env c0 = Inr c1"
    "load_database env c1 = Inr c2" "load_redis env uuid c2 = Inr c3" and c: "c = load_worker env c3" "validate c = None"
    by (rule load_configE)
  have same: "load_process ?env = load_process env" "load_execution ?env d = load_execution env d"
    "load_database ?env d = load_database env d" "load_redis ?env uuid d = load_redis env uuid d" for d
    by (simp_all add: load_process_def load_execution_def load_database_def load_redis_def)
  have worker: "load_worker ?env c3 = c\<lparr>cf_RecoveryInterval := d\<rparr>"
    using assms(2,3) by (simp add: c(1) load_worker_def duration_or_def [of ?env "''RECOVERY_INTERVAL''"])
  have "validate (c\<lparr>cf_RecoveryInterval := d\<rparr>) = None" using c(2) unfolding validate_None by simp
  with s show ?thesis by (simp add: load_config_def same worker)
qed

definition deps_example :: "goerror option \<Rightarrow> (nat \<times> queue_event list, nat) deps" where
  "deps_example ping =
     \<lparr>dp_parse_url = (\<lambda>u. None), dp_open_pool = (\<lambda>u m n. None), dp_ping_pool = ping, dp_migration_files = None,
      dp_migrator = (\<lambda>u. None), dp_migrate = NoChange, dp_redis = logged_redis silent_redis,
      dp_redis_ping = (\<lambda>a p n s. (None, s)), dp_new_analyzer = (\<lambda>k. Inl (ErrMsg ''no model'')),
      dp_host = host_example, dp_temp_error = None, dp_seccomp_path = ''/s'', dp_clock = (\<lambda>h. 7), dp_job_json = (\<lambda>job. Some []),
      dp_submission_json = (\<lambda>s. Some []), dp_codecs = api_example\<rparr>"

definition fresh_state :: "(nat \<times> queue_event list, nat) proc_state" where
  "fresh_state = \<lparr>ps_world = shop_world [], ps_log = [], ps_open = [], ps_config_error = None\<rparr>"

lemma example_answers: "all_answer (deps_example None) cfg s"
  by (simp add: all_answer_def deps_example_def ensure_group_exists_def logged_redis_def silent_redis_def split: prod.split)

theorem worker_names_unique_witness:
  "set (fst (snd (start_pool (main_pool (deps_example None) (standard_config ''u'' ''1'') None) (database_example [])))) \<inter>
   set (fst (snd (start_pool (main_pool (deps_example None) (standard_config ''u'' ''1-worker-2'') None) (database_example [])))) = {}"
proof -
  let ?P = "main_pool (deps_example None) (standard_config ''u'' ''1'') None"
    and ?Q = "main_pool (deps_example None) (standard_config ''u'' ''1-worker-2'') None"
  obtain P names d Q other e where p: "start_pool ?P (database_example []) = (P, names, d)"
    and q: "start_pool ?Q (database_example []) = (Q, other, e)" by (metis surj_pair)
  have "pl_instanceID ?P \<noteq> pl_instanceID ?Q" by (simp add: main_pool_defs standard_config_def)
  from worker_names_unique [OF p q this] p q show ?thesis by simp
qed

theorem boot_starts_role_witness:
  "\<exists>lg sv st1. boot (deps_example None) (url_only ''u'') ''7'' fresh_state = (Launched lg (standard_config ''u'' ''7'') sv, st1) \<and>
     sv_worker sv \<noteq> None \<and> sv_api sv \<noteq> None"
proof -
  have "load_config (url_only ''u'') ''7'' = Inr (standard_config ''u'' ''7'')" by (rule load_url_only) simp
  from boot_starts_role [OF this example_answers, of fresh_state] show ?thesis
    by (auto simp: role_started_def standard_config_def)
qed

theorem failed_start_is_reported_witness:
  "\<exists>st1. boot (deps_example (Some (ExternalError ''down''))) (url_only ''u'') ''7'' fresh_state = (Exited 1, st1) \<and>
     count_list (ps_open st1) Migrator = 0"
proof -
  have "load_config (url_only ''u'') ''7'' = Inr (standard_config ''u'' ''7'')" by (rule load_url_only) simp
  then obtain st1 where b: "boot (deps_example (Some (ExternalError ''down''))) (url_only ''u'') ''7'' fresh_state = (Exited 1, st1)"
    by (simp add: boot_def create_seccomp_profile_def db_connect_def deps_example_def fail_start_def Let_def)
  from failed_start_is_reported [OF b] b show ?thesis by (simp add: fresh_state_def)
qed

theorem negative_interval_ends_process_witness:
  "\<exists>lg cfg sv st1. boot (deps_example None) ((url_only ''u'')(''RECOVERY_INTERVAL'' := ''-1s'')) ''7'' fresh_state =
     (Launched lg cfg sv, st1) \<and> services_crash sv"
proof -
  let ?env = "(url_only ''u'')(''RECOVERY_INTERVAL'' := ''-1s'')"
  have d: "parse_duration ''-1s'' = Some (- 1000000000)" by code_simp
  have l: "load_config ?env ''7'' = Inr (standard_config ''u'' ''7''\<lparr>cf_RecoveryInterval := - 1000000000\<rparr>)"
    by (rule load_recovery_interval [OF load_url_only d]) simp_all
  from boot_answers [OF l, of "deps_example None" fresh_state] example_answers
  obtain lg sv st1 where b: "boot (deps_example None) ?env ''7'' fresh_state =
      (Launched lg (standard_config ''u'' ''7''\<lparr>cf_RecoveryInterval := - 1000000000\<rparr>) sv, st1)" by blast
  from negative_interval_ends_process [OF b] b show ?thesis by (auto simp: standard_config_def)
qed


end
