(* ===== verification/Proc_Group.thy ===== *)
theory Proc_Group imports Proc Go_Num begin

text \<open>
  \<^verbatim>\<open>internal/platform/process/process_linux.go\<close>, \<^verbatim>\<open>process_windows.go\<close> and what \<^verbatim>\<open>RunProcess\<close> does to the
  processes of the machine: it starts the command in a process group of its own and, when the timer or the
  context ends the run, kills that group. The table of processes changes meanwhile as the processes
  please: they fork, exit, and leave their group for one of their own (\<^verbatim>\<open>setsid\<close>, \<^verbatim>\<open>setpgid(0, 0)\<close>). Ids are
  given out in increasing order; that the kernel reuses the id of a process that is gone, and that a process
  joins a group another one leads, is not modelled.
\<close>

section \<open>Processes\<close>

text \<open>\<open>op_line\<close> is for the proofs: the process, its parent, the parent's parent and so on.\<close>

record os_proc =
  op_pid :: int
  op_pgid :: int
  op_line :: "int list"

record os_table =
  ot_next :: int
  ot_procs :: "os_proc list"

datatype os_event = Forks int | Exits int | Leads int

definition find_proc :: "int \<Rightarrow> os_table \<Rightarrow> os_proc option" where
  "find_proc i t = find (\<lambda>x. op_pid x = i) (ot_procs t)"

text \<open>A fork keeps the group of the parent, unless the child is started with \<^verbatim>\<open>Setpgid\<close>.\<close>

definition os_fork :: "bool \<Rightarrow> os_proc \<Rightarrow> os_table \<Rightarrow> os_table" where
  "os_fork setpgid x t =
     \<lparr>ot_next = ot_next t + 1,
      ot_procs = \<lparr>op_pid = ot_next t, op_pgid = (if setpgid then ot_next t else op_pgid x),
                  op_line = ot_next t # op_line x\<rparr> # ot_procs t\<rparr>"

fun os_happens :: "os_event \<Rightarrow> os_table \<Rightarrow> os_table" where
  "os_happens (Forks i) t = (case find_proc i t of None \<Rightarrow> t | Some x \<Rightarrow> os_fork False x t)"
| "os_happens (Exits i) t = t\<lparr>ot_procs := filter (\<lambda>x. op_pid x \<noteq> i) (ot_procs t)\<rparr>"
| "os_happens (Leads i) t =
     t\<lparr>ot_procs := map (\<lambda>x. if op_pid x = i then x\<lparr>op_pgid := i\<rparr> else x) (ot_procs t)\<rparr>"

text \<open>\<^verbatim>\<open>kill(2)\<close> with \<^verbatim>\<open>SIGKILL\<close>, for a process (positive) or a group (below -1).\<close>

definition sys_kill :: "int \<Rightarrow> os_table \<Rightarrow> os_table" where
  "sys_kill i t =
     t\<lparr>ot_procs := filter (\<lambda>x. if i < -1 then op_pgid x \<noteq> - i else 0 < i \<longrightarrow> op_pid x \<noteq> i) (ot_procs t)\<rparr>"

section \<open>The command of a run\<close>

text \<open>\<^verbatim>\<open>exec.Cmd\<close>: its \<^verbatim>\<open>SysProcAttr\<close>, of which \<^verbatim>\<open>Setpgid\<close> is used, and its \<^verbatim>\<open>Process\<close> once it is started.\<close>

record os_cmd =
  cm_Setpgid :: "bool option"
  cm_Process :: "int option"

definition new_cmd :: os_cmd where
  "new_cmd = \<lparr>cm_Setpgid = None, cm_Process = None\<rparr>"

definition set_sys_proc_attr_linux :: "os_cmd \<Rightarrow> os_cmd" where
  "set_sys_proc_attr_linux cmd = cmd\<lparr>cm_Setpgid := Some True\<rparr>"

definition set_sys_proc_attr_windows :: "os_cmd \<Rightarrow> os_cmd" where
  "set_sys_proc_attr_windows cmd = cmd"

definition kill_process_linux :: "os_cmd \<Rightarrow> os_table \<Rightarrow> os_table" where
  "kill_process_linux cmd t = (case cm_Process cmd of None \<Rightarrow> t | Some pid \<Rightarrow> sys_kill (- pid) t)"

text \<open>On Windows the program \<^verbatim>\<open>taskkill\<close> is run; its error is dropped.\<close>

definition kill_process_windows :: "(string list \<Rightarrow> 't \<Rightarrow> 't) \<Rightarrow> os_cmd \<Rightarrow> 't \<Rightarrow> 't" where
  "kill_process_windows taskkill cmd t =
     (case cm_Process cmd of None \<Rightarrow> t | Some pid \<Rightarrow> taskkill [''/T'', ''/F'', ''/PID'', dec_of_int pid] t)"

text \<open>\<^verbatim>\<open>cmd.Start\<close>, called by the process \<open>server\<close>.\<close>

definition start_cmd :: "os_proc \<Rightarrow> os_cmd \<Rightarrow> os_table \<Rightarrow> os_cmd \<times> os_table" where
  "start_cmd server cmd t =
     (cmd\<lparr>cm_Process := Some (ot_next t)\<rparr>, os_fork (cm_Setpgid cmd = Some True) server t)"

text \<open>
  \<^verbatim>\<open>RunProcess\<close> on Linux: what happens between the start and the \<^verbatim>\<open>select\<close> is \<open>evs\<close>; two cases of the
  \<^verbatim>\<open>select\<close> kill the group.
\<close>

definition run_on_table :: "os_proc \<Rightarrow> os_event list \<Rightarrow> select_case \<Rightarrow> os_table \<Rightarrow> os_table" where
  "run_on_table server evs sel t =
     (let (cmd, t1) = start_cmd server (set_sys_proc_attr_linux new_cmd) t;
          t2 = fold os_happens evs t1
      in (case sel of
            TimerFired \<Rightarrow> kill_process_linux cmd t2
          | CtxDone \<Rightarrow> kill_process_linux cmd t2
          | ProcExited err \<Rightarrow> t2))"

section \<open>Groups and descendants\<close>

definition os_table_ok :: "os_table \<Rightarrow> bool" where
  "os_table_ok t \<longleftrightarrow> 1 < ot_next t \<and>
     (\<forall>x \<in> set (ot_procs t). op_pid x < ot_next t \<and> op_pgid x < ot_next t \<and> op_pid x \<in> set (op_line x) \<and>
        (\<forall>a \<in> set (op_line x). a < ot_next t))"

text \<open>
  The group of \<open>p\<close> holds descendants of \<open>p\<close> only, and every descendant unless an ancestor (or itself)
  took a group of its own.
\<close>

definition group_ok :: "int \<Rightarrow> os_event list \<Rightarrow> os_table \<Rightarrow> bool" where
  "group_ok p evs t \<longleftrightarrow> os_table_ok t \<and> p < ot_next t \<and>
     (\<forall>x \<in> set (ot_procs t).
        (op_pgid x = p \<longrightarrow> p \<in> set (op_line x)) \<and>
        (p \<in> set (op_line x) \<and> op_pgid x \<noteq> p \<longrightarrow> (\<exists>e \<in> set (op_line x). e \<noteq> p \<and> Leads e \<in> set evs)))"

lemma find_proc_Some: "find_proc i t = Some x \<Longrightarrow> x \<in> set (ot_procs t) \<and> op_pid x = i"
  by (auto simp: find_proc_def find_Some_iff)

lemma os_fork_ok: "os_table_ok t \<Longrightarrow> x \<in> set (ot_procs t) \<Longrightarrow> os_table_ok (os_fork b x t)"
  by (fastforce simp: os_table_ok_def os_fork_def)

lemma os_happens_ok: "os_table_ok t \<Longrightarrow> os_table_ok (os_happens e t)"
  by (cases e) (auto simp: os_fork_ok dest!: find_proc_Some split: option.split, auto simp: os_table_ok_def)

lemma group_ok_more: "group_ok p evs t \<Longrightarrow> set evs \<subseteq> set evs1 \<Longrightarrow> group_ok p evs1 t"
  by (fastforce simp: group_ok_def)

lemma group_ok_fork:
  assumes "group_ok p evs t" and "x \<in> set (ot_procs t)"
  shows "group_ok p evs (os_fork False x t)"
  using assms os_fork_ok [of t x False] by (auto simp: group_ok_def os_fork_def)

lemma group_ok_happens:
  assumes "group_ok p evs t"
  shows "group_ok p (evs @ [e]) (os_happens e t)"
proof (cases e)
  case (Forks i)
  with group_ok_more [OF assms, of "evs @ [e]"] show ?thesis
    by (auto intro: group_ok_fork dest!: find_proc_Some split: option.split)
next
  case (Exits i)
  with group_ok_more [OF assms, of "evs @ [e]"] os_happens_ok [of t e] show ?thesis by (auto simp: group_ok_def)
next
  case (Leads i)
  with group_ok_more [OF assms, of "evs @ [e]"] os_happens_ok [of t e] show ?thesis
    by (fastforce simp: group_ok_def os_table_ok_def)
qed

lemma group_ok_fold: "group_ok p evs t \<Longrightarrow> group_ok p (evs @ evs1) (fold os_happens evs1 t)"
proof (induction evs1 arbitrary: evs t)
  case (Cons e evs1)
  from Cons.IH [OF group_ok_happens [OF Cons.prems, of e]] show ?case by simp
qed simp

lemma group_ok_start:
  assumes "os_table_ok t" and "server \<in> set (ot_procs t)" and "start_cmd server (set_sys_proc_attr_linux new_cmd) t = (cmd, t1)"
  shows "group_ok (ot_next t) [] t1 \<and> cm_Process cmd = Some (ot_next t)"
proof -
  have "\<forall>x \<in> set (ot_procs t). op_pgid x \<noteq> ot_next t \<and> ot_next t \<notin> set (op_line x)"
    using assms(1) by (fastforce simp: os_table_ok_def)
  with assms(3) os_fork_ok [OF assms(1,2), of True] show ?thesis
    by (auto simp: start_cmd_def group_ok_def set_sys_proc_attr_linux_def os_fork_def)
qed

lemma kill_process_linux_procs:
  "cm_Process cmd = Some p \<Longrightarrow> 1 < p \<Longrightarrow>
   ot_procs (kill_process_linux cmd t) = filter (\<lambda>x. op_pgid x \<noteq> p) (ot_procs t)"
  by (simp add: kill_process_linux_def sys_kill_def)

section \<open>Property\<close>

text \<open>
  C15: ending a run ends the tree of its processes and nothing else: when the timer or the context ends
  \<^verbatim>\<open>RunProcess\<close>, then, whatever the processes of the machine have done since the start, each process that is
  killed descends from the command, and each descendant that survives has itself, or through an ancestor
  below the command, moved to a process group of its own; the server and all it started elsewhere live on.
\<close>

theorem stopped_run_ends_its_processes:
  assumes "os_table_ok t" and "server \<in> set (ot_procs t)" and "sel = TimerFired \<or> sel = CtxDone"
    and "run_on_table server evs (ProcExited err) t = before" and "run_on_table server evs sel t = after"
    and "x \<in> set (ot_procs before)"
  shows "(x \<notin> set (ot_procs after) \<longrightarrow> ot_next t \<in> set (op_line x)) \<and>
    (x \<in> set (ot_procs after) \<and> ot_next t \<in> set (op_line x) \<longrightarrow>
       (\<exists>e \<in> set (op_line x). e \<noteq> ot_next t \<and> Leads e \<in> set evs)) \<and>
    set (ot_procs after) \<subseteq> set (ot_procs before)"
proof -
  obtain cmd t1 where s: "start_cmd server (set_sys_proc_attr_linux new_cmd) t = (cmd, t1)" by fastforce
  note g = group_ok_start [OF assms(1,2) s]
  have before: "before = fold os_happens evs t1" using assms(4) s by (simp add: run_on_table_def)
  have "ot_procs after = filter (\<lambda>x. op_pgid x \<noteq> ot_next t) (ot_procs before)"
    using assms(1,3,5) s g before by (auto simp: run_on_table_def kill_process_linux_procs os_table_ok_def)
  moreover have "group_ok (ot_next t) evs before" using group_ok_fold [of "ot_next t" "[]" t1 evs] g before by simp
  ultimately show ?thesis using assms(6) by (auto simp: group_ok_def)
qed

definition server_example :: os_proc where
  "server_example = \<lparr>op_pid = 7, op_pgid = 7, op_line = [7, 1]\<rparr>"

definition table_example :: os_table where
  "table_example = \<lparr>ot_next = 20, ot_procs = [server_example]\<rparr>"

text \<open>The command forks 21, which forks 22, which leads a group; then 21 exits. The kill leaves the server and 22.\<close>

theorem stopped_run_ends_its_processes_witness:
  "map op_pid (ot_procs (run_on_table server_example [Forks 20, Forks 21, Leads 22, Forks 7, Exits 21] TimerFired table_example)) =
     [23, 22, 7] \<and> (\<exists>e \<in> {22, 21, 20, 7, 1}. e \<noteq> 20 \<and> Leads e \<in> {Forks 20, Forks 21, Leads 22, Forks 7, Exits 21})"
proof -
  let ?evs = "[Forks 20, Forks 21, Leads 22, Forks 7, Exits 21]"
  have t: "os_table_ok table_example" "server_example \<in> set (ot_procs table_example)"
    by (simp_all add: os_table_ok_def table_example_def server_example_def)
  note defs = run_on_table_def start_cmd_def set_sys_proc_attr_linux_def new_cmd_def os_fork_def table_example_def
    server_example_def find_proc_def kill_process_linux_def sys_kill_def
  from stopped_run_ends_its_processes [OF t _ refl refl, of TimerFired "\<lparr>op_pid = 22, op_pgid = 22, op_line = [22, 21, 20, 7, 1]\<rparr>" ?evs None]
  show ?thesis by (simp add: defs)
qed

end
