(* ===== verification/Executor_Interface.thy ===== *)
theory Executor_Interface imports Exec_Service begin

text \<open>
  The interfaces of \<^verbatim>\<open>internal/language\<close> as Go has them: an executor is a table of methods, the registry
  holds such tables, and \<^verbatim>\<open>execution.Service\<close> calls whatever table it finds. \<open>Languages\<close> and \<open>Exec_Service\<close> fix
  the five languages in a datatype; here the service is open: the locale \<open>open_service\<close> proves what it promises
  for every registry whose executors keep \<open>executor_contract\<close>, and \<open>service_over_interface\<close> shows that with the
  executors of the repository the two are the same function.
\<close>

section \<open>The methods of an executor (executor.go)\<close>

record 'h language_executor =
  le_Language :: language
  le_Profile :: profile
  le_Validate :: "execution_request \<Rightarrow> goerror option"
  le_Compile :: "execution_request \<Rightarrow> string \<Rightarrow> 'h sandbox_runtime \<Rightarrow> string \<Rightarrow> 'h \<Rightarrow> (goerror + exec_result option) \<times> 'h"
  le_Execute :: "execution_request \<Rightarrow> string \<Rightarrow> 'h sandbox_runtime \<Rightarrow> string \<Rightarrow> 'h \<Rightarrow> (goerror + exec_result) \<times> 'h"

text \<open>\<^verbatim>\<open>Execute\<close> passes the options of the language to the runtime; the workspace is not needed.\<close>

definition execute_with ::
  "(execution_request \<Rightarrow> exec_options) \<Rightarrow> execution_request \<Rightarrow> string \<Rightarrow> 'h sandbox_runtime \<Rightarrow> string \<Rightarrow> 'h
   \<Rightarrow> (goerror + exec_result) \<times> 'h" where
  "execute_with opts req ws R cid h = (let (res, h1) = rt_Exec R cid (opts req) h in (Inr res, h1))"

definition new_java_executor :: "'h os_host \<Rightarrow> profile \<Rightarrow> 'h language_executor" where
  "new_java_executor H p =
     \<lparr>le_Language = LanguageJava, le_Profile = p, le_Validate = java_validate,
      le_Compile = (\<lambda>req ws R cid. java_compile H R p req ws cid), le_Execute = execute_with (java_run p)\<rparr>"

definition new_python_executor :: "'h os_host \<Rightarrow> profile \<Rightarrow> 'h language_executor" where
  "new_python_executor H p =
     \<lparr>le_Language = LanguagePython, le_Profile = p, le_Validate = python_validate,
      le_Compile = (\<lambda>req ws R cid. python_compile H R p req ws cid), le_Execute = execute_with (python_run p)\<rparr>"

definition new_go_executor :: "'h os_host \<Rightarrow> profile \<Rightarrow> 'h language_executor" where
  "new_go_executor H p =
     \<lparr>le_Language = LanguageGo, le_Profile = p, le_Validate = go_validate,
      le_Compile = (\<lambda>req ws R cid. go_compile H R p req ws cid), le_Execute = execute_with (go_run p)\<rparr>"

definition new_cpp_executor :: "'h os_host \<Rightarrow> profile \<Rightarrow> 'h language_executor" where
  "new_cpp_executor H p =
     \<lparr>le_Language = LanguageCpp, le_Profile = p, le_Validate = cpp_validate,
      le_Compile = (\<lambda>req ws R cid. cpp_compile H R p req ws cid), le_Execute = execute_with (cpp_run p)\<rparr>"

definition new_sql_executor :: "profile \<Rightarrow> 'h language_executor" where
  "new_sql_executor p =
     \<lparr>le_Language = LanguageSql, le_Profile = p, le_Validate = sql_validate,
      le_Compile = (\<lambda>req ws R cid h. (Inr None, h)), le_Execute = execute_with (sql_run p)\<rparr>"

lemmas new_executor_defs =
  new_java_executor_def new_python_executor_def new_go_executor_def new_cpp_executor_def new_sql_executor_def

fun methods_of :: "'h os_host \<Rightarrow> lang_executor \<Rightarrow> 'h language_executor" where
  "methods_of H (JavaExecutor p) = new_java_executor H p"
| "methods_of H (PythonExecutor p) = new_python_executor H p"
| "methods_of H (GoExecutor p) = new_go_executor H p"
| "methods_of H (CppExecutor p) = new_cpp_executor H p"
| "methods_of H (SqlExecutor p) = new_sql_executor p"

lemma methods_of_simps:
  "le_Language (methods_of H ex) = ex_Language ex"
  "le_Profile (methods_of H ex) = ex_Profile ex"
  "le_Validate (methods_of H ex) = ex_Validate ex"
  "le_Compile (methods_of H ex) req ws R cid h = ex_Compile H R ex req ws cid h"
  "le_Execute (methods_of H ex) req ws R cid h = ex_Execute R ex req cid h"
  by (cases ex; simp add: new_executor_defs ex_Execute_def execute_with_def fun_eq_iff)+

section \<open>The registry (registry.go)\<close>

text \<open>The \<^verbatim>\<open>Registry\<close> interface over the table of a \<^verbatim>\<open>MapRegistry\<close>.\<close>

type_synonym 'h executor_table = "language \<rightharpoonup> 'h language_executor"

record 'h registry =
  rg_Register :: "'h language_executor \<Rightarrow> 'h executor_table \<Rightarrow> 'h executor_table"
  rg_Get :: "'h executor_table \<Rightarrow> language \<Rightarrow> goerror + 'h language_executor"
  rg_SupportedLanguages :: "'h executor_table \<Rightarrow> language set"

definition map_registry :: "'h registry" where
  "map_registry =
     \<lparr>rg_Register = (\<lambda>ex t. t(le_Language ex \<mapsto> ex)),
      rg_Get = (\<lambda>t lang. case t lang of None \<Rightarrow> Inl ErrUnsupportedLanguage | Some ex \<Rightarrow> Inr ex),
      rg_SupportedLanguages = dom\<rparr>"

definition table_of :: "'h os_host \<Rightarrow> language_registry \<Rightarrow> 'h executor_table" where
  "table_of H r lang = map_option (methods_of H) (r lang)"

text \<open>The registry of the datatype is this one, with each executor replaced by its methods.\<close>

lemma registry_over_interface:
  "table_of H new_map_registry = Map.empty"
  "table_of H (register_executor ex r) = rg_Register map_registry (methods_of H ex) (table_of H r)"
  "rg_Get map_registry (table_of H r) lang = map_sum (\<lambda>e. e) (methods_of H) (get_executor r lang)"
  "rg_SupportedLanguages map_registry (table_of H r) = supported_languages r"
  by (auto simp: fun_eq_iff table_of_def new_map_registry_def register_executor_def map_registry_def get_executor_def
                 supported_languages_def methods_of_simps split: option.splits)

section \<open>The execution service over the interface (execution/service.go)\<close>

record 'h execution_service =
  es_registry :: "'h executor_table"
  es_sandbox :: "'h sandbox_runtime"

definition new_execution_service :: "'h executor_table \<Rightarrow> 'h sandbox_runtime \<Rightarrow> 'h execution_service" where
  "new_execution_service t R = \<lparr>es_registry = t, es_sandbox = R\<rparr>"

lemma new_execution_service_simps [simp]:
  "es_registry (new_execution_service t R) = t" "es_sandbox (new_execution_service t R) = R"
  by (simp_all add: new_execution_service_def)

definition service_run ::
  "'h execution_service \<Rightarrow> 'h language_executor \<Rightarrow> execution_request \<Rightarrow> string \<Rightarrow> string \<Rightarrow> 'h
   \<Rightarrow> (goerror + execution_result) \<times> 'h" where
  "service_run S ex req ws cid h =
     (case le_Execute ex req ws (es_sandbox S) cid h of
        (Inl err, h1) \<Rightarrow> (Inl (Wrapped ''internal execution error: '' err []), h1)
      | (Inr runRes, h1) \<Rightarrow> (Inr (classify runRes), h1))"

definition service_compile_and_run ::
  "'h execution_service \<Rightarrow> 'h language_executor \<Rightarrow> execution_request \<Rightarrow> string \<Rightarrow> string \<Rightarrow> 'h
   \<Rightarrow> (goerror + execution_result) \<times> 'h" where
  "service_compile_and_run S ex req ws cid h =
     (case le_Compile ex req ws (es_sandbox S) cid h of
        (Inl err, h1) \<Rightarrow> (Inl (Wrapped ''internal compile error: '' err []), h1)
      | (Inr (Some compileRes), h1) \<Rightarrow>
          (if rs_Status (classify compileRes) \<noteq> StatusSuccess
           then (Inr (compile_status (classify compileRes)), h1)
           else service_run S ex req ws cid h1)
      | (Inr None, h1) \<Rightarrow> service_run S ex req ws cid h1)"

definition service_in_workspace ::
  "'h execution_service \<Rightarrow> 'h language_executor \<Rightarrow> execution_request \<Rightarrow> string \<Rightarrow> 'h
   \<Rightarrow> (goerror + execution_result) \<times> 'h" where
  "service_in_workspace S ex req ws h =
     (case rt_StartContainer (es_sandbox S) ws (le_Profile ex) h of
        (Inl err, h1) \<Rightarrow> (Inl (Wrapped ''failed to start sandbox: '' err []), h1)
      | (Inr cid, h1) \<Rightarrow>
          (let (res, h2) = service_compile_and_run S ex req ws cid h1
           in (res, snd (rt_DestroyContainer (es_sandbox S) cid h2))))"

definition service_execute ::
  "'h os_host \<Rightarrow> 'h execution_service \<Rightarrow> execution_request \<Rightarrow> 'h \<Rightarrow> (goerror + execution_result) \<times> 'h" where
  "service_execute H S req h =
     (case rg_Get map_registry (es_registry S) (rq_Language req) of
        Inl err \<Rightarrow> (Inl (Wrapped ''failed to get language executor: '' err []), h)
      | Inr ex \<Rightarrow>
          (case le_Validate ex req of
             Some err \<Rightarrow> (Inr (result_of StatusCompilationError [] (''Validation Error: '' @ error_text err) 0), h)
           | None \<Rightarrow>
               (case oh_mkdir_temp H (''code-executor-'' @ rq_Language req @ ''-*'') h of
                  (Inl err, h1) \<Rightarrow> (Inl (Wrapped ''failed to create temp directory: '' err []), h1)
                | (Inr ws, h1) \<Rightarrow>
                    (let (res, h2) = service_in_workspace S ex req ws h1
                     in (res, oh_remove_all H ws h2)))))"

lemma service_steps_over_interface:
  "service_run (new_execution_service t R) (methods_of H ex) req ws cid h = run_in_container R ex req cid h"
  "service_compile_and_run (new_execution_service t R) (methods_of H ex) req ws cid h =
     execute_in_container H R ex req ws cid h"
  "service_in_workspace (new_execution_service t R) (methods_of H ex) req ws h = execute_in_workspace H R ex req ws h"
proof -
  show run: "service_run (new_execution_service t R) (methods_of H ex) req ws cid h = run_in_container R ex req cid h"
    for cid h
    by (simp add: service_run_def run_in_container_def methods_of_simps)
  have comp: "service_compile_and_run (new_execution_service t R) (methods_of H ex) req ws cid h =
      execute_in_container H R ex req ws cid h" for cid h
    unfolding service_compile_and_run_def execute_in_container_def run methods_of_simps new_execution_service_simps ..
  show "service_compile_and_run (new_execution_service t R) (methods_of H ex) req ws cid h =
      execute_in_container H R ex req ws cid h" by (rule comp)
  show "service_in_workspace (new_execution_service t R) (methods_of H ex) req ws h = execute_in_workspace H R ex req ws h"
    unfolding service_in_workspace_def execute_in_workspace_def comp methods_of_simps new_execution_service_simps ..
qed

text \<open>
  Dynamic dispatch changes nothing: the service that calls the methods of whatever executor it finds is, with
  the executors of a registry of the repository, the function of \<open>Exec_Service\<close> that the worker pool runs.
\<close>

theorem service_over_interface:
  "service_execute H (new_execution_service (table_of H r) R) req h = execute_request H R r req h"
proof (cases "get_executor r (rq_Language req)")
  case (Inl e)
  then show ?thesis
    by (simp add: service_execute_def execute_request_def registry_over_interface)
next
  case (Inr ex)
  then have "rg_Get map_registry (es_registry (new_execution_service (table_of H r) R)) (rq_Language req) =
      Inr (methods_of H ex)"
    by (simp add: registry_over_interface)
  with Inr show ?thesis
    unfolding service_execute_def execute_request_def
    by (simp add: methods_of_simps service_steps_over_interface cong: option.case_cong sum.case_cong)
qed

section \<open>What the service promises for any executors\<close>

locale open_service = resource_host H R live dirs
  for H :: "'h os_host" and R :: "'h sandbox_runtime"
    and live :: "'h \<Rightarrow> string multiset" and dirs :: "'h \<Rightarrow> string multiset" +
  fixes execs :: "'h executor_table"
  assumes registered: "execs lang = Some ex \<Longrightarrow> executor_contract H R live dirs (le_Validate ex)
    (\<lambda>req ws. le_Compile ex req ws R) (\<lambda>req. le_Execute ex req ws R)"
begin

abbreviation service :: "'h execution_service" where
  "service \<equiv> new_execution_service execs R"

lemma found_executor:
  "rg_Get map_registry (es_registry service) lang = Inr ex \<Longrightarrow> execs lang = Some ex"
  by (simp add: map_registry_def split: option.splits)

lemma service_run_frame:
  assumes "execs lang = Some ex" and "service_run service ex req ws cid h = (res, h1)"
  shows "live h1 = live h \<and> dirs h1 = dirs h"
  using assms(2) executor_contract.execute_frame [OF registered [OF assms(1), where ws = ws], of req cid h]
  by (auto simp: service_run_def split: prod.splits sum.splits)

lemma service_compile_frame:
  assumes "execs lang = Some ex" and "le_Compile ex req ws R cid h = (r, h1)"
  shows "live h1 = live h \<and> dirs h1 = dirs h"
  using assms(2) executor_contract.compile_frame [OF registered [OF assms(1)], of req ws cid h] by simp

lemma service_container_frame:
  assumes ex: "execs lang = Some ex" and "service_compile_and_run service ex req ws cid h = (res, h1)"
  shows "live h1 = live h \<and> dirs h1 = dirs h"
  using assms(2)
  by (auto simp: service_compile_and_run_def split: prod.splits sum.splits option.splits if_splits
           dest!: service_compile_frame [OF ex] service_run_frame [OF ex])

lemma service_workspace_frame:
  assumes ex: "execs lang = Some ex" and "service_in_workspace service ex req ws h = (res, h1)"
  shows "live h1 = live h \<and> dirs h1 = dirs h"
proof (cases "rt_StartContainer R ws (le_Profile ex) h")
  case (Pair r h0)
  show ?thesis
  proof (cases r)
    case (Inl e)
    with assms Pair show ?thesis by (auto simp: service_in_workspace_def dest: start_err)
  next
    case (Inr c)
    obtain res2 h2 where run: "service_compile_and_run service ex req ws c h0 = (res2, h2)" by fastforce
    with assms Pair Inr have "h1 = snd (rt_DestroyContainer R c h2)"
      by (auto simp: service_in_workspace_def)
    with start_destroy [of ws "le_Profile ex" h c h0 h2] Pair Inr service_container_frame [OF ex run]
    show ?thesis by simp
  qed
qed

theorem service_balanced:
  assumes "service_execute H service req h = (res, h1)"
  shows "live h1 = live h \<and> dirs h1 = dirs h"
proof (cases "rg_Get map_registry (es_registry service) (rq_Language req)")
  case (Inl e)
  with assms show ?thesis by (simp add: service_execute_def)
next
  case (Inr ex)
  note get = Inr
  show ?thesis
  proof (cases "le_Validate ex req")
    case (Some e)
    with assms get show ?thesis by (simp add: service_execute_def)
  next
    case None
    obtain d h0 where mk: "oh_mkdir_temp H (''code-executor-'' @ rq_Language req @ ''-*'') h = (d, h0)" by fastforce
    show ?thesis
    proof (cases d)
      case (Inl e)
      with assms get None mk show ?thesis by (auto simp: service_execute_def dest: mkdir_err)
    next
      case (Inr ws)
      obtain r2 h2 where run: "service_in_workspace service ex req ws h0 = (r2, h2)" by fastforce
      with assms get None mk Inr have "h1 = oh_remove_all H ws h2" by (auto simp: service_execute_def)
      with mkdir_remove [of _ h ws h0 h2] mk Inr service_workspace_frame [OF found_executor [OF get] run]
      show ?thesis by simp
    qed
  qed
qed

text \<open>A blank program reaches neither the file system nor the sandbox, whatever executor is registered.\<close>

theorem blank_source_is_not_run:
  assumes "execs (rq_Language req) = Some ex" and "all_space (rq_SourceCode req)"
  shows "\<exists>msg. service_execute H service req h = (Inr (result_of StatusCompilationError [] msg 0), h)"
  using assms executor_contract.rejects_blank [OF registered [OF assms(1)] assms(2)]
  by (auto simp: service_execute_def map_registry_def)

end

text \<open>The executors of the repository, in any registry, on the Docker runtime.\<close>

interpretation docker_service: open_service "logged_host H" "docker_runtime (logged_host H) seccompPath"
    "\<lambda>h. log_live (snd h)" "\<lambda>h. log_dirs (snd h)" "table_of (logged_host H) r"
  for H :: "'h os_host" and seccompPath and r
proof (intro open_service.intro open_service_axioms.intro)
  show "resource_host (logged_host H) (docker_runtime (logged_host H) seccompPath)
      (\<lambda>h. log_live (snd h)) (\<lambda>h. log_dirs (snd h))"
    by (rule docker_host.resource_host_axioms)
next
  fix lang ex ws
  assume "table_of (logged_host H) r lang = Some ex"
  then obtain e where "ex = methods_of (logged_host H) e" by (auto simp: table_of_def)
  then have methods: "le_Validate ex = ex_Validate e"
    "(\<lambda>req ws. le_Compile ex req ws R) = ex_Compile (logged_host H) R e" "(\<lambda>req. le_Execute ex req ws R) = ex_Execute R e"
    for R :: "('h \<times> host_event list) sandbox_runtime" and ws
    by (simp_all add: methods_of_simps fun_eq_iff)
  show "executor_contract (logged_host H) (docker_runtime (logged_host H) seccompPath)
      (\<lambda>h. log_live (snd h)) (\<lambda>h. log_dirs (snd h)) (le_Validate ex)
      (\<lambda>req ws. le_Compile ex req ws (docker_runtime (logged_host H) seccompPath))
      (\<lambda>req. le_Execute ex req ws (docker_runtime (logged_host H) seccompPath))"
    unfolding methods by (rule docker_executor.executor_contract_axioms)
qed

section \<open>Properties\<close>

text \<open>
  A source with nothing but white space costs nothing: for every language of the running program the request
  ends as a compilation error, and no directory is made and no container started for it.
\<close>

theorem blank_program_starts_nothing:
  assumes "all_space (rq_SourceCode req)" and "rq_Language req \<in> dom main_registry"
  shows "\<exists>msg. execute_request (logged_host H) (docker_runtime (logged_host H) sec) main_registry req h =
    (Inr (result_of StatusCompilationError [] msg 0), h)"
proof -
  from assms(2) obtain ex where "table_of (logged_host H) main_registry (rq_Language req) = Some ex"
    by (auto simp: table_of_def)
  from docker_service.blank_source_is_not_run [OF this assms(1)]
  show ?thesis by (simp add: service_over_interface)
qed

theorem blank_program_starts_nothing_witness:
  "\<exists>msg. execute_request (logged_host host_example) (docker_runtime (logged_host host_example) []) main_registry
     \<lparr>rq_Language = ''go'', rq_SourceCode = '' '', rq_Input = []\<rparr> (0, []) =
     (Inr (result_of StatusCompilationError [] msg 0), (0, []))"
  by (rule blank_program_starts_nothing) (simp_all add: main_registry_dom all_space_def trim_left_space.simps ascii_space_def)

end
