(* ===== verification/Store_Interface.thy ===== *)
theory Store_Interface imports Job_Service begin

text \<open>
  \<^verbatim>\<open>internal/jobs/store.go\<close>: the interface \<^verbatim>\<open>JobStore\<close> with what its comments promise. The promises are a
  locale over the jobs a store holds; \<open>PostgresJobStore\<close> keeps them all, and what follows from them is proved
  once. The in-memory store has only \<^verbatim>\<open>Create\<close> and \<^verbatim>\<open>Get\<close> with these signatures and keeps their part.
\<close>

record 's job_store =
  js_Create :: "execution_job \<Rightarrow> 's \<Rightarrow> goerror option \<times> 's"
  js_Get :: "string \<Rightarrow> 's \<Rightarrow> (goerror + execution_job) \<times> 's"
  js_Claim :: "string \<Rightarrow> string \<Rightarrow> int \<Rightarrow> 's \<Rightarrow> goerror option \<times> 's"
  js_MarkRunning :: "string \<Rightarrow> string \<Rightarrow> 's \<Rightarrow> goerror option \<times> 's"
  js_Complete :: "string \<Rightarrow> string \<Rightarrow> execution_result slice \<Rightarrow> 's \<Rightarrow> goerror option \<times> 's"
  js_FailJob :: "string \<Rightarrow> string \<Rightarrow> string \<Rightarrow> int \<Rightarrow> 's \<Rightarrow> goerror option \<times> 's"
  js_RenewLease :: "string \<Rightarrow> string \<Rightarrow> int \<Rightarrow> 's \<Rightarrow> goerror option \<times> 's"

text \<open>\<^verbatim>\<open>PostgresJobStore\<close> as a value of the interface.\<close>

definition pg_job_store :: "database job_store" where
  "pg_job_store =
     \<lparr>js_Create = pg_create, js_Get = pg_get, js_Claim = pg_claim, js_MarkRunning = pg_mark_running,
      js_Complete = pg_complete, js_FailJob = pg_fail_job, js_RenewLease = pg_renew_lease\<rparr>"

section \<open>What the interface promises\<close>

text \<open>The same work: strings may have become valid UTF-8 on their way through the store.\<close>

definition same_request :: "execution_job \<Rightarrow> execution_job \<Rightarrow> bool" where
  "same_request j k \<longleftrightarrow>
     ej_ID j = ej_ID k \<and> ej_Language j = ej_Language k \<and> ej_SourceCode j = ej_SourceCode k \<and>
     map to_valid_utf8 (elems (ej_Inputs j)) = map to_valid_utf8 (elems (ej_Inputs k))"

lemma same_request_refl [simp]: "same_request j j"
  by (simp add: same_request_def)

lemma same_request_trans: "same_request j k \<Longrightarrow> same_request k l \<Longrightarrow> same_request j l"
  by (simp add: same_request_def)

text \<open>One job of the store changes and the others stay: it was as \<open>pre\<close> says and is now as \<open>post\<close> says.\<close>

definition job_moved ::
  "('s \<Rightarrow> string \<Rightarrow> execution_job option) \<Rightarrow> string \<Rightarrow> (execution_job \<Rightarrow> bool) \<Rightarrow> (execution_job \<Rightarrow> bool) \<Rightarrow> 's \<Rightarrow> 's \<Rightarrow> bool" where
  "job_moved held i pre post s t \<longleftrightarrow>
     (\<exists>j k. held s i = Some j \<and> pre j \<and> held t = (held s)(i \<mapsto> k) \<and> post k \<and> same_request j k)"

lemma job_moved_request:
  assumes "job_moved held i pre post s t" and "held s i = Some j" and "same_request j0 j"
  shows "\<exists>k. held t i = Some k \<and> post k \<and> same_request j0 k"
  using assms by (auto simp: job_moved_def intro: same_request_trans)

definition owned_in :: "job_status set \<Rightarrow> string \<Rightarrow> execution_job \<Rightarrow> bool" where
  "owned_in sts w j \<longleftrightarrow> ej_Status j \<in> sts \<and> ej_WorkerID j = Some w"

locale job_shelf =
  fixes create :: "execution_job \<Rightarrow> 's \<Rightarrow> goerror option \<times> 's"
    and get :: "string \<Rightarrow> 's \<Rightarrow> (goerror + execution_job) \<times> 's"
    and held :: "'s \<Rightarrow> string \<Rightarrow> execution_job option" and ok :: "'s \<Rightarrow> bool"
  assumes create_refused: "ej_Status j \<noteq> JobQueued \<Longrightarrow> create j s = (Some ErrInvalidState, s)"
    and create_stores: "ok s \<Longrightarrow> create j s = (None, t) \<Longrightarrow>
      ok t \<and> (\<exists>k. held t = (held s)(ej_ID j \<mapsto> k) \<and> same_request j k \<and> ej_Status k = JobQueued)"
    and get_snapshot: "get i s = (Inr j, t) \<Longrightarrow> ok s \<Longrightarrow>
      \<exists>k. held s i = Some k \<and> same_request k j \<and> ej_Status j = ej_Status k \<and> elems (ej_Results j) = elems (ej_Results k)"
    and get_keeps: "get i s = (r, t) \<Longrightarrow> held t = held s \<and> (ok s \<longrightarrow> ok t)"
begin

text \<open>A stored job is found again, and asking does not change what is found.\<close>

lemma create_get:
  assumes "ok s" and "create j s = (None, t)" and "get (ej_ID j) t = (Inr k, u)"
  shows "same_request j k \<and> ej_Status k = JobQueued"
proof -
  from create_stores [OF assms(1,2)] obtain k1 where
    k1: "ok t" "held t (ej_ID j) = Some k1" "same_request j k1" "ej_Status k1 = JobQueued" by auto
  with get_snapshot [OF assms(3)] show ?thesis by (auto intro: same_request_trans)
qed

lemma get_again:
  assumes "ok s" and "get i s = (r, t)" and "get i t = (Inr k, u)"
  shows "\<exists>j. held s i = Some j \<and> same_request j k \<and> ej_Status k = ej_Status j"
  using get_keeps [OF assms(2)] get_snapshot [OF assms(3)] assms(1) by auto

lemma missing_not_found: "ok s \<Longrightarrow> held s i = None \<Longrightarrow> \<exists>e. fst (get i s) = Inl e"
  using get_snapshot [of i s] by (cases "get i s"; cases "fst (get i s)") auto

end

locale job_store_contract = job_shelf "js_Create S" "js_Get S" held ok
  for S :: "'s job_store" and held :: "'s \<Rightarrow> string \<Rightarrow> execution_job option" and ok :: "'s \<Rightarrow> bool" +
  assumes claims: "ok s \<Longrightarrow> js_Claim S i w l s = (None, t) \<Longrightarrow>
      ok t \<and> job_moved held i (\<lambda>j. ej_Status j = JobQueued) (owned_in {JobClaimed} w) s t"
    and runs: "ok s \<Longrightarrow> js_MarkRunning S i w s = (None, t) \<Longrightarrow>
      ok t \<and> job_moved held i (owned_in {JobClaimed} w) (owned_in {JobRunning} w) s t"
    and completes: "ok s \<Longrightarrow> js_Complete S i w rs s = (None, t) \<Longrightarrow>
      ok t \<and> job_moved held i (owned_in {JobRunning} w)
        (\<lambda>k. ej_Status k = JobCompleted \<and> elems (ej_Results k) = map enc_result (elems rs)) s t"
    and fails: "ok s \<Longrightarrow> js_FailJob S i w m b s = (None, t) \<Longrightarrow>
      ok t \<and> job_moved held i (owned_in {JobClaimed, JobRunning} w)
        (\<lambda>k. ej_Status k \<in> {JobQueued, JobDeadLettered} \<and> ej_WorkerID k = None) s t"
    and renews: "ok s \<Longrightarrow> js_RenewLease S i w l s = (None, t) \<Longrightarrow>
      ok t \<and> job_moved held i (owned_in {JobClaimed, JobRunning} w) (owned_in {JobClaimed, JobRunning} w) s t"
begin

text \<open>Only the owner's calls succeed.\<close>

lemma not_owner:
  assumes "ok s" and "held s i = Some j" and "ej_WorkerID j \<noteq> Some w"
  shows "fst (js_MarkRunning S i w s) \<noteq> None" "fst (js_Complete S i w rs s) \<noteq> None"
    "fst (js_FailJob S i w m b s) \<noteq> None" "fst (js_RenewLease S i w l s) \<noteq> None"
  using assms runs [OF assms(1), of i w "snd (js_MarkRunning S i w s)"]
    completes [OF assms(1), of i w rs "snd (js_Complete S i w rs s)"]
    fails [OF assms(1), of i w m b "snd (js_FailJob S i w m b s)"]
    renews [OF assms(1), of i w l "snd (js_RenewLease S i w l s)"]
  by (auto simp: job_moved_def owned_in_def prod_eq_iff)

text \<open>Of two claims the second fails, and a worker that gave a job up has no say in it.\<close>

lemma second_claim:
  assumes "ok s" and "js_Claim S i w l s = (None, t)"
  shows "fst (js_Claim S i v l1 t) \<noteq> None"
proof
  assume "fst (js_Claim S i v l1 t) = None"
  then have "js_Claim S i v l1 t = (None, snd (js_Claim S i v l1 t))" by (simp add: prod_eq_iff)
  from claims [OF _ this] claims [OF assms] show False by (auto simp: job_moved_def owned_in_def)
qed

lemma given_up:
  assumes "ok s" and "js_FailJob S i w m b s = (None, t)"
  shows "fst (js_Complete S i w rs t) \<noteq> None"
proof -
  from fails [OF assms] obtain k where "ok t" "held t i = Some k" "ej_WorkerID k = None"
    by (auto simp: job_moved_def)
  then show ?thesis by (intro not_owner(2)) auto
qed

text \<open>A job that goes all the way comes back with its own work and the results of its owner.\<close>

lemma run_through:
  assumes s: "ok s" and c: "js_Create S j s = (None, s1)" and k: "js_Claim S (ej_ID j) w l s1 = (None, s2)"
    and m: "js_MarkRunning S (ej_ID j) w s2 = (None, s3)" and f: "js_Complete S (ej_ID j) w rs s3 = (None, s4)"
    and g: "js_Get S (ej_ID j) s4 = (Inr job, s5)"
  shows "same_request j job \<and> ej_Status job = JobCompleted \<and> elems (ej_Results job) = map enc_result (elems rs)"
proof -
  from create_stores [OF s c] obtain j1 where j1: "ok s1" "held s1 (ej_ID j) = Some j1" "same_request j j1" by auto
  note c1 = claims [OF j1(1) k]
  from job_moved_request [OF c1 [THEN conjunct2] j1(2,3)] obtain j2 where
    j2: "held s2 (ej_ID j) = Some j2" "same_request j j2" by blast
  note c2 = runs [OF c1 [THEN conjunct1] m]
  from job_moved_request [OF c2 [THEN conjunct2] j2] obtain j3 where
    j3: "held s3 (ej_ID j) = Some j3" "same_request j j3" by blast
  note c3 = completes [OF c2 [THEN conjunct1] f]
  from job_moved_request [OF c3 [THEN conjunct2] j3] obtain j4 where
    "held s4 (ej_ID j) = Some j4" "same_request j j4" "ej_Status j4 = JobCompleted"
      "elems (ej_Results j4) = map enc_result (elems rs)" by blast
  with get_snapshot [OF g c3 [THEN conjunct1]] show ?thesis by (auto intro: same_request_trans)
qed

end

section \<open>PostgreSQL keeps the promises\<close>

definition pg_held :: "database \<Rightarrow> string \<Rightarrow> execution_job option" where
  "pg_held d i = map_option job_of_row (find_row er_id i (db_executions d))"

text \<open>The work of a row stays under every update.\<close>

lemma set_request [simp]:
  "same_request (job_of_row r) (job_of_row (claim_set w l now r))"
  "same_request (job_of_row r) (job_of_row (running_set now r))"
  "same_request (job_of_row r) (job_of_row (complete_set rs now r))"
  "same_request (job_of_row r) (job_of_row (fail_set m b now r))"
  "same_request (job_of_row r) (job_of_row (renew_set l now r))"
  by (simp_all add: same_request_def job_of_row_def set_defs)

lemma row_updated_moved:
  assumes "row_updated i p f d d1" and "\<And>now r. same_request (job_of_row r) (job_of_row (f now r))"
    and "\<And>now r. p now r \<Longrightarrow> pre (job_of_row r) \<and> post (job_of_row (f now r))"
  shows "job_moved pg_held i pre post d d1"
proof -
  from assms(1) obtain r where r: "find_row er_id i (db_executions d) = Some r" "p (db_now d1) r"
      "find_row er_id i (db_executions d1) = Some (f (db_now d1) r)"
      "\<forall>j. j \<noteq> i \<longrightarrow> find_row er_id j (db_executions d1) = find_row er_id j (db_executions d)"
    unfolding row_updated_def by blast
  then have "pg_held d1 = (pg_held d)(i \<mapsto> job_of_row (f (db_now d1) r))" by (auto simp: pg_held_def)
  with r assms(2,3) show ?thesis unfolding job_moved_def by (metis option.simps(9) pg_held_def)
qed

lemma pg_create_held:
  assumes "table_ok d" and "pg_create j d = (None, d1)"
  shows "\<exists>k. pg_held d1 = (pg_held d)(ej_ID j \<mapsto> k) \<and> same_request j k \<and> ej_Status k = JobQueued"
proof -
  from pg_create_Inr [OF assms(2)] obtain d0 n where q: "ej_Status j = JobQueued" "later d d0"
    "insert_execution j d0 = Inr (n, d1)" by blast
  define r where "r = last (db_executions d1)"
  have new: "find_row er_id (ej_ID j) (db_executions d) = None" "db_executions d1 = db_executions d @ [r]"
      "er_id r = ej_ID j" "same_request j (job_of_row r)" "er_job_status r = JobQueued"
    using q later_tables [OF q(2)]
    by (auto simp: insert_execution_def r_def job_of_row_def same_request_def unmarshal_marshal elems_def
        split: if_splits option.split)
  then have "pg_held d1 = (pg_held d)(ej_ID j \<mapsto> job_of_row r)"
    by (auto simp: pg_held_def find_row_append fun_eq_iff split: option.split)
  with new show ?thesis by (auto simp: job_of_row_def)
qed

interpretation pg_store: job_store_contract pg_job_store pg_held table_ok
proof
  fix d d1 :: database and i w m :: string and l b :: int and rs :: "execution_result slice"
    and j k :: execution_job and r :: "goerror + execution_job"
  note job_sel = job_of_row_def owned_in_def where_defs set_defs active_status_def
  show "ej_Status j \<noteq> JobQueued \<Longrightarrow> js_Create pg_job_store j d = (Some ErrInvalidState, d)"
    by (simp add: pg_job_store_def pg_create_def)
  show "js_Create pg_job_store j d = (None, d1) \<Longrightarrow> table_ok d1 \<and>
      (\<exists>k. pg_held d1 = (pg_held d)(ej_ID j \<mapsto> k) \<and> same_request j k \<and> ej_Status k = JobQueued)" if "table_ok d"
    using pg_create_held [OF that] pg_create_ok [OF that, of j] by (auto simp: pg_job_store_def)
  show "js_Get pg_job_store i d = (Inr j, d1) \<Longrightarrow> \<exists>k. pg_held d i = Some k \<and> same_request k j \<and>
      ej_Status j = ej_Status k \<and> elems (ej_Results j) = elems (ej_Results k)"
    using pg_get_Inr [of i d j d1] by (auto simp: pg_job_store_def pg_held_def)
  show "js_Get pg_job_store i d = (r, d1) \<Longrightarrow> pg_held d1 = pg_held d \<and> (table_ok d \<longrightarrow> table_ok d1)"
    using later_tables [OF pg_get_later [of d i]] pg_get_ok [of d i] by (auto simp: pg_job_store_def pg_held_def)
  show "js_Claim pg_job_store i w l d = (None, d1) \<Longrightarrow> table_ok d1 \<and>
      job_moved pg_held i (\<lambda>j. ej_Status j = JobQueued) (owned_in {JobClaimed} w) d d1" if "table_ok d"
    using that pg_claim_ok [OF that, of i w l]
    by (auto simp: pg_job_store_def intro!: row_updated_moved [OF pg_claim_updated [OF that]]) (auto simp: job_sel)show "js_MarkRunning pg_job_store i w d = (None, d1) \<Longrightarrow> table_ok d1 \<and>
      job_moved pg_held i (owned_in {JobClaimed} w) (owned_in {JobRunning} w) d d1" if "table_ok d"
    using that pg_mark_running_ok [OF that, of i w]
    by (auto simp: pg_job_store_def intro!: row_updated_moved [OF pg_mark_running_updated [OF that]]) (auto simp: job_sel)
  show "js_Complete pg_job_store i w rs d = (None, d1) \<Longrightarrow> table_ok d1 \<and>
      job_moved pg_held i (owned_in {JobRunning} w)
        (\<lambda>k. ej_Status k = JobCompleted \<and> elems (ej_Results k) = map enc_result (elems rs)) d d1" if "table_ok d"
    using that pg_complete_ok [OF that, of i w rs]
    by (auto simp: pg_job_store_def intro!: row_updated_moved [OF pg_complete_updated [OF that]]) (auto simp: job_sel unmarshal_marshal elems_def split: option.split)
  show "js_FailJob pg_job_store i w m b d = (None, d1) \<Longrightarrow> table_ok d1 \<and>
      job_moved pg_held i (owned_in {JobClaimed, JobRunning} w)
        (\<lambda>k. ej_Status k \<in> {JobQueued, JobDeadLettered} \<and> ej_WorkerID k = None) d d1" if "table_ok d"
    using that pg_fail_job_ok [OF that, of i w m b]
    by (auto simp: pg_job_store_def intro!: row_updated_moved [OF pg_fail_job_updated [OF that]]) (auto simp: job_sel split: if_splits)
  show "js_RenewLease pg_job_store i w l d = (None, d1) \<Longrightarrow> table_ok d1 \<and>
      job_moved pg_held i (owned_in {JobClaimed, JobRunning} w) (owned_in {JobClaimed, JobRunning} w) d d1" if "table_ok d"
    using that pg_renew_lease_ok [OF that, of i w l]
    by (auto simp: pg_job_store_def intro!: row_updated_moved [OF pg_renew_lease_updated [OF that]]) (auto simp: job_sel)
qed

section \<open>The in-memory store\<close>

interpretation memory: job_shelf mem_create "\<lambda>i s. (mem_get i s, s)" "\<lambda>s. s" "\<lambda>s. True"
  by unfold_locales (auto simp: mem_create_def mem_get_def same_request_def split: if_splits option.splits)

text \<open>Its \<^verbatim>\<open>Complete\<close> does not ask who owns the job, so it is no \<^verbatim>\<open>Complete\<close> of the interface.\<close>

lemma memory_complete_any_worker:
  "fst (mem_complete now i w rs s) = fst (mem_complete now i v rs s)"
  by (auto simp: mem_complete_def split: option.split)

section \<open>Property\<close>

text \<open>
  C28: the interface of the job store gives back what was put into it: a job that is created, claimed, marked
  running and completed by a worker through PostgreSQL, every call answering without an error, is returned by
  \<^verbatim>\<open>Get\<close> as completed, with the program and the inputs of \<^verbatim>\<open>Create\<close> and the results of \<^verbatim>\<open>Complete\<close> (their
  strings made valid UTF-8); meanwhile the other jobs, the time and the failures of other calls do not matter.
\<close>

theorem job_runs_through_store:
  assumes "table_ok d" and "js_Create pg_job_store j d = (None, d1)"
    and "js_Claim pg_job_store (ej_ID j) w l d1 = (None, d2)" and "js_MarkRunning pg_job_store (ej_ID j) w d2 = (None, d3)"
    and "js_Complete pg_job_store (ej_ID j) w rs d3 = (None, d4)" and "js_Get pg_job_store (ej_ID j) d4 = (Inr job, d5)"
  shows "ej_ID job = ej_ID j \<and> ej_Language job = ej_Language j \<and> ej_SourceCode job = ej_SourceCode j \<and>
    map to_valid_utf8 (elems (ej_Inputs job)) = map to_valid_utf8 (elems (ej_Inputs j)) \<and>
    ej_Status job = JobCompleted \<and> elems (ej_Results job) = map enc_result (elems rs)"
  using pg_store.run_through [OF assms] by (simp add: same_request_def)

theorem job_runs_through_store_witness:
  "\<exists>d1 d2 d3 d4 d5 job. pg_create job_example (database_example []) = (None, d1) \<and> pg_claim ''exec_1'' ''w'' 60 d1 = (None, d2) \<and>
     pg_mark_running ''exec_1'' ''w'' d2 = (None, d3) \<and>
     pg_complete ''exec_1'' ''w'' (Some [result_of StatusSuccess ''ok'' [] 0]) d3 = (None, d4) \<and>
     pg_get ''exec_1'' d4 = (Inr job, d5) \<and> ej_SourceCode job = ''print(1)'' \<and>
     elems (ej_Results job) = [enc_result (result_of StatusSuccess ''ok'' [] 0)]"
proof -
  let ?rs = "Some [result_of StatusSuccess ''ok'' [] 0]"
  have empty: "table_ok (database_example [])" by (simp add: table_ok_def database_example_def)
  obtain d1 where c: "pg_create job_example (database_example []) = (None, d1)" "d1 = snd (pg_create job_example (database_example []))"
    by (simp add: pg_create_def run_stmt_def apply_stmt_def insert_execution_def database_example_def
        job_example_def int4_max_def text_ok_def no_nul_def valid_utf8.simps rune_width.simps byte_in_def)
  then have d1: "d1 = database_example [row_example JobQueued None 0 5]"
    by (simp add: pg_create_def run_stmt_def apply_stmt_def insert_execution_def example_defs
        job_example_def int4_max_def text_ok_def no_nul_def valid_utf8.simps rune_width.simps byte_in_def)
  obtain d2 d3 d4 d5 job where r: "pg_claim ''exec_1'' ''w'' 60 d1 = (None, d2)" "pg_mark_running ''exec_1'' ''w'' d2 = (None, d3)"
     "pg_complete ''exec_1'' ''w'' ?rs d3 = (None, d4)" "pg_get ''exec_1'' d4 = (Inr job, d5)"
    unfolding d1
    by (simp add: example_defs method_defs store_run_defs claim_stmt_def complete_stmt_def where_defs set_defs
        retry_due_def int4_max_def result_storable_def no_nul_def pg_get_def query_def)
  have i: "ej_ID job_example = ''exec_1''" "ej_SourceCode job_example = ''print(1)''" by (simp_all add: job_example_def)
  from job_runs_through_store [OF empty, of job_example d1 "''w''" 60 d2 d3 ?rs d4 job d5] c(1) r have
    "ej_SourceCode job = ''print(1)'' \<and> elems (ej_Results job) = [enc_result (result_of StatusSuccess ''ok'' [] 0)]"
    by (simp add: pg_job_store_def i)
  with c(1) r show ?thesis by blast
qed

end
