(* ===== verification/Queue_Interface.thy ===== *)
theory Queue_Interface imports Msg_Queue begin

text \<open>
  \<^verbatim>\<open>internal/queue/queue.go\<close>: the interface \<^verbatim>\<open>JobQueue\<close> as a record of functions, what its users rely on as a
  locale over the jobs that were enqueued and the messages that were acknowledged, and \<open>RedisQueue\<close> as its
  provider, on a client that keeps the log of its requests.
\<close>

record 's job_queue =
  jq_Enqueue :: "string \<Rightarrow> string \<Rightarrow> 's \<Rightarrow> goerror option \<times> 's"
  jq_Consume :: "string \<Rightarrow> nat \<Rightarrow> 's \<Rightarrow> ((goerror + queue_message) \<times> 's) option" \<comment> \<open>with fuel\<close>
  jq_Ack :: "string \<Rightarrow> 's \<Rightarrow> goerror option \<times> 's"
  jq_PublishJobUpdate :: "string \<Rightarrow> string \<Rightarrow> 's \<Rightarrow> goerror option \<times> 's"
  jq_Close :: "'s \<Rightarrow> 's"

text \<open>A queue value is the queue with the state of its client; calls one after the other, so nobody closes in between.\<close>

definition redis_job_queue :: "'q redis_client \<Rightarrow> (redis_queue \<times> 'q) job_queue" where
  "redis_job_queue C =
     \<lparr>jq_Enqueue = (\<lambda>i t (q, s). case enqueue C q i t s of (e, s1) \<Rightarrow> (e, (q, s1))),
      jq_Consume = (\<lambda>name fuel (q, s).
        map_option (\<lambda>(r, s1). (r, (q, s1))) (consume C q (\<lambda>k. kq_closed q) name fuel 0 s)),
      jq_Ack = (\<lambda>m (q, s). case ack C q m s of (e, s1) \<Rightarrow> (e, (q, s1))),
      jq_PublishJobUpdate = (\<lambda>j p (q, s). case publish_job_update C j p s of (e, s1) \<Rightarrow> (e, (q, s1))),
      jq_Close = (\<lambda>(q, s). (close_queue q, s))\<rparr>"

text \<open>Calls of the interface, and their run.\<close>

datatype queue_call =
    CallEnqueue string string
  | CallConsume string nat
  | CallAck string
  | CallPublish string string
  | CallClose

fun queue_answer :: "'s job_queue \<Rightarrow> queue_call \<Rightarrow> 's \<Rightarrow> goerror option \<times> 's" where
  "queue_answer Q (CallEnqueue i t) s = jq_Enqueue Q i t s"
| "queue_answer Q (CallConsume name fuel) s =
     (case jq_Consume Q name fuel s of
        None \<Rightarrow> (None, s)
      | Some (Inl e, s1) \<Rightarrow> (Some e, s1)
      | Some (Inr msg, s1) \<Rightarrow> (None, s1))"
| "queue_answer Q (CallAck m) s = jq_Ack Q m s"
| "queue_answer Q (CallPublish j p) s = jq_PublishJobUpdate Q j p s"
| "queue_answer Q CallClose s = (None, jq_Close Q s)"

fun queue_run :: "'s job_queue \<Rightarrow> queue_call list \<Rightarrow> 's \<Rightarrow> 's" where
  "queue_run Q [] s = s"
| "queue_run Q (c # cs) s = queue_run Q cs (snd (queue_answer Q c s))"

text \<open>The jobs that the calls added: those whose \<^verbatim>\<open>Enqueue\<close> answered without an error.\<close>

fun accepted_jobs :: "'s job_queue \<Rightarrow> queue_call list \<Rightarrow> 's \<Rightarrow> (string \<times> string) list" where
  "accepted_jobs Q [] s = []"
| "accepted_jobs Q (c # cs) s =
     (case c of CallEnqueue i t \<Rightarrow> if fst (queue_answer Q c s) = None then [(i, t)] else [] | _ \<Rightarrow> []) @
     accepted_jobs Q cs (snd (queue_answer Q c s))"

locale job_queue_contract =
  fixes Q :: "'s job_queue" and entries :: "'s \<Rightarrow> (string \<times> string) list" and acks :: "'s \<Rightarrow> string list"
    and shut :: "'s \<Rightarrow> bool"
  assumes enqueues: "jq_Enqueue Q i t s = (e, s1) \<Longrightarrow>
      entries s1 = entries s @ (if e = None then [(i, t)] else []) \<and> acks s1 = acks s \<and> shut s1 = shut s"
    and enqueue_shut: "shut s \<Longrightarrow> jq_Enqueue Q i t s = (Some ErrQueueClosed, s)"
    and consumes: "jq_Consume Q name fuel s = Some (r, s1) \<Longrightarrow> entries s1 = entries s \<and> acks s1 = acks s \<and> shut s1 = shut s"
    and consume_shut: "shut s \<Longrightarrow> jq_Consume Q name (Suc fuel) s = Some (Inl ErrQueueClosed, s)"
    and acknowledges: "jq_Ack Q m s = (e, s1) \<Longrightarrow>
      entries s1 = entries s \<and> acks s1 = acks s @ (if e = None then [m] else []) \<and> shut s1 = shut s"
    and publishes: "jq_PublishJobUpdate Q j p s = (e, s1) \<Longrightarrow> entries s1 = entries s \<and> acks s1 = acks s \<and> shut s1 = shut s"
    and closes: "shut (jq_Close Q s) \<and> entries (jq_Close Q s) = entries s \<and> acks (jq_Close Q s) = acks s"
begin

lemma answer_effect:
  assumes "queue_answer Q c s = (e, s1)"
  shows "(shut s \<longrightarrow> shut s1) \<and>
    entries s1 = entries s @ (case c of CallEnqueue i t \<Rightarrow> if e = None then [(i, t)] else [] | _ \<Rightarrow> [])"
  using assms enqueues consumes acknowledges publishes closes
  by (cases c) (auto split: option.splits sum.splits)

text \<open>The entries are those of the calls that were answered without an error, in their order.\<close>

lemma run_entries: "entries (queue_run Q cs s) = entries s @ accepted_jobs Q cs s"
proof (induction cs arbitrary: s)
  case (Cons c cs)
  then show ?case using answer_effect [of c s "fst (queue_answer Q c s)" "snd (queue_answer Q c s)"]
    by (cases c) auto
qed simp

lemma stays_shut: "shut s \<Longrightarrow> shut (queue_run Q cs s)"
proof (induction cs arbitrary: s)
  case (Cons c cs)
  then show ?case using answer_effect [of c s "fst (queue_answer Q c s)" "snd (queue_answer Q c s)"] by simp
qed simp

lemma shut_accepts_nothing: "shut s \<Longrightarrow> accepted_jobs Q cs s = []"
proof (induction cs arbitrary: s)
  case (Cons c cs)
  from Cons.prems have "shut (snd (queue_answer Q c s))"
    using answer_effect [of c s "fst (queue_answer Q c s)" "snd (queue_answer Q c s)"] by simp
  from Cons.IH [OF this] show ?case by (cases c) (simp_all add: enqueue_shut [OF Cons.prems])
qed simp

lemma closed_for_good:
  shows "entries (queue_run Q cs (jq_Close Q s)) = entries s"
    and "jq_Enqueue Q i t (queue_run Q cs (jq_Close Q s)) = (Some ErrQueueClosed, queue_run Q cs (jq_Close Q s))"
    and "jq_Consume Q name (Suc fuel) (queue_run Q cs (jq_Close Q s)) =
      Some (Inl ErrQueueClosed, queue_run Q cs (jq_Close Q s))"
  using closes [of s] stays_shut [of "jq_Close Q s" cs] enqueue_shut consume_shut
  by (simp_all add: run_entries shut_accepts_nothing)

end

section \<open>The Redis queue\<close>

text \<open>The entries of the log that name a job.\<close>

definition log_entries :: "queue_event list \<Rightarrow> (string \<times> string) list" where
  "log_entries l = map (\<lambda>vs. (snd (vs ! 0), snd (vs ! 1))) (added l)"

lemma read_logged:
  "rx_XReadGroup (logged_redis C) g c st (s, l) = (r, s1, l1) \<Longrightarrow> added l1 = added l \<and> acked l1 = acked l"
  by (auto simp: logged_redis_def Let_def split: prod.splits)

lemma consume_logged:
  "consume (logged_redis C) q closed name fuel k (s, l) = Some (r, s1, l1) \<Longrightarrow> added l1 = added l \<and> acked l1 = acked l"
proof (induction fuel arbitrary: k s l)
  case (Suc fuel)
  obtain a s2 l2 where a: "rx_XReadGroup (logged_redis C) (kq_group q) name (kq_stream q) (s, l) = (a, s2, l2)"
    by (metis surj_pair)
  from Suc.prems a Suc.IH [of "Suc k" s2 l2] read_logged [OF a] show ?case
    by (auto split: if_splits sum.splits option.splits)
qed simp

interpretation redis_queue_contract: job_queue_contract "redis_job_queue (logged_redis C)"
  "\<lambda>(q, s, l). log_entries l" "\<lambda>(q, s, l). acked l" "\<lambda>(q, s, l). kq_closed q" for C :: "'q redis_client"
proof
  fix i t m j p name :: string and fuel :: nat and e :: "goerror option" and r :: "goerror + queue_message"
    and s s1 :: "redis_queue \<times> 'q \<times> queue_event list"
  let ?Q = "redis_job_queue (logged_redis C)"
  obtain q a l q1 a1 l1 where s: "s = (q, a, l)" "s1 = (q1, a1, l1)" by (metis surj_pair)
  note simps = redis_job_queue_def log_entries_def s
  show "jq_Enqueue ?Q i t s = (e, s1) \<Longrightarrow>
      (case s1 of (q, s, l) \<Rightarrow> log_entries l) = (case s of (q, s, l) \<Rightarrow> log_entries l) @ (if e = None then [(i, t)] else []) \<and>
      (case s1 of (q, s, l) \<Rightarrow> acked l) = (case s of (q, s, l) \<Rightarrow> acked l) \<and>
      (case s1 of (q, s, l) \<Rightarrow> kq_closed q) = (case s of (q, s, l) \<Rightarrow> kq_closed q)"
    by (auto simp: simps job_entry_def split: prod.splits dest!: enqueue_logged)
  show "(case s of (q, s, l) \<Rightarrow> kq_closed q) \<Longrightarrow> jq_Enqueue ?Q i t s = (Some ErrQueueClosed, s)"
    by (simp add: simps enqueue_def)
  show "jq_Consume ?Q name fuel s = Some (r, s1) \<Longrightarrow>
      (case s1 of (q, s, l) \<Rightarrow> log_entries l) = (case s of (q, s, l) \<Rightarrow> log_entries l) \<and>
      (case s1 of (q, s, l) \<Rightarrow> acked l) = (case s of (q, s, l) \<Rightarrow> acked l) \<and>
      (case s1 of (q, s, l) \<Rightarrow> kq_closed q) = (case s of (q, s, l) \<Rightarrow> kq_closed q)"
    by (auto simp: simps dest!: consume_logged)
  show "(case s of (q, s, l) \<Rightarrow> kq_closed q) \<Longrightarrow> jq_Consume ?Q name (Suc fuel) s = Some (Inl ErrQueueClosed, s)"
    by (simp add: simps)
  show "jq_Ack ?Q m s = (e, s1) \<Longrightarrow>
      (case s1 of (q, s, l) \<Rightarrow> log_entries l) = (case s of (q, s, l) \<Rightarrow> log_entries l) \<and>
      (case s1 of (q, s, l) \<Rightarrow> acked l) = (case s of (q, s, l) \<Rightarrow> acked l) @ (if e = None then [m] else []) \<and>
      (case s1 of (q, s, l) \<Rightarrow> kq_closed q) = (case s of (q, s, l) \<Rightarrow> kq_closed q)"
    by (auto simp: simps split: prod.splits dest!: ack_logged)
  show "jq_PublishJobUpdate ?Q j p s = (e, s1) \<Longrightarrow>
      (case s1 of (q, s, l) \<Rightarrow> log_entries l) = (case s of (q, s, l) \<Rightarrow> log_entries l) \<and>
      (case s1 of (q, s, l) \<Rightarrow> acked l) = (case s of (q, s, l) \<Rightarrow> acked l) \<and>
      (case s1 of (q, s, l) \<Rightarrow> kq_closed q) = (case s of (q, s, l) \<Rightarrow> kq_closed q)"
    by (auto simp: simps split: prod.splits dest!: publish_logged)
  show "(case jq_Close ?Q s of (q, s, l) \<Rightarrow> kq_closed q) \<and>
      (case jq_Close ?Q s of (q, s, l) \<Rightarrow> log_entries l) = (case s of (q, s, l) \<Rightarrow> log_entries l) \<and>
      (case jq_Close ?Q s of (q, s, l) \<Rightarrow> acked l) = (case s of (q, s, l) \<Rightarrow> acked l)"
    by (simp add: simps close_queue_def)
qed

section \<open>Property\<close>


end
