(* ===== verification/Catalog.thy ===== *)
theory Catalog imports System begin

text \<open>
  What the program does with problems, test cases and submissions, seen from outside: problems and test
  cases are only added, a submission keeps its program, and a completed one has a verdict the judge gave.
  The operations on jobs and workers leave all of it alone. The relation \<open>moves\<close> joins this with the
  relation of \<open>System\<close> on the jobs: it is the change of the database every access of the program makes.
\<close>

section \<open>Operations that leave the catalog alone\<close>

definition catalog :: "database \<Rightarrow> f64 problem list \<times> test_case list \<times> submission list \<times> (string \<Rightarrow> string option)" where
  "catalog d = (db_problems d, db_test_cases d, db_submissions d, db_uuid_in d)"

lemma later_catalog: "later d d1 \<Longrightarrow> catalog d1 = catalog d"
  by (simp add: catalog_def later_tables later_uuid_in)

lemma run_stmt_catalog:
  assumes "\<And>d x d1. f d = Inr (x, d1) \<Longrightarrow> catalog d1 = catalog d"
  shows "catalog (snd (run_stmt f d)) = catalog d"
  by (rule run_stmt_preserves [where I = "\<lambda>d1. catalog d1 = catalog d"]) (auto simp: later_catalog dest: assms)

lemma stmts_catalog:
  "update_executions p f d = Inr (n, d1) \<Longrightarrow> catalog d1 = catalog d"
  "insert_execution job d = Inr (m, d1) \<Longrightarrow> catalog d1 = catalog d"
  "update_workers p1 f1 d = Inr (n, d1) \<Longrightarrow> catalog d1 = catalog d"
  by (auto simp: update_executions_def insert_execution_def update_workers_def catalog_def split: if_splits)

lemma guarded_stmts_catalog:
  "claim_stmt i w l d = Inr (n, d1) \<Longrightarrow> catalog d1 = catalog d"
  "complete_stmt i w rs d = Inr (n, d1) \<Longrightarrow> catalog d1 = catalog d"
  "fail_stmt i w m b d = Inr (n, d1) \<Longrightarrow> catalog d1 = catalog d"
  "upsert_worker w st d = Inr (n, d1) \<Longrightarrow> catalog d1 = catalog d"
  by (auto simp: claim_stmt_def complete_stmt_def fail_stmt_def upsert_worker_def dest: stmts_catalog split: if_splits)
    (auto simp: catalog_def)

lemma snd_pg_create: "snd (pg_create job d) = d \<or> snd (pg_create job d) = snd (run_stmt (insert_execution job) d)"
  by (auto simp: pg_create_def split: prod.splits sum.splits)

lemma snd_heartbeat_update_status: "snd (heartbeat_update_status w st d) = snd (run_stmt (upsert_worker w st) d)"
  by (auto simp: heartbeat_update_status_def split: prod.splits sum.splits)

lemma job_ops_catalog [simp]:
  "catalog (snd (pg_create job d)) = catalog d" "catalog (snd (pg_claim i w l d)) = catalog d"
  "catalog (snd (pg_mark_running i w d)) = catalog d" "catalog (snd (pg_complete i w rs d)) = catalog d"
  "catalog (snd (pg_fail_job i w m b d)) = catalog d" "catalog (snd (pg_renew_lease i w l d)) = catalog d"
  "catalog (recover_abandoned_jobs d) = catalog d" "catalog (mark_dispatched i d) = catalog d"
  "catalog (mark_stale_workers t d) = catalog d" "catalog (heartbeat_tick w d) = catalog d"
  "catalog (snd (heartbeat_update_status w st d)) = catalog d"
proof -
  have "catalog (snd (run_stmt (insert_execution job) d)) = catalog d"
    by (rule run_stmt_catalog) (rule stmts_catalog)
  then show "catalog (snd (pg_create job d)) = catalog d" using snd_pg_create [of job d] by metis
  show "catalog (snd (heartbeat_update_status w st d)) = catalog d"
    unfolding snd_heartbeat_update_status by (rule run_stmt_catalog) (rule guarded_stmts_catalog)
  show "catalog (snd (pg_claim i w l d)) = catalog d" "catalog (snd (pg_complete i w rs d)) = catalog d"
    "catalog (snd (pg_fail_job i w m b d)) = catalog d"
    unfolding method_defs snd_affected_or by (rule run_stmt_catalog, erule guarded_stmts_catalog)+
  show "catalog (snd (pg_mark_running i w d)) = catalog d" "catalog (snd (pg_renew_lease i w l d)) = catalog d"
    "catalog (recover_abandoned_jobs d) = catalog d" "catalog (mark_dispatched i d) = catalog d"
    "catalog (mark_stale_workers t d) = catalog d" "catalog (heartbeat_tick w d) = catalog d"
    unfolding method_defs snd_affected_or recover_abandoned_jobs_def mark_dispatched_def mark_stale_workers_def
      heartbeat_tick_def
    by (rule run_stmt_catalog, erule stmts_catalog)+
qed

section \<open>Submissions and their verdicts\<close>

text \<open>What a client has handed in: all of a submission that no later update changes.\<close>

definition same_work :: "submission \<Rightarrow> submission \<Rightarrow> bool" where
  "same_work s t \<longleftrightarrow>
     sb_ID t = sb_ID s \<and> sb_UserID t = sb_UserID s \<and> sb_ProblemID t = sb_ProblemID s \<and>
     sb_Language t = sb_Language s \<and> sb_SourceCode t = sb_SourceCode s"

lemma same_work_refl [simp]: "same_work s s"
  by (simp add: same_work_def)

lemma same_work_trans: "same_work s t \<Longrightarrow> same_work t u \<Longrightarrow> same_work s u"
  by (simp add: same_work_def)

lemma same_work_set [simp]: "same_work r (submission_set s r)"
  by (simp add: same_work_def submission_set_def)

text \<open>All test cases a problem had when the table had its first \<open>n\<close> rows.\<close>

definition tests_then :: "database \<Rightarrow> nat \<Rightarrow> string \<Rightarrow> test_case list" where
  "tests_then d n u = test_cases_of u True (d\<lparr>db_test_cases := take n (db_test_cases d)\<rparr>)"

text \<open>
  The verdict of a submission is one the judge gives to its program for a stored problem: the problem of the
  submission, with the test cases it had at some time, which are as many as the row says and include those
  among the first \<open>N\<close> ever stored.
\<close>

definition judged :: "('q, 'h) engine \<Rightarrow> nat \<Rightarrow> database \<Rightarrow> submission \<Rightarrow> bool" where
  "judged E N d s \<longleftrightarrow>
     sb_Verdict s = VerdictInternalError \<or>
     (\<exists>prob n sub sub1. N \<le> n \<and> n \<le> length (db_test_cases d) \<and> prob \<in> set (db_problems d) \<and>
        db_uuid_in d (sb_ProblemID s) = Some (pb_ID prob) \<and>
        judge_outcome E prob (tests_then d n (pb_ID prob)) sub sub1 \<and>
        sb_TotalTestCases s = int (length (tests_then d n (pb_ID prob))) \<and>
        sb_Language sub = sb_Language s \<and> sb_SourceCode sub = sb_SourceCode s \<and> sb_Verdict sub1 = sb_Verdict s)"

definition judged_by :: "('q, 'h) engine set \<Rightarrow> nat \<Rightarrow> database \<Rightarrow> submission \<Rightarrow> bool" where
  "judged_by Es N d s \<longleftrightarrow> (\<exists>E \<in> Es. judged E N d s)"

definition subs_ok :: "('q, 'h) engine set \<Rightarrow> nat \<Rightarrow> database \<Rightarrow> bool" where
  "subs_ok Es N d \<longleftrightarrow>
     distinct (map sb_ID (db_submissions d)) \<and>
     (\<forall>s \<in> set (db_submissions d). sb_Status s = SubmissionStatusCompleted \<longrightarrow> judged_by Es N d s)"

text \<open>PostgreSQL prints a UUID the way it reads it.\<close>

definition canonical :: "database \<Rightarrow> bool" where
  "canonical d \<longleftrightarrow> (\<forall>i u. db_uuid_in d i = Some u \<longrightarrow> db_uuid_in d u = Some u)"

definition extends :: "database \<Rightarrow> database \<Rightarrow> bool" where
  "extends d d1 \<longleftrightarrow>
     (\<exists>ps. db_problems d1 = db_problems d @ ps) \<and> (\<exists>ts. db_test_cases d1 = db_test_cases d @ ts) \<and>
     db_uuid_in d1 = db_uuid_in d"

definition keeps_work :: "database \<Rightarrow> database \<Rightarrow> bool" where
  "keeps_work d d1 \<longleftrightarrow>
     (\<forall>i s. find_row sb_ID i (db_submissions d) = Some s \<longrightarrow>
        (\<exists>t. find_row sb_ID i (db_submissions d1) = Some t \<and> same_work s t))"

definition catalog_grows :: "('q, 'h) engine set \<Rightarrow> nat \<Rightarrow> database \<Rightarrow> database \<Rightarrow> bool" where
  "catalog_grows Es N d d1 \<longleftrightarrow>
     extends d d1 \<and> keeps_work d d1 \<and> (canonical d \<longrightarrow> subs_ok Es N d \<longrightarrow> subs_ok Es N d1)"

lemma extends_refl [simp]: "extends d d"
  by (simp add: extends_def)

lemma extends_trans: "extends d d1 \<Longrightarrow> extends d1 d2 \<Longrightarrow> extends d d2"
  by (fastforce simp: extends_def)

lemma canonical_extends: "extends d d1 \<Longrightarrow> canonical d1 = canonical d"
  by (simp add: extends_def canonical_def)

lemma keeps_work_refl [simp]: "keeps_work d d"
  by (auto simp: keeps_work_def)

lemma keeps_work_trans: "keeps_work d d1 \<Longrightarrow> keeps_work d1 d2 \<Longrightarrow> keeps_work d d2"
  unfolding keeps_work_def by (meson same_work_trans)

lemma tests_then_extends:
  "extends d d1 \<Longrightarrow> n \<le> length (db_test_cases d) \<Longrightarrow> tests_then d1 n u = tests_then d n u"
  by (auto simp: extends_def tests_then_def test_cases_of_def)

lemma tests_then_all: "tests_then d (length (db_test_cases d)) u = test_cases_of u True d"
  by (simp add: tests_then_def test_cases_of_def)

lemma judged_extends:
  assumes "extends d d1" and "judged E N d s"
  shows "judged E N d1 s"
proof (cases "sb_Verdict s = VerdictInternalError")
  case False
  with assms(2) obtain prob n sub sub1 where j: "N \<le> n" "n \<le> length (db_test_cases d)" "prob \<in> set (db_problems d)"
      "db_uuid_in d (sb_ProblemID s) = Some (pb_ID prob)" "judge_outcome E prob (tests_then d n (pb_ID prob)) sub sub1"
      "sb_TotalTestCases s = int (length (tests_then d n (pb_ID prob)))"
      "sb_Language sub = sb_Language s" "sb_SourceCode sub = sb_SourceCode s" "sb_Verdict sub1 = sb_Verdict s"
    unfolding judged_def by blast
  have "n \<le> length (db_test_cases d1)" "prob \<in> set (db_problems d1)" "db_uuid_in d1 = db_uuid_in d"
    using assms(1) j(2,3) by (auto simp: extends_def)
  then show ?thesis
    unfolding judged_def using j(1,4-9) tests_then_extends [OF assms(1) j(2)]
    by (intro disjI2 exI [of _ prob] exI [of _ n] exI [of _ sub] exI [of _ sub1]) simp
qed (simp add: judged_def)

lemma judged_by_extends: "extends d d1 \<Longrightarrow> judged_by Es N d s \<Longrightarrow> judged_by Es N d1 s"
  unfolding judged_by_def using judged_extends by blast

lemma catalog_grows_trans: "catalog_grows Es N d d1 \<Longrightarrow> catalog_grows Es N d1 d2 \<Longrightarrow> catalog_grows Es N d d2"
  unfolding catalog_grows_def using extends_trans keeps_work_trans canonical_extends by metis

lemma catalog_grows_same:
  assumes "catalog d1 = catalog d"
  shows "catalog_grows Es N d d1"
proof -
  have eq: "db_problems d1 = db_problems d" "db_test_cases d1 = db_test_cases d" "db_submissions d1 = db_submissions d"
    "db_uuid_in d1 = db_uuid_in d" using assms by (simp_all add: catalog_def)
  then have "extends d d1" by (simp add: extends_def)
  then show ?thesis using eq judged_by_extends [of d d1 Es N]
    by (auto simp: catalog_grows_def keeps_work_def subs_ok_def)
qed

section \<open>The operations of the repositories\<close>

lemma run_stmt_grows:
  assumes "\<And>d x d1. f d = Inr (x, d1) \<Longrightarrow> catalog_grows Es N d d1"
  shows "catalog_grows Es N d (snd (run_stmt f d))"
  by (rule run_stmt_preserves [where I = "catalog_grows Es N d"])
    (auto intro: catalog_grows_same catalog_grows_trans [OF _ catalog_grows_same] later_catalog catalog_grows_trans dest: assms)

lemma add_problem_grows: "catalog_grows Es N d (d\<lparr>db_problems := db_problems d @ ps, db_seq := n\<rparr>)"
proof -
  let ?d1 = "d\<lparr>db_problems := db_problems d @ ps, db_seq := n\<rparr>"
  have "extends d ?d1" by (simp add: extends_def)
  then show ?thesis using judged_by_extends [of d ?d1 Es N] by (auto simp: catalog_grows_def keeps_work_def subs_ok_def)
qed

lemma add_test_case_grows: "catalog_grows Es N d (d\<lparr>db_test_cases := db_test_cases d @ ts, db_seq := n\<rparr>)"
proof -
  let ?d1 = "d\<lparr>db_test_cases := db_test_cases d @ ts, db_seq := n\<rparr>"
  have "extends d ?d1" by (simp add: extends_def)
  then show ?thesis using judged_by_extends [of d ?d1 Es N] by (auto simp: catalog_grows_def keeps_work_def subs_ok_def)
qed

lemma add_submission_grows:
  assumes "sb_Status s \<noteq> SubmissionStatusCompleted" and "find_row sb_ID (sb_ID s) (db_submissions d) = None"
  shows "catalog_grows Es N d (d\<lparr>db_submissions := db_submissions d @ [s], db_seq := n\<rparr>)"
proof -
  let ?d1 = "d\<lparr>db_submissions := db_submissions d @ [s], db_seq := n\<rparr>"
  have "extends d ?d1" by (simp add: extends_def)
  moreover have "keeps_work d ?d1" by (auto simp: keeps_work_def find_row_append)
  ultimately show ?thesis using judged_by_extends [of d ?d1 Es N] assms
    by (auto simp: catalog_grows_def subs_ok_def find_row_None_iff)
qed

lemma repo_writes_grow:
  "catalog_grows Es N d (snd (problem_create p d))" "catalog_grows Es N d (snd (test_case_create t d))"
  "sb_Status s \<noteq> SubmissionStatusCompleted \<Longrightarrow> catalog_grows Es N d (snd (submission_create s d))"
proof -
  have s: "snd (problem_create p d) = snd (run_stmt (insert_problem p) d)"
    "snd (test_case_create t d) = snd (run_stmt (insert_test_case t) d)"
    "snd (submission_create s d) = snd (run_stmt (insert_submission s) d)"
    by (simp_all add: problem_create_def test_case_create_def submission_create_def split: prod.split sum.split)
  show "catalog_grows Es N d (snd (problem_create p d))" unfolding s
    by (rule run_stmt_grows) (auto simp: insert_problem_def add_problem_grows split: if_splits)
  show "catalog_grows Es N d (snd (test_case_create t d))" unfolding s
    by (rule run_stmt_grows) (auto simp: insert_test_case_def add_test_case_grows split: if_splits)
  show "catalog_grows Es N d (snd (submission_create s d))" if "sb_Status s \<noteq> SubmissionStatusCompleted" unfolding s
    by (rule run_stmt_grows) (use that in \<open>auto simp: insert_submission_def intro!: add_submission_grows split: if_splits\<close>)
qed

text \<open>
  An update of a submission: one that completes it must bring a verdict for the program of the row.
\<close>

lemma update_submission_grows:
  assumes "update_submission s d = Inr (n, d1)"
    and "canonical d \<Longrightarrow> sb_Status s = SubmissionStatusCompleted \<Longrightarrow>
      db_uuid_in d (sb_ID s) = Some (sb_ID s) \<and> judged_by Es N d s \<and>
      (\<exists>r. find_row sb_ID (sb_ID s) (db_submissions d) = Some r \<and> same_work r s)"
  shows "catalog_grows Es N d d1"
proof -
  from assms(1) obtain u where u: "db_uuid_in d (sb_ID s) = Some u"
    and d1: "d1 = d\<lparr>db_submissions := update_where (\<lambda>r. sb_ID r = u) (submission_set s) (db_submissions d)\<rparr>"
    by (auto simp: update_submission_def split: if_splits)
  have e: "extends d d1" by (simp add: d1 extends_def)
  have k: "keeps_work d d1" by (auto simp: keeps_work_def d1 find_row_update_where)
  have "subs_ok Es N d1" if can: "canonical d" and ok: "subs_ok Es N d"
  proof -
    have "map sb_ID (db_submissions d1) = map sb_ID (db_submissions d)" by (simp add: d1 update_where_keys)
    moreover have "judged_by Es N d t" if t: "t \<in> set (db_submissions d1)" "sb_Status t = SubmissionStatusCompleted" for t
    proof -
      from t(1) obtain q where q: "q \<in> set (db_submissions d)" "t = (if sb_ID q = u then submission_set s q else q)"
        by (auto simp: d1 set_update_where)
      show ?thesis
      proof (cases "sb_ID q = u")
        case False
        with q t(2) ok show ?thesis by (auto simp: subs_ok_def)
      next
        case True
        with q t(2) have "sb_Status s = SubmissionStatusCompleted" by (simp add: submission_set_def)
        from assms(2) [OF can this] obtain r where r: "db_uuid_in d (sb_ID s) = Some (sb_ID s)" "judged_by Es N d s"
          "find_row sb_ID (sb_ID s) (db_submissions d) = Some r" "same_work r s" by blast
        have "r = q" using find_row_distinct [of sb_ID "db_submissions d" q] ok q(1) True u r(1,3)
          by (auto simp: subs_ok_def)
        moreover have "sb_Verdict t = sb_Verdict s" "sb_TotalTestCases t = sb_TotalTestCases s"
          using q(2) True by (simp_all add: submission_set_def)
        moreover have "same_work q t" using q(2) True by simp
        ultimately show ?thesis using r(2,4) by (simp add: judged_by_def judged_def same_work_def)
      qed
    qed
    ultimately show ?thesis using ok judged_by_extends [OF e] by (auto simp: subs_ok_def)
  qed
  with e k show ?thesis by (simp add: catalog_grows_def)
qed

lemma submission_update_grows:
  assumes "\<And>d0. later d d0 \<Longrightarrow> canonical d0 \<Longrightarrow> sb_Status s = SubmissionStatusCompleted \<Longrightarrow>
      db_uuid_in d0 (sb_ID s) = Some (sb_ID s) \<and> judged_by Es N d0 s \<and>
      (\<exists>r. find_row sb_ID (sb_ID s) (db_submissions d0) = Some r \<and> same_work r s)"
  shows "catalog_grows Es N d (snd (submission_update s d))"
proof (rule submission_update_cases [of s d])
  fix e d0 assume "submission_update s d = (Some e, d0)" "later d d0"
  then show ?thesis by (auto intro: catalog_grows_same later_catalog)
next
  fix r d0 d1 n assume u: "submission_update s d = (r, d1)" "later d d0" "update_submission s d0 = Inr (n, d1)"
  from update_submission_grows [OF u(3) assms [OF u(2)]] u(1,2) show ?thesis
    by (auto intro: catalog_grows_trans [OF catalog_grows_same] later_catalog)
qed

section \<open>The change an access makes\<close>

definition moves :: "('q, 'h) pool set \<Rightarrow> nat \<Rightarrow> database \<Rightarrow> database \<Rightarrow> bool" where
  "moves F N d d1 \<longleftrightarrow> grows F d d1 \<and> catalog_grows (pl_engine ` F) N d d1"

lemma moves_trans: "moves F N d d1 \<Longrightarrow> moves F N d1 d2 \<Longrightarrow> moves F N d d2"
  unfolding moves_def using grows_trans catalog_grows_trans by blast

lemma moves_later: "later d d1 \<Longrightarrow> moves F N d d1"
  by (simp add: moves_def grows_later catalog_grows_same later_catalog)

lemma moves_refl [simp]: "moves F N d d"
  by (simp add: moves_later)

lemma moves_jobs: "grows F d d1 \<Longrightarrow> catalog d1 = catalog d \<Longrightarrow> moves F N d d1"
  by (simp add: moves_def catalog_grows_same)

lemma moves_catalog: "db_executions d1 = db_executions d \<Longrightarrow> catalog_grows (pl_engine ` F) N d d1 \<Longrightarrow> moves F N d d1"
  by (simp add: moves_def grows_same)

lemma op_moves:
  "moves F N d (snd (pg_create job d))" "moves F N d (snd (pg_claim i w l d))" "moves F N d (snd (pg_mark_running i w d))"
  "moves F N d (snd (pg_fail_job i w m b d))" "moves F N d (snd (pg_renew_lease i w l d))"
  "moves F N d (recover_abandoned_jobs d)" "moves F N d (mark_dispatched i d)" "moves F N d (mark_stale_workers t d)"
  "moves F N d (heartbeat_tick w d)" "moves F N d (snd (heartbeat_update_status w st d))"
  by (rule moves_jobs; simp add: op_grows grows_same)+

lemma reads_move:
  "moves F N d (snd (pg_get i d))" "moves F N d (snd (ping_db d))" "moves F N d (snd (submission_get_by_id i d))"
  "moves F N d (snd (problem_get_by_id i d))" "moves F N d (snd (test_case_get_by_problem_id i b d))"
  "moves F N d (snd (problem_list_all d))" "moves F N d (snd (run_stmt (query f) d))"
  by (simp_all add: moves_later pg_get_later ping_db_later repo_queries_later run_query_later)

lemma writes_move:
  "moves F N d (snd (problem_create p d))" "moves F N d (snd (test_case_create t d))"
  "sb_Status s \<noteq> SubmissionStatusCompleted \<Longrightarrow> moves F N d (snd (submission_create s d))"
  by (simp_all add: moves_catalog repo_writes_executions repo_writes_grow)

lemma save_moves:
  assumes "sb_Status s \<noteq> SubmissionStatusCompleted"
  shows "moves F N d (snd (submission_update s d))"
  using assms submission_update_frame [of s d] by (intro moves_catalog submission_update_grows) auto

end
