(* ===== verification/Repository_Interface.thy ===== *)
theory Repository_Interface imports Catalog begin

text \<open>
  The interfaces of \<^verbatim>\<open>internal/repository\<close> as records of functions, and what their users rely on: an entity
  that was created is found under its id, with its content, until it is updated; a list without hidden test
  cases is the public part of the whole list. The laws are locales over what a repository holds; those of
  problems and submissions share one, and the PostgreSQL repositories keep them all.
\<close>

section \<open>The interfaces\<close>

record 's problem_repository =
  pr_Create :: "f64 problem \<Rightarrow> 's \<Rightarrow> (goerror + f64 problem) \<times> 's"
  pr_GetByID :: "string \<Rightarrow> 's \<Rightarrow> (goerror + f64 problem) \<times> 's"
  pr_ListAll :: "'s \<Rightarrow> (goerror + f64 problem list) \<times> 's"

record 's test_case_repository =
  tr_Create :: "test_case \<Rightarrow> 's \<Rightarrow> (goerror + test_case) \<times> 's"
  tr_GetByProblemID :: "string \<Rightarrow> bool \<Rightarrow> 's \<Rightarrow> (goerror + test_case list) \<times> 's"

record 's submission_repository =
  sr_Create :: "submission \<Rightarrow> 's \<Rightarrow> (goerror + submission) \<times> 's"
  sr_GetByID :: "string \<Rightarrow> 's \<Rightarrow> (goerror + submission) \<times> 's"
  sr_Update :: "submission \<Rightarrow> 's \<Rightarrow> goerror option \<times> 's"

definition new_problem_repository :: "database problem_repository" where
  "new_problem_repository =
     \<lparr>pr_Create = problem_create, pr_GetByID = problem_get_by_id, pr_ListAll = problem_list_all\<rparr>"

definition new_test_case_repository :: "database test_case_repository" where
  "new_test_case_repository =
     \<lparr>tr_Create = test_case_create, tr_GetByProblemID = test_case_get_by_problem_id\<rparr>"

definition new_submission_repository :: "database submission_repository" where
  "new_submission_repository =
     \<lparr>sr_Create = submission_create, sr_GetByID = submission_get_by_id, sr_Update = submission_update\<rparr>"

lemmas new_repository_defs = new_problem_repository_def new_test_case_repository_def new_submission_repository_def

section \<open>What they promise\<close>

text \<open>
  \<open>held\<close> is what the repository holds, \<open>spelled\<close> the canonical form of an id, and \<open>same\<close> joins entities with the
  same content. A call that fails may have been carried out all the same, so it may add an entity; it never
  changes one.
\<close>

locale entity_repository =
  fixes create :: "'a \<Rightarrow> 's \<Rightarrow> (goerror + 'a) \<times> 's" and get :: "string \<Rightarrow> 's \<Rightarrow> (goerror + 'a) \<times> 's"
    and key :: "'a \<Rightarrow> string" and held :: "'s \<Rightarrow> string \<Rightarrow> 'a option" and spelled :: "'s \<Rightarrow> string \<Rightarrow> string option"
    and same :: "'a \<Rightarrow> 'a \<Rightarrow> bool"
  assumes same_trans: "same x y \<Longrightarrow> same y z \<Longrightarrow> same x z"
    and create_stores: "create x s = (Inr y, t) \<Longrightarrow>
      same x y \<and> held s (key y) = None \<and> (\<exists>z. held t = (held s)(key y \<mapsto> z) \<and> key z = key y \<and> same y z) \<and> spelled t = spelled s"
    and create_keeps: "create x s = (r, t) \<Longrightarrow> held s \<subseteq>\<^sub>m held t \<and> spelled t = spelled s"
    and get_reads: "get i s = (Inr x, t) \<Longrightarrow> \<exists>k. spelled s i = Some k \<and> held s k = Some x"
    and get_keeps: "get i s = (r, t) \<Longrightarrow> held t = held s \<and> spelled t = spelled s"
begin

definition grown :: "'s \<Rightarrow> 's \<Rightarrow> bool" where
  "grown s t \<longleftrightarrow> held s \<subseteq>\<^sub>m held t \<and> spelled t = spelled s"

lemma grown_refl [simp]: "grown s s"
  by (simp add: grown_def)

lemma grown_trans: "grown s t \<Longrightarrow> grown t u \<Longrightarrow> grown s u"
  by (auto simp: grown_def intro: map_le_trans)

lemma calls_grow: "grown s (snd (create x s))" "grown s (snd (get i s))"
  using create_keeps [of x s] get_keeps [of i s] by (simp_all add: grown_def prod_eq_iff)

text \<open>A created entity is read with its content, whatever is created and read in between.\<close>

lemma created_is_read:
  assumes "create x s = (Inr y, t)" and "grown t u" and "get i u = (Inr z, v)" and "spelled s i = Some (key y)"
  shows "same x z \<and> key z = key y"
proof -
  from create_stores [OF assms(1)] obtain z1 where z1: "same x y" "held t (key y) = Some z1" "key z1 = key y"
    "same y z1" "spelled t = spelled s" by auto
  from get_reads [OF assms(3)] assms(2,4) z1(5) have "held u (key y) = Some z" by (auto simp: grown_def)
  moreover from assms(2) z1(2) have "held u (key y) = Some z1" by (auto simp: grown_def map_le_def dom_def)
  ultimately show ?thesis using z1 same_trans [of x y z1] by simp
qed

text \<open>Two created entities have different ids.\<close>

lemma ids_differ:
  assumes "create x s = (Inr y, t)" and "grown t u" and "create x1 u = (Inr y1, v)"
  shows "key y1 \<noteq> key y"
  using create_stores [OF assms(1)] create_stores [OF assms(3)] assms(2)
  by (auto simp: grown_def map_le_def dom_def)

end

text \<open>An update sets fields of the entity with its id, if there is one, and leaves the others.\<close>

locale updated_repository = entity_repository create get key held spelled same
  for create :: "'a \<Rightarrow> 's \<Rightarrow> (goerror + 'a) \<times> 's" and get :: "string \<Rightarrow> 's \<Rightarrow> (goerror + 'a) \<times> 's" and key held spelled same +
  fixes update :: "'a \<Rightarrow> 's \<Rightarrow> goerror option \<times> 's" and assign :: "'a \<Rightarrow> 'a \<Rightarrow> 'a"
  assumes update_sets: "update x s = (None, t) \<Longrightarrow>
      \<exists>k. spelled s (key x) = Some k \<and> held t = (held s)(k := map_option (assign x) (held s k))"
    and update_keeps: "update x s = (r, t) \<Longrightarrow>
      spelled t = spelled s \<and> (\<forall>k. spelled s (key x) \<noteq> Some k \<longrightarrow> held t k = held s k)"
begin

text \<open>What is read after an update is what was there, updated.\<close>

lemma updated_is_read:
  assumes "held s k = Some y" and "spelled s (key x) = Some k" and "update x s = (None, t)"
    and "grown t u" and "get i u = (Inr z, v)" and "spelled s i = Some k"
  shows "z = assign x y"
proof -
  from update_sets [OF assms(3)] assms(1,2) have "held t k = Some (assign x y)" by auto
  then have "held u k = Some (assign x y)" using assms(4) by (auto simp: grown_def map_le_def dom_def)
  moreover from get_reads [OF assms(5)] assms(4,6) update_keeps [OF assms(3)] have "held u k = Some z"
    by (auto simp: grown_def)
  ultimately show ?thesis by simp
qed

text \<open>Updating an entity that is not there succeeds without effect: nobody looks at the number of rows.\<close>

lemma update_of_missing:
  assumes "spelled s (key x) = Some k" and "held s k = None" and "update x s = (None, t)"
  shows "held t = held s"
  using update_sets [OF assms(3)] assms(1,2) by (auto simp: fun_eq_iff)

end

locale test_list =
  fixes create :: "test_case \<Rightarrow> 's \<Rightarrow> (goerror + test_case) \<times> 's"
    and get :: "string \<Rightarrow> bool \<Rightarrow> 's \<Rightarrow> (goerror + test_case list) \<times> 's"
    and tests :: "'s \<Rightarrow> string \<Rightarrow> test_case list" and spelled :: "'s \<Rightarrow> string \<Rightarrow> string option"
  assumes create_adds: "create x s = (Inr y, t) \<Longrightarrow> \<exists>p. spelled s (tc_ProblemID x) = Some p \<and>
      mset (tests t p) = add_mset (y\<lparr>tc_ProblemID := p\<rparr>) (mset (tests s p)) \<and> (\<forall>q. q \<noteq> p \<longrightarrow> tests t q = tests s q)"
    and create_only_adds: "create x s = (r, t) \<Longrightarrow> spelled t = spelled s \<and>
      (\<forall>p. tests t p = tests s p \<or> (\<exists>i. mset (tests t p) = add_mset (x\<lparr>tc_ID := i, tc_ProblemID := p\<rparr>) (mset (tests s p))))"
    and tests_ordered: "sorted (map tc_SortOrder (tests s p))"
    and get_selects: "get i b s = (Inr ts, t) \<Longrightarrow> \<exists>p. spelled s i = Some p \<and>
      ts = filter (\<lambda>x. b \<or> tc_Visibility x = VisibilityPublic) (tests s p)"
begin

lemma hidden_kept_back: "get i False s = (Inr ts, t) \<Longrightarrow> x \<in> set ts \<Longrightarrow> tc_Visibility x = VisibilityPublic"
  by (drule get_selects) auto

lemma listed_in_order: "get i b s = (Inr ts, t) \<Longrightarrow> sorted (map tc_SortOrder ts)"
  using tests_ordered by (auto dest!: get_selects simp: sorted_filter)

text \<open>A new test case is among those the judge runs.\<close>

lemma created_is_listed:
  assumes "create x s = (Inr y, t)" and "get (tc_ProblemID x) True t = (Inr ts, u)"
  shows "\<exists>p. y\<lparr>tc_ProblemID := p\<rparr> \<in> set ts"
proof -
  from create_adds [OF assms(1)] obtain p where p: "spelled s (tc_ProblemID x) = Some p"
    "mset (tests t p) = add_mset (y\<lparr>tc_ProblemID := p\<rparr>) (mset (tests s p))" by blast
  with get_selects [OF assms(2)] create_only_adds [OF assms(1)] have "ts = tests t p" by auto
  with p(2) show ?thesis by (metis set_mset_mset union_single_eq_member add_mset_add_single)
qed

text \<open>A hidden one changes nothing for those who see the public ones, whether it was stored or not.\<close>

lemma hidden_not_seen:
  assumes "create x s = (r, t)" and "tc_Visibility x \<noteq> VisibilityPublic"
    and "get i False s = (Inr ts, s1)" and "get i False t = (Inr us, t1)"
  shows "mset us = mset ts"
proof -
  from get_selects [OF assms(3)] get_selects [OF assms(4)] create_only_adds [OF assms(1)] obtain p where
    "ts = filter (\<lambda>x. tc_Visibility x = VisibilityPublic) (tests s p)"
    "us = filter (\<lambda>x. tc_Visibility x = VisibilityPublic) (tests t p)" by auto
  moreover from create_only_adds [OF assms(1)] consider "tests t p = tests s p"
    | n where "mset (tests t p) = add_mset (x\<lparr>tc_ID := n, tc_ProblemID := p\<rparr>) (mset (tests s p))" by blast
  then have "mset (filter (\<lambda>x. tc_Visibility x = VisibilityPublic) (tests t p)) =
      mset (filter (\<lambda>x. tc_Visibility x = VisibilityPublic) (tests s p))"
    using assms(2) by cases (simp_all add: mset_filter)
  ultimately show ?thesis by simp
qed

end

section \<open>PostgreSQL keeps the promises\<close>

definition same_problem :: "f64 problem \<Rightarrow> f64 problem \<Rightarrow> bool" where
  "same_problem p q \<longleftrightarrow> q = p\<lparr>pb_ID := pb_ID q\<rparr>"

text \<open>The problem of a submission may be spelled differently, and the time of its start is not stored.\<close>

definition same_submission :: "submission \<Rightarrow> submission \<Rightarrow> bool" where
  "same_submission s t \<longleftrightarrow>
     t = s\<lparr>sb_ID := sb_ID t, sb_ProblemID := sb_ProblemID t, sb_StartedAt := sb_StartedAt t\<rparr>"

definition held_problems :: "database \<Rightarrow> string \<Rightarrow> f64 problem option" where
  "held_problems d u = find_row pb_ID u (db_problems d)"

definition held_submissions :: "database \<Rightarrow> string \<Rightarrow> submission option" where
  "held_submissions d u = find_row sb_ID u (db_submissions d)"

lemma later_held:
  "later d d0 \<Longrightarrow> held_problems d0 = held_problems d \<and> held_submissions d0 = held_submissions d \<and>
     db_uuid_in d0 = db_uuid_in d \<and> test_cases_of u b d0 = test_cases_of u b d"
  using later_tables [of d d0] later_uuid_in [of d d0]
  by (auto simp: held_problems_def held_submissions_def test_cases_of_def fun_eq_iff)

lemma insert_problem_held:
  "insert_problem p d = Inr (i, d1) \<Longrightarrow> held_problems d i = None \<and>
     held_problems d1 = (held_problems d)(i \<mapsto> p\<lparr>pb_ID := i\<rparr>) \<and> db_uuid_in d1 = db_uuid_in d"
  by (auto simp: insert_problem_def held_problems_def find_row_append fun_eq_iff split: if_splits option.split)

lemma insert_submission_held:
  "insert_submission s d = Inr (i, d1) \<Longrightarrow> held_submissions d i = None \<and> db_uuid_in d1 = db_uuid_in d \<and>
     (\<exists>u. held_submissions d1 = (held_submissions d)(i \<mapsto> s\<lparr>sb_ID := i, sb_ProblemID := u, sb_StartedAt := None\<rparr>))"
  by (auto simp: insert_submission_def held_submissions_def find_row_append fun_eq_iff split: if_splits option.split)

lemma update_submission_held:
  assumes "update_submission s d = Inr (n, d1)"
  shows "\<exists>u. db_uuid_in d (sb_ID s) = Some u \<and> db_uuid_in d1 = db_uuid_in d \<and>
    held_submissions d1 = (held_submissions d)(u := map_option (submission_set s) (held_submissions d u))"
proof -
  obtain u where "db_uuid_in d (sb_ID s) = Some u" using assms by (auto simp: update_submission_def)
  moreover from this assms have "db_uuid_in d1 = db_uuid_in d" by (auto simp: update_submission_def split: if_splits)
  moreover from update_submission_frame [OF assms] calculation(1)
  have "held_submissions d1 = (held_submissions d)(u := map_option (submission_set s) (held_submissions d u))"
    by (auto simp: held_submissions_def fun_eq_iff map_option_case dest: find_row_SomeD split: option.split)
  ultimately show ?thesis by blast
qed

text \<open>A statement that adds an entity, whether its reply arrives or not.\<close>

lemma add_run:
  assumes "\<And>d i d1. f d = Inr (i, d1) \<Longrightarrow>
      held d i = None \<and> (\<exists>z. held d1 = (held d)(i \<mapsto> z) \<and> P i z) \<and> db_uuid_in d1 = db_uuid_in d"
    and "\<And>d d0. later d d0 \<Longrightarrow> held d0 = held d"
  shows "run_stmt f d = (Inr i, d1) \<Longrightarrow>
      held d i = None \<and> (\<exists>z. held d1 = (held d)(i \<mapsto> z) \<and> P i z) \<and> db_uuid_in d1 = db_uuid_in d"
    and "held d \<subseteq>\<^sub>m held (snd (run_stmt f d)) \<and> db_uuid_in (snd (run_stmt f d)) = db_uuid_in d"
proof -
  show "held d i = None \<and> (\<exists>z. held d1 = (held d)(i \<mapsto> z) \<and> P i z) \<and> db_uuid_in d1 = db_uuid_in d"
    if run: "run_stmt f d = (Inr i, d1)"
  proof -
    from run_stmt_InrD [OF run] obtain d0 where d0: "later d d0" "f d0 = Inr (i, d1)" by blast
    with assms(1) [OF d0(2)] assms(2) [OF d0(1)] later_uuid_in [OF d0(1)] show ?thesis by simp
  qed
  have step: "held d \<subseteq>\<^sub>m held d1 \<and> db_uuid_in d1 = db_uuid_in d" if "f d = Inr (i, d1)" for d i d1
    using assms(1) [OF that] by (auto simp: map_le_def)
  show "held d \<subseteq>\<^sub>m held (snd (run_stmt f d)) \<and> db_uuid_in (snd (run_stmt f d)) = db_uuid_in d"
  proof (rule run_stmt_preserves [where I = "\<lambda>d1. held d \<subseteq>\<^sub>m held d1 \<and> db_uuid_in d1 = db_uuid_in d"])
    fix d1 d0 assume "later d1 d0" "held d \<subseteq>\<^sub>m held d1 \<and> db_uuid_in d1 = db_uuid_in d"
    then show "held d \<subseteq>\<^sub>m held d0 \<and> db_uuid_in d0 = db_uuid_in d" using assms(2) later_uuid_in by metis
  next
    fix d1 x d2 assume "held d \<subseteq>\<^sub>m held d1 \<and> db_uuid_in d1 = db_uuid_in d" "f d1 = Inr (x, d2)"
    then show "held d \<subseteq>\<^sub>m held d2 \<and> db_uuid_in d2 = db_uuid_in d" using step map_le_trans by metis
  qed simp
qed

lemma problem_added: "insert_problem p d = Inr (i, d1) \<Longrightarrow> held_problems d i = None \<and>
    (\<exists>z. held_problems d1 = (held_problems d)(i \<mapsto> z) \<and> z = p\<lparr>pb_ID := i\<rparr>) \<and> db_uuid_in d1 = db_uuid_in d"
  using insert_problem_held by blast

lemma submission_added: "insert_submission s d = Inr (i, d1) \<Longrightarrow> held_submissions d i = None \<and>
    (\<exists>z. held_submissions d1 = (held_submissions d)(i \<mapsto> z) \<and>
       (\<exists>u. z = s\<lparr>sb_ID := i, sb_ProblemID := u, sb_StartedAt := None\<rparr>)) \<and> db_uuid_in d1 = db_uuid_in d"
  using insert_submission_held by blast

lemma problem_run:
  "run_stmt (insert_problem p) d = (Inr i, d1) \<Longrightarrow> held_problems d i = None \<and>
    (\<exists>z. held_problems d1 = (held_problems d)(i \<mapsto> z) \<and> z = p\<lparr>pb_ID := i\<rparr>) \<and> db_uuid_in d1 = db_uuid_in d"
  "held_problems d \<subseteq>\<^sub>m held_problems (snd (run_stmt (insert_problem p) d)) \<and>
    db_uuid_in (snd (run_stmt (insert_problem p) d)) = db_uuid_in d"
  by (rule add_run(1), erule problem_added, use later_held in blast, assumption)
    (rule add_run(2), erule problem_added, use later_held in blast)

lemma submission_run:
  "run_stmt (insert_submission s) d = (Inr i, d1) \<Longrightarrow> held_submissions d i = None \<and>
    (\<exists>z. held_submissions d1 = (held_submissions d)(i \<mapsto> z) \<and>
       (\<exists>u. z = s\<lparr>sb_ID := i, sb_ProblemID := u, sb_StartedAt := None\<rparr>)) \<and> db_uuid_in d1 = db_uuid_in d"
  "held_submissions d \<subseteq>\<^sub>m held_submissions (snd (run_stmt (insert_submission s) d)) \<and>
    db_uuid_in (snd (run_stmt (insert_submission s) d)) = db_uuid_in d"
  by (rule add_run(1), erule submission_added, use later_held in blast, assumption)
    (rule add_run(2), erule submission_added, use later_held in blast)

lemma snd_create:
  "snd (problem_create p d) = snd (run_stmt (insert_problem p) d)"
  "snd (submission_create s d) = snd (run_stmt (insert_submission s) d)"
  "snd (test_case_create t d) = snd (run_stmt (insert_test_case t) d)"
  "snd (submission_update s d) = snd (run_stmt (update_submission s) d)"
  by (simp_all add: problem_create_def submission_create_def test_case_create_def submission_update_def
      split: prod.split sum.split)

interpretation pg_problems: entity_repository
  "pr_Create new_problem_repository" "pr_GetByID new_problem_repository" pb_ID held_problems db_uuid_in same_problem
proof
  fix p q r :: "f64 problem" and d d1 :: database and i :: string and e :: "goerror + f64 problem"
  show "same_problem p q \<Longrightarrow> same_problem q r \<Longrightarrow> same_problem p r"
    by (cases p; cases q; cases r) (simp add: same_problem_def)
  show "pr_Create new_problem_repository p d = (Inr q, d1) \<Longrightarrow> same_problem p q \<and> held_problems d (pb_ID q) = None \<and>
      (\<exists>z. held_problems d1 = (held_problems d)(pb_ID q \<mapsto> z) \<and> pb_ID z = pb_ID q \<and> same_problem q z) \<and>
      db_uuid_in d1 = db_uuid_in d"
    by (auto simp: new_repository_defs problem_create_def same_problem_def split: prod.splits sum.splits
        dest!: problem_run(1))
  show "pr_Create new_problem_repository p d = (e, d1) \<Longrightarrow>
      held_problems d \<subseteq>\<^sub>m held_problems d1 \<and> db_uuid_in d1 = db_uuid_in d"
    using problem_run(2) [of d p] snd_create(1) [of p d] by (simp add: new_repository_defs)
  show "pr_GetByID new_problem_repository i d = (Inr p, d1) \<Longrightarrow> \<exists>k. db_uuid_in d i = Some k \<and> held_problems d k = Some p"
    by (auto simp: new_repository_defs held_problems_def dest: problem_get_Inr)
  show "pr_GetByID new_problem_repository i d = (e, d1) \<Longrightarrow> held_problems d1 = held_problems d \<and> db_uuid_in d1 = db_uuid_in d"
    using later_held [OF repo_queries_later(2) [of d i]] by (simp add: new_repository_defs)
qed

interpretation pg_submissions: updated_repository
  "sr_Create new_submission_repository" "sr_GetByID new_submission_repository" sb_ID held_submissions db_uuid_in
  same_submission "sr_Update new_submission_repository" submission_set
proof
  fix s t r :: submission and d d1 :: database and i :: string and e :: "goerror + submission" and n :: "goerror option"
  show "same_submission s t \<Longrightarrow> same_submission t r \<Longrightarrow> same_submission s r"
    by (cases s; cases t; cases r) (simp add: same_submission_def)
  show "sr_Create new_submission_repository s d = (Inr t, d1) \<Longrightarrow> same_submission s t \<and> held_submissions d (sb_ID t) = None \<and>
      (\<exists>z. held_submissions d1 = (held_submissions d)(sb_ID t \<mapsto> z) \<and> sb_ID z = sb_ID t \<and> same_submission t z) \<and>
      db_uuid_in d1 = db_uuid_in d"
    by (auto simp: new_repository_defs submission_create_def same_submission_def split: prod.splits sum.splits
        dest!: submission_run(1))
  show "sr_Create new_submission_repository s d = (e, d1) \<Longrightarrow>
      held_submissions d \<subseteq>\<^sub>m held_submissions d1 \<and> db_uuid_in d1 = db_uuid_in d"
    using submission_run(2) [of d s] snd_create(2) [of s d] by (simp add: new_repository_defs)
  show "sr_GetByID new_submission_repository i d = (Inr s, d1) \<Longrightarrow>
      \<exists>k. db_uuid_in d i = Some k \<and> held_submissions d k = Some s"
    by (auto simp: new_repository_defs held_submissions_def dest: submission_get_Inr)
  show "sr_GetByID new_submission_repository i d = (e, d1) \<Longrightarrow>
      held_submissions d1 = held_submissions d \<and> db_uuid_in d1 = db_uuid_in d"
    using later_held [OF repo_queries_later(1) [of d i]] by (simp add: new_repository_defs)
  show "\<exists>k. db_uuid_in d (sb_ID s) = Some k \<and>
      held_submissions d1 = (held_submissions d)(k := map_option (submission_set s) (held_submissions d k))"
    if u: "sr_Update new_submission_repository s d = (None, d1)"
  proof (rule submission_update_cases [of s d])
    fix r d0 d2 n assume *: "submission_update s d = (r, d2)" "later d d0" "update_submission s d0 = Inr (n, d2)"
    from update_submission_held [OF *(3)] later_held [OF *(2)] *(1) u show ?thesis by (auto simp: new_repository_defs)
  qed (use u in \<open>simp add: new_repository_defs\<close>)
  show "db_uuid_in d1 = db_uuid_in d \<and> (\<forall>k. db_uuid_in d (sb_ID s) \<noteq> Some k \<longrightarrow> held_submissions d1 k = held_submissions d k)"
    if u: "sr_Update new_submission_repository s d = (n, d1)"
  proof (rule submission_update_cases [of s d])
    fix r d0 d2 n assume *: "submission_update s d = (r, d2)" "later d d0" "update_submission s d0 = Inr (n, d2)"
    from update_submission_held [OF *(3)] later_held [OF *(2)] *(1) u show ?thesis by (auto simp: new_repository_defs)
  next
    fix e d0 assume "submission_update s d = (Some e, d0)" "later d d0"
    with u later_held show ?thesis by (simp add: new_repository_defs)
  qed
qed

text \<open>The public test cases are those of the whole list that are public, in its order.\<close>

lemma test_cases_of_filter:
  "test_cases_of u b d = filter (\<lambda>x. b \<or> tc_Visibility x = VisibilityPublic) (test_cases_of u True d)"
  by (cases b) (simp_all add: test_cases_of_def filter_sort)

lemma insert_test_case_lists:
  assumes "insert_test_case x d = Inr (i, d1)"
  obtains p where "db_uuid_in d (tc_ProblemID x) = Some p" "db_uuid_in d1 = db_uuid_in d"
    "mset (test_cases_of p True d1) = add_mset (x\<lparr>tc_ID := i, tc_ProblemID := p\<rparr>) (mset (test_cases_of p True d))"
    "\<And>q. q \<noteq> p \<Longrightarrow> test_cases_of q True d1 = test_cases_of q True d"
  using assms by (auto simp: insert_test_case_def test_cases_of_def split: if_splits)

lemma test_case_run:
  assumes "run_stmt (insert_test_case x) d = (r, d1)"
  shows "db_uuid_in d1 = db_uuid_in d \<and> (\<forall>p. test_cases_of p True d1 = test_cases_of p True d \<or>
    (\<exists>i. mset (test_cases_of p True d1) = add_mset (x\<lparr>tc_ID := i, tc_ProblemID := p\<rparr>) (mset (test_cases_of p True d))))"
proof -
  have added: ?thesis if l: "later d d0" and f: "insert_test_case x d0 = Inr (i, d1)" for d0 i
    by (rule insert_test_case_lists [OF f]) (use later_held [OF l] in metis)
  show ?thesis
  proof (rule run_stmt_cases [of "insert_test_case x" d])
    fix e d0 assume "run_stmt (insert_test_case x) d = (Inl e, d0)" "later d d0"
    with later_held assms show ?thesis by simp
  qed (use assms added in auto)
qed

interpretation pg_test_cases: test_list
  "tr_Create new_test_case_repository" "tr_GetByProblemID new_test_case_repository" "\<lambda>d p. test_cases_of p True d" db_uuid_in
proof
  fix x y :: test_case and d d1 :: database and i p :: string and b :: bool and ts :: "test_case list"
    and r :: "goerror + test_case"
  show "\<exists>p. db_uuid_in d (tc_ProblemID x) = Some p \<and>
      mset (test_cases_of p True d1) = add_mset (y\<lparr>tc_ProblemID := p\<rparr>) (mset (test_cases_of p True d)) \<and>
      (\<forall>q. q \<noteq> p \<longrightarrow> test_cases_of q True d1 = test_cases_of q True d)"
    if c: "tr_Create new_test_case_repository x d = (Inr y, d1)"
  proof -
    from c obtain n where n: "run_stmt (insert_test_case x) d = (Inr n, d1)" "y = x\<lparr>tc_ID := n\<rparr>"
      by (auto simp: new_repository_defs test_case_create_def split: prod.splits sum.splits)
    from run_stmt_InrD [OF n(1)] obtain d0 where d0: "later d d0" "insert_test_case x d0 = Inr (n, d1)" by blast
    show ?thesis
      by (rule insert_test_case_lists [OF d0(2)]) (use later_held [OF d0(1)] n(2) in auto)
  qed
  show "tr_Create new_test_case_repository x d = (r, d1) \<Longrightarrow> db_uuid_in d1 = db_uuid_in d \<and>
      (\<forall>p. test_cases_of p True d1 = test_cases_of p True d \<or>
        (\<exists>i. mset (test_cases_of p True d1) = add_mset (x\<lparr>tc_ID := i, tc_ProblemID := p\<rparr>) (mset (test_cases_of p True d))))"
    using test_case_run [of x d "fst (run_stmt (insert_test_case x) d)" d1] snd_create(3) [of x d]
    by (simp add: new_repository_defs prod_eq_iff)
  show "sorted (map tc_SortOrder (test_cases_of p True d))"
    by (simp add: test_cases_of_def)
  show "tr_GetByProblemID new_test_case_repository i b d = (Inr ts, d1) \<Longrightarrow> \<exists>p. db_uuid_in d i = Some p \<and>
      ts = filter (\<lambda>x. b \<or> tc_Visibility x = VisibilityPublic) (test_cases_of p True d)"
    using test_cases_of_filter [of _ b d] by (auto simp: new_repository_defs dest: test_cases_Inr)
qed

section \<open>Properties\<close>

text \<open>
  C30: a submission that was stored comes back: whatever problems, test cases and submissions are created and
  whatever is read before and after the judge's update, reading the submission gives the program of the client
  with the state, the verdict and the numbers of the update.
\<close>

theorem stored_submission_comes_back:
  assumes "submission_create s d = (Inr s1, d1)" and "db_uuid_in d (sb_ID s1) = Some (sb_ID s1)"
    and "held_submissions d1 \<subseteq>\<^sub>m held_submissions d2 \<and> db_uuid_in d2 = db_uuid_in d1"
    and "submission_update x d2 = (None, d3)" and "sb_ID x = sb_ID s1"
    and "held_submissions d3 \<subseteq>\<^sub>m held_submissions d4 \<and> db_uuid_in d4 = db_uuid_in d3"
    and "submission_get_by_id (sb_ID s1) d4 = (Inr z, d5)"
  shows "sb_ID z = sb_ID s1 \<and> sb_UserID z = sb_UserID s \<and> sb_Language z = sb_Language s \<and>
    sb_SourceCode z = sb_SourceCode s \<and> sb_CreatedAt z = sb_CreatedAt s \<and> sb_StartedAt z = None \<and>
    sb_Status z = sb_Status x \<and> sb_Verdict z = sb_Verdict x \<and> sb_PassedTestCases z = sb_PassedTestCases x \<and>
    sb_TotalTestCases z = sb_TotalTestCases x \<and> sb_ExecutionTimeMs z = sb_ExecutionTimeMs x"
proof -
  from assms(1) obtain n where n: "run_stmt (insert_submission s) d = (Inr n, d1)" "s1 = s\<lparr>sb_ID := n\<rparr>"
    by (auto simp: submission_create_def split: prod.splits sum.splits)
  from submission_run(1) [OF n(1)] obtain u where
    u: "held_submissions d1 n = Some (s\<lparr>sb_ID := n, sb_ProblemID := u, sb_StartedAt := None\<rparr>)" "db_uuid_in d1 = db_uuid_in d"
    by auto
  from u(1) assms(3) have held: "held_submissions d2 (sb_ID s1) = Some (s\<lparr>sb_ID := n, sb_ProblemID := u, sb_StartedAt := None\<rparr>)"
    by (auto simp: n(2) map_le_def dom_def)
  have id: "db_uuid_in d2 (sb_ID x) = Some (sb_ID s1)" "db_uuid_in d2 (sb_ID s1) = Some (sb_ID s1)"
    using assms(2,3,5) u(2) by simp_all
  have "pg_submissions.grown d3 d4" using assms(6) by (simp add: pg_submissions.grown_def)
  from pg_submissions.updated_is_read [OF held id(1) _ this _ id(2)] assms(4,7)
  have "z = submission_set x (s\<lparr>sb_ID := n, sb_ProblemID := u, sb_StartedAt := None\<rparr>)" by (simp add: new_repository_defs)
  then show ?thesis by (simp add: n(2) submission_set_def)
qed

text \<open>A hidden test case does not show in the list of the public ones, whatever became of its \<^verbatim>\<open>INSERT\<close>.\<close>

theorem hidden_test_case_not_listed:
  assumes "test_case_create x d = (r, d1)" and "tc_Visibility x = VisibilityHidden"
    and "test_case_get_by_problem_id i False d = (Inr ts, d2)" and "test_case_get_by_problem_id i False d1 = (Inr us, d3)"
  shows "mset us = mset ts"
  using assms pg_test_cases.hidden_not_seen [of x d r d1 i ts d2 us d3]
  by (simp add: new_repository_defs VisibilityHidden_def VisibilityPublic_def)

section \<open>Witness\<close>

definition catalog_example :: database where
  "catalog_example = (database_example [])\<lparr>db_problems := [problem_example], db_uuid := (\<lambda>n. ''s1'')\<rparr>"

theorem stored_submission_comes_back_witness:
  "\<exists>d1 d3 d5 z.
     submission_create (submission_example\<lparr>sb_ID := []\<rparr>) catalog_example = (Inr submission_example, d1) \<and>
     submission_update (submission_example\<lparr>sb_Verdict := VerdictAccepted\<rparr>) d1 = (None, d3) \<and>
     submission_get_by_id ''s1'' d3 = (Inr z, d5) \<and> sb_SourceCode z = ''x'' \<and> sb_Verdict z = VerdictAccepted"
proof -
  let ?s = "submission_example\<lparr>sb_ID := []\<rparr>" and ?x = "submission_example\<lparr>sb_Verdict := VerdictAccepted\<rparr>"
  note defs = catalog_example_def database_example_def run_stmt_def apply_stmt_def with_uuid_def
  have "submission_storable ?s" "submission_storable ?x" by code_simp+
  then obtain d1 d3 z d5 where run: "submission_create ?s catalog_example = (Inr submission_example, d1)"
      "submission_update ?x d1 = (None, d3)" "submission_get_by_id ''s1'' d3 = (Inr z, d5)"
    by (simp add: submission_create_def insert_submission_def fresh_id_def submission_update_def update_submission_def
        submission_get_by_id_def query_def update_where_def defs submission_example_def problem_example_def)
  have "db_uuid_in catalog_example (sb_ID submission_example) = Some (sb_ID submission_example)" by (simp add: defs)
  from stored_submission_comes_back [OF run(1) this _ run(2), of d3 z d5] run show ?thesis
    by (auto simp: submission_example_def)
qed

end
