(* ===== verification/Resumption.thy ===== *)
theory Resumption imports Main begin

text \<open>
  Operations that access shared state several times, with other parties at work in between: a \<open>task\<close> has
  its answer, or makes its next access, which changes the state and leaves the rest of the task. \<open>run_task\<close>
  runs one without interruption. The conditions under which a task keeps its promise in the presence of
  others are those of rely-guarantee reasoning: the others change the state only by \<open>rely\<close>, every access
  of the task is a change by \<open>guar\<close>, and its answer satisfies \<open>post\<close>.
\<close>

section \<open>Tasks\<close>

datatype ('a, dead 'w) task = Answer 'a | Access "'w \<Rightarrow> ('a, 'w) task \<times> 'w"

primrec bind_task :: "('a, 'w) task \<Rightarrow> ('a \<Rightarrow> ('b, 'w) task) \<Rightarrow> ('b, 'w) task" where
  "bind_task (Answer a) k = k a"
| "bind_task (Access f) k = Access (map_prod (\<lambda>t. bind_task t k) (\<lambda>w. w) \<circ> f)"

primrec run_task :: "('a, 'w) task \<Rightarrow> 'w \<Rightarrow> 'a \<times> 'w" where
  "run_task (Answer a) = (\<lambda>w. (a, w))"
| "run_task (Access f) = (\<lambda>w. case (map_prod run_task (\<lambda>w. w) \<circ> f) w of (g, w1) \<Rightarrow> g w1)"

text \<open>One access, and what follows it.\<close>

definition access :: "('w \<Rightarrow> 'a \<times> 'w) \<Rightarrow> ('a, 'w) task" where
  "access f = Access (\<lambda>w. case f w of (a, w1) \<Rightarrow> (Answer a, w1))"

lemma run_task_Access: "run_task (Access f) w = (case f w of (t, w1) \<Rightarrow> run_task t w1)"
  by (simp split: prod.split)

declare run_task.simps(2) [simp del]

lemma run_task_access [simp]: "run_task (access f) w = f w"
  by (simp add: access_def run_task_Access split: prod.split)

lemma run_task_bind [simp]: "run_task (bind_task t k) w = (case run_task t w of (a, w1) \<Rightarrow> run_task (k a) w1)"
proof (induction t arbitrary: w)
  case (Access f)
  show ?case
  proof (cases "f w")
    case (Pair t w1)
    then have "t \<in> Basic_BNFs.fsts (f w)" by (simp add: fsts.intros)
    from Access.IH [OF rangeI this] Pair show ?thesis by (simp add: run_task_Access)
  qed
qed simp

lemma bind_task_access: "bind_task (access f) k = Access (\<lambda>w. case f w of (a, w1) \<Rightarrow> (k a, w1))"
  by (simp add: access_def fun_eq_iff split: prod.split)

section \<open>Rely and guarantee\<close>

primrec task_ok ::
  "('w \<Rightarrow> 'w \<Rightarrow> bool) \<Rightarrow> ('w \<Rightarrow> 'w \<Rightarrow> bool) \<Rightarrow> ('a \<Rightarrow> 'w \<Rightarrow> bool) \<Rightarrow> ('a, 'w) task \<Rightarrow> 'w \<Rightarrow> bool" where
  "task_ok rely guar post (Answer a) = (\<lambda>w. \<forall>w1. rely w w1 \<longrightarrow> post a w1)"
| "task_ok rely guar post (Access f) =
     (\<lambda>w. \<forall>w1. rely w w1 \<longrightarrow>
        guar w1 (snd (f w1)) \<and> fst ((map_prod (task_ok rely guar post) (\<lambda>w. w) \<circ> f) w1) (snd (f w1)))"

lemma task_ok_Access:
  "task_ok rely guar post (Access f) w \<longleftrightarrow>
     (\<forall>w1. rely w w1 \<longrightarrow> guar w1 (snd (f w1)) \<and> task_ok rely guar post (fst (f w1)) (snd (f w1)))"
  by simp

declare task_ok.simps(2) [simp del]

lemma task_ok_mono: "task_ok rely guar post t w \<Longrightarrow> (\<And>a w. post a w \<Longrightarrow> post1 a w) \<Longrightarrow> task_ok rely guar post1 t w"
proof (induction t arbitrary: w)
  case (Access f)
  have "guar w1 (snd (f w1)) \<and> task_ok rely guar post1 (fst (f w1)) (snd (f w1))" if r: "rely w w1" for w1
  proof -
    have "fst (f w1) \<in> Basic_BNFs.fsts (f w1)" by (cases "f w1") (simp add: fsts.intros)
    from Access.IH [OF rangeI this] Access.prems r show ?thesis by (simp add: task_ok_Access)
  qed
  then show ?case by (simp add: task_ok_Access)
qed auto

text \<open>
  The interface of an environment: what the others do is reflexive and transitive, and what a task does is
  something the others can live with.
\<close>

locale interference =
  fixes rely :: "'w \<Rightarrow> 'w \<Rightarrow> bool"
  assumes rely_refl: "rely w w" and rely_trans: "rely w w1 \<Longrightarrow> rely w1 w2 \<Longrightarrow> rely w w2"
begin

lemma ok_stable: "task_ok rely guar post t w \<Longrightarrow> rely w w1 \<Longrightarrow> task_ok rely guar post t w1"
  by (cases t) (auto simp: task_ok_Access intro: rely_trans)

lemma ok_step:
  "task_ok rely guar post (Access f) w \<Longrightarrow> f w = (t, w1) \<Longrightarrow> guar w w1 \<and> task_ok rely guar post t w1"
  using rely_refl [of w] by (auto simp: task_ok_Access)

lemma ok_post: "task_ok rely guar post (Answer a) w \<Longrightarrow> post a w"
  by (simp add: rely_refl)

lemma ok_access:
  assumes "\<And>w1. rely w w1 \<Longrightarrow> guar w1 (snd (f w1)) \<and> (\<forall>w2. rely (snd (f w1)) w2 \<longrightarrow> post (fst (f w1)) w2)"
  shows "task_ok rely guar post (access f) w"
  using assms by (force simp: access_def task_ok_Access split: prod.split)

lemma ok_bind:
  assumes "task_ok rely guar mid t w" and "\<And>a w. mid a w \<Longrightarrow> task_ok rely guar post (k a) w"
  shows "task_ok rely guar post (bind_task t k) w"
  using assms(1)
proof (induction t arbitrary: w)
  case (Answer a)
  then have "mid a w" by (rule ok_post)
  with assms(2) show ?case by simp
next
  case (Access f)
  have "guar w1 (snd (f w1)) \<and> task_ok rely guar post (bind_task (fst (f w1)) k) (snd (f w1))" if r: "rely w w1" for w1
  proof -
    have "fst (f w1) \<in> Basic_BNFs.fsts (f w1)" by (cases "f w1") (simp add: fsts.intros)
    from Access.IH [OF rangeI this] Access.prems r show ?thesis by (simp add: task_ok_Access)
  qed
  then show ?case by (simp add: task_ok_Access)
qed

text \<open>What the others cannot break, a task that only does what they may do does not break either.\<close>

lemma ok_frame:
  assumes "task_ok rely rely post t w" and "\<And>w w1. rely w w1 \<Longrightarrow> I w \<Longrightarrow> I w1" and "I w"
  shows "task_ok rely rely (\<lambda>a w. post a w \<and> I w) t w"
  using assms(1,3)
proof (induction t arbitrary: w)
  case (Access f)
  have "rely w1 (snd (f w1)) \<and> task_ok rely rely (\<lambda>a w. post a w \<and> I w) (fst (f w1)) (snd (f w1))" if r: "rely w w1" for w1
  proof -
    have "fst (f w1) \<in> Basic_BNFs.fsts (f w1)" by (cases "f w1") (simp add: fsts.intros)
    from Access.IH [OF rangeI this] Access.prems r assms(2) show ?thesis by (simp add: task_ok_Access) metis
  qed
  then show ?case by (simp add: task_ok_Access)
qed (use assms(2) in auto)

text \<open>A run without interruption is one the others leave alone: its accesses and its answer are as promised.\<close>

lemma ok_run:
  assumes "task_ok rely guar post t w" and "run_task t w = (a, w1)"
  shows "guar\<^sup>*\<^sup>* w w1 \<and> post a w1"
  using assms
proof (induction t arbitrary: w)
  case (Access f)
  obtain t w2 where f: "f w = (t, w2)" by fastforce
  have "t \<in> Basic_BNFs.fsts (f w)" using f by (simp add: fsts.intros)
  from Access.IH [OF rangeI this] ok_step [OF Access.prems(1) f] Access.prems(2) f show ?case
    by (auto simp: run_task_Access intro: converse_rtranclp_into_rtranclp)
qed (auto simp: rely_refl)

end

text \<open>
  A task that needs no promise of the others: whatever they do, all its accesses are changes by \<open>guar\<close> and
  its answer has the property.
\<close>

definition steady :: "('w \<Rightarrow> 'w \<Rightarrow> bool) \<Rightarrow> ('a \<Rightarrow> bool) \<Rightarrow> ('a, 'w) task \<Rightarrow> bool" where
  "steady guar Q t \<longleftrightarrow> (\<forall>w. task_ok (\<lambda>_ _. True) guar (\<lambda>a _. Q a) t w)"

interpretation anarchy: interference "\<lambda>w w1 :: 'w. True"
  by unfold_locales simp_all

lemma steady_Answer: "Q a \<Longrightarrow> steady guar Q (Answer a)"
  by (simp add: steady_def)

lemma steady_access: "(\<And>w. guar w (snd (f w)) \<and> Q (fst (f w))) \<Longrightarrow> steady guar Q (access f)"
  unfolding steady_def by (intro allI anarchy.ok_access) simp

lemma steady_bind: "steady guar R t \<Longrightarrow> (\<And>a. R a \<Longrightarrow> steady guar Q (k a)) \<Longrightarrow> steady guar Q (bind_task t k)"
  unfolding steady_def by (blast intro: anarchy.ok_bind)

lemma steady_step:
  assumes "steady guar Q (Access f)" and "f w = (t, w1)"
  shows "guar w w1 \<and> steady guar Q t"
proof -
  from assms have "guar w w1" "task_ok (\<lambda>_ _. True) guar (\<lambda>a _. Q a) t w1"
    using anarchy.ok_step [of guar "\<lambda>a _. Q a" f w t w1] by (simp_all add: steady_def)
  then show ?thesis using anarchy.ok_stable [of guar "\<lambda>a _. Q a" t w1] by (simp add: steady_def)
qed

lemma steady_weaken: "steady guar Q t \<Longrightarrow> (\<And>a. Q a \<Longrightarrow> R a) \<Longrightarrow> steady guar R t"
proof (induction t)
  case (Access f)
  have "guar w (snd (f w)) \<and> steady guar R (fst (f w))" for w
  proof -
    obtain t w1 where f: "f w = (t, w1)" by fastforce
    have "t \<in> Basic_BNFs.fsts (f w)" using f by (simp add: fsts.intros)
    from Access.IH [OF rangeI this] steady_step [OF Access.prems(1) f] Access.prems(2) f show ?thesis by simp
  qed
  then show ?case by (simp add: steady_def task_ok_Access)
qed (simp add: steady_def)

lemma steady_ok: "steady guar Q t \<Longrightarrow> (\<And>a w. Q a \<Longrightarrow> post a w) \<Longrightarrow> task_ok rely guar post t w"
proof (induction t arbitrary: w)
  case (Access f)
  have "guar w1 (snd (f w1)) \<and> task_ok rely guar post (fst (f w1)) (snd (f w1))" for w1
  proof -
    obtain t w2 where f: "f w1 = (t, w2)" by fastforce
    have "t \<in> Basic_BNFs.fsts (f w1)" using f by (simp add: fsts.intros)
    from Access.IH [OF rangeI this] steady_step [OF Access.prems(1) f] Access.prems(2) f show ?thesis by simp
  qed
  then show ?case by (simp add: task_ok_Access)
qed (simp add: steady_def)

end
