(* ===== verification/Tasks.thy ===== *)
theory Tasks imports Resumption Api Pending Recovery begin

text \<open>
  The operations of the program that access the database, Redis or the host more than once, as tasks:
  one access per call, in the order of the code, so that the theory \<open>Interleaving\<close> can put the steps of the
  others between them. Each task is shown to be the operation of its component when nobody interferes; a
  run of a program in its own container is one access of the host.
\<close>

type_synonym ('a, 'q, 'h) wtask = "('a, ('q, 'h) world) task"

definition on_db :: "(database \<Rightarrow> 'a \<times> database) \<Rightarrow> ('a, 'q, 'h) wtask" where
  "on_db f = access (\<lambda>w. case f (wd_db w) of (a, d) \<Rightarrow> (a, w\<lparr>wd_db := d\<rparr>))"

definition on_queue :: "('q \<Rightarrow> 'a \<times> 'q) \<Rightarrow> ('a, 'q, 'h) wtask" where
  "on_queue f = access (\<lambda>w. case f (wd_queue w) of (a, s) \<Rightarrow> (a, w\<lparr>wd_queue := s\<rparr>))"

definition on_host :: "('h \<Rightarrow> 'a \<times> 'h) \<Rightarrow> ('a, 'q, 'h) wtask" where
  "on_host f = access (\<lambda>w. case f (wd_host w) of (a, h) \<Rightarrow> (a, w\<lparr>wd_host := h\<rparr>))"

lemma run_on [simp]:
  "run_task (on_db f) w = (case f (wd_db w) of (a, d) \<Rightarrow> (a, w\<lparr>wd_db := d\<rparr>))"
  "run_task (on_queue g) w = (case g (wd_queue w) of (a, s) \<Rightarrow> (a, w\<lparr>wd_queue := s\<rparr>))"
  "run_task (on_host h) w = (case h (wd_host w) of (a, h1) \<Rightarrow> (a, w\<lparr>wd_host := h1\<rparr>))"
  by (simp_all add: on_db_def on_queue_def on_host_def)

section \<open>The API\<close>

definition health_ready_task :: "('q, 'h) api \<Rightarrow> request \<Rightarrow> (reply, 'q, 'h) wtask" where
  "health_ready_task A r =
     (if ap_shuttingDown A then Answer (unavailable ''shutting_down'')
      else if ap_has_db A
      then bind_task (on_db ping_db) (\<lambda>err.
             case err of
               Some e \<Rightarrow> Answer (unavailable ''postgres_unavailable'')
             | None \<Rightarrow> access (ready_redis A r))
      else access (ready_redis A r))"

text \<open>The ULID and the time, the row, the entry of the queue.\<close>

definition create_task :: "('q, 'h) api \<Rightarrow> job_request \<Rightarrow> (goerror + execution_job, 'q, 'h) wtask" where
  "create_task A req =
     bind_task (on_host (ap_new_id A)) (\<lambda>(ulid, now).
       if jr_Language req = [] \<or> jr_SourceCode req = []
       then Answer (Inl (ErrMsg ''language and source_code are required''))
       else (case get_executor (ap_registry A) (jr_Language req) of
               Inl err \<Rightarrow> Answer (Inl (ErrMsg (''unsupported language: '' @ jr_Language req)))
             | Inr ex \<Rightarrow>
                 (let job = new_job ulid now req
                  in bind_task (on_db (pg_create job)) (\<lambda>err.
                       case err of
                         Some e \<Rightarrow> Answer (Inl (Wrapped ''failed to store job: '' e []))
                       | None \<Rightarrow>
                           bind_task (on_queue (enqueue (ap_redis A) (ap_queue A) (ej_ID job) ''run'')) (\<lambda>err.
                             case err of
                               Some e \<Rightarrow> Answer (Inl e)
                             | None \<Rightarrow> Answer (Inr (clone_job job)))))))"

definition execute_task :: "('q, 'h) api \<Rightarrow> request \<Rightarrow> (reply, 'q, 'h) wtask" where
  "execute_task A r =
     (if ap_shuttingDown A then Answer (ErrorReply 503 ''Service Unavailable - Shutting Down'')
      else if hq_method r \<noteq> ''POST'' then Answer (ErrorReply 405 ''Method not allowed'')
      else case ap_job_request A (hq_body r) of
             Inl err \<Rightarrow> Answer (ErrorReply 400 ''Invalid JSON body'')
           | Inr req \<Rightarrow>
               bind_task (create_task A req) (\<lambda>res.
                 case res of
                   Inl err \<Rightarrow> Answer (create_failure err)
                 | Inr job \<Rightarrow> Answer (JsonReply True (Some 202) (AcceptedValue (ej_ID job) (ej_Status job)))))"

fun create_test_cases_task :: "string \<Rightarrow> nat \<Rightarrow> test_case list \<Rightarrow> (goerror + test_case list, 'q, 'h) wtask" where
  "create_test_cases_task problemID i [] = Answer (Inr [])"
| "create_test_cases_task problemID i (t # ts) =
     bind_task (on_db (test_case_create (numbered_case problemID i t))) (\<lambda>res.
       case res of
         Inl err \<Rightarrow> Answer (Inl err)
       | Inr t1 \<Rightarrow>
           bind_task (create_test_cases_task problemID (Suc i) ts) (\<lambda>res.
             case res of Inl err \<Rightarrow> Answer (Inl err) | Inr ts1 \<Rightarrow> Answer (Inr (t1 # ts1))))"

definition create_full_problem_task :: "('q, 'h) api \<Rightarrow> request \<Rightarrow> (reply, 'q, 'h) wtask" where
  "create_full_problem_task A r =
     (case ap_full_problem A (hq_body r) of
        Inl err \<Rightarrow> Answer (error_reply 400 err)
      | Inr req \<Rightarrow>
          bind_task (on_db (problem_create (fp_Problem req))) (\<lambda>res.
            case res of
              Inl err \<Rightarrow> Answer (ErrorReply 500 (''failed to create problem: '' @ error_text err))
            | Inr p \<Rightarrow>
                bind_task (create_test_cases_task (pb_ID p) 0 (elems (fp_TestCases req))) (\<lambda>res.
                  case res of
                    Inl err \<Rightarrow> Answer (ErrorReply 500 (''failed to create test case: '' @ error_text err))
                  | Inr ts \<Rightarrow>
                      Answer (JsonReply False (Some 201) (FullProblemValue p (map_option (\<lambda>_. ts) (fp_TestCases req)))))))"

definition get_problem_task :: "('q, 'h) api \<Rightarrow> request \<Rightarrow> (reply, 'q, 'h) wtask" where
  "get_problem_task A r =
     bind_task (on_db (problem_get_by_id (path_value r ''id''))) (\<lambda>res.
       case res of
         Inl err \<Rightarrow>
           Answer (if err = ErrProblemNotFound then ErrorReply 404 ''problem not found'' else error_reply 500 err)
       | Inr p \<Rightarrow>
           bind_task (on_db (test_case_get_by_problem_id (path_value r ''id'') False)) (\<lambda>res.
             case res of
               Inl err \<Rightarrow> Answer (error_reply 500 err)
             | Inr ts \<Rightarrow> Answer (JsonReply True None (ProblemPage p ts))))"

definition store_submission_task :: "('q, 'h) api \<Rightarrow> submission \<Rightarrow> (reply, 'q, 'h) wtask" where
  "store_submission_task A sub =
     bind_task (on_db (submission_create sub)) (\<lambda>res.
       case res of
         Inl err \<Rightarrow> Answer (ErrorReply 500 ''failed to create submission'')
       | Inr sub1 \<Rightarrow>
           bind_task (on_queue (enqueue (ap_redis A) (ap_queue A) (sb_ID sub1) ''submission'')) (\<lambda>err.
             case err of
               Some e \<Rightarrow> Answer (ErrorReply 500 ''failed to queue submission'')
             | None \<Rightarrow> Answer (JsonReply False (Some 202) (SubmissionValue sub1))))"

definition create_submission_task :: "('q, 'h) api \<Rightarrow> request \<Rightarrow> (reply, 'q, 'h) wtask" where
  "create_submission_task A r =
     (case ap_submission_request A (hq_body r) of
        Inl err \<Rightarrow> Answer (ErrorReply 400 ''invalid request format'')
      | Inr req \<Rightarrow>
          bind_task (on_db (problem_get_by_id (path_value r ''id''))) (\<lambda>res.
            case res of
              Inl err \<Rightarrow>
                Answer (if err = ErrProblemNotFound then ErrorReply 404 ''problem not found''
                        else ErrorReply 500 ''internal error checking problem'')
            | Inr p \<Rightarrow>
                if pb_Status p \<noteq> ProblemStatusPublished then Answer (ErrorReply 400 ''problem is not published'')
                else case get_executor (ap_registry A) (cs_Language req) of
                       Inl err \<Rightarrow> Answer (ErrorReply 400 ''unsupported language'')
                     | Inr ex \<Rightarrow> store_submission_task A (new_submission p req)))"

definition create_run_task :: "('q, 'h) api \<Rightarrow> request \<Rightarrow> (reply, 'q, 'h) wtask" where
  "create_run_task A r =
     (case ap_run_request A (hq_body r) of
        Inl err \<Rightarrow> Answer (ErrorReply 400 ''invalid request format'')
      | Inr req \<Rightarrow>
          (case get_executor (ap_registry A) (cr_Language req) of
             Inl err \<Rightarrow> Answer (ErrorReply 400 ''unsupported language'')
           | Inr ex \<Rightarrow>
               bind_task (create_task A \<lparr>jr_Language = cr_Language req, jr_SourceCode = cr_SourceCode req,
                            jr_Inputs = cr_Inputs req\<rparr>) (\<lambda>res.
                 case res of
                   Inl err \<Rightarrow> Answer (ErrorReply 500 ''failed to create run'')
                 | Inr job \<Rightarrow>
                     Answer (JsonReply False (Some 202)
                       (StringMap [(''id'', ej_ID job), (''status'', status_text (ej_Status job))])))))"

text \<open>The handlers that access the shared state at most once are one access.\<close>

fun endpoint_task :: "api_target \<Rightarrow> (('q, 'h) api \<Rightarrow> request \<Rightarrow> (reply, 'q, 'h) wtask) option" where
  "endpoint_task HealthReady = Some health_ready_task"
| "endpoint_task Execute = Some execute_task"
| "endpoint_task CreateFullProblem = Some create_full_problem_task"
| "endpoint_task GetProblem = Some get_problem_task"
| "endpoint_task CreateSubmission = Some create_submission_task"
| "endpoint_task CreateRun = Some create_run_task"
| "endpoint_task t = map_option (\<lambda>h A r. access (h A r)) (endpoint_of t)"

definition request_task :: "('q, 'h) api \<Rightarrow> request \<Rightarrow> (answer, 'q, 'h) wtask" where
  "request_task A r =
     (case mux_lookup api_routes r of
        RedirectToClean \<Rightarrow> Answer Redirected
      | MethodNotAllowed \<Rightarrow> Answer (Answered (ErrorReply 405 ''Method Not Allowed''))
      | NotFound \<Rightarrow> Answer (Answered (ErrorReply 404 ''404 page not found''))
      | Route t vars \<Rightarrow>
          (case endpoint_task t of
             None \<Rightarrow> Answer (Upgrading t vars)
           | Some h \<Rightarrow> bind_task (h A (r\<lparr>hq_vars := vars\<rparr>)) (\<lambda>rep. Answer (Answered rep))))"

section \<open>The recovery service\<close>

fun dispatch_loop_task :: "'q redis_client \<Rightarrow> redis_queue \<Rightarrow> string list \<Rightarrow> (unit, 'q, 'h) wtask" where
  "dispatch_loop_task C q [] = Answer ()"
| "dispatch_loop_task C q (i # ids) =
     bind_task (on_queue (enqueue C q i ''run'')) (\<lambda>err.
       case err of
         Some e \<Rightarrow> dispatch_loop_task C q ids
       | None \<Rightarrow>
           bind_task (on_db (\<lambda>d. ((), mark_dispatched i d))) (\<lambda>u. dispatch_loop_task C q ids))"

definition dispatch_task :: "'q redis_client \<Rightarrow> redis_queue \<Rightarrow> (unit, 'q, 'h) wtask" where
  "dispatch_task C q =
     bind_task (on_db (run_stmt (query (\<lambda>d. Inr (map er_id (take dispatch_limit
             (filter (dispatch_where (db_now d)) (db_executions d)))))))) (\<lambda>res.
       case res of
         Inl err \<Rightarrow> Answer ()
       | Inr ids \<Rightarrow> dispatch_loop_task C q ids)"

definition tick_task :: "'q redis_client \<Rightarrow> redis_queue \<Rightarrow> int \<Rightarrow> (unit, 'q, 'h) wtask" where
  "tick_task C q timeout =
     bind_task (on_db (\<lambda>d. ((), recover_abandoned_jobs d))) (\<lambda>u.
     bind_task (dispatch_task C q) (\<lambda>u.
     on_db (\<lambda>d. ((), mark_stale_workers timeout d))))"

section \<open>The sweep over pending messages\<close>

definition xack_task :: "'q redis_client \<Rightarrow> pending_recovery \<Rightarrow> string \<Rightarrow> (unit, 'q, 'h) wtask" where
  "xack_task C pr i = on_queue (\<lambda>s. ((), xack C pr i s))"

definition handle_pending_task :: "'q redis_client \<Rightarrow> pending_recovery \<Rightarrow> stream_message \<Rightarrow> (unit, 'q, 'h) wtask" where
  "handle_pending_task C pr msg =
     (case sm_Values msg ''job_id'' of
        None \<Rightarrow> xack_task C pr (sm_ID msg)
      | Some jobID \<Rightarrow>
          bind_task (on_db (pg_get jobID)) (\<lambda>res.
            case res of
              Inl err \<Rightarrow> if err = ErrJobNotFound then xack_task C pr (sm_ID msg) else Answer ()
            | Inr job \<Rightarrow>
                if ej_Status job = JobCompleted then xack_task C pr (sm_ID msg)
                else if ej_Status job = JobRunning then xack_task C pr (sm_ID msg)
                else if ej_Status job = JobQueued
                then bind_task (xack_task C pr (sm_ID msg)) (\<lambda>u.
                     bind_task (on_queue (enqueue C (pc_queue pr) jobID ''run'')) (\<lambda>err. Answer ()))
                else Answer ()))"

fun handle_all_task :: "'q redis_client \<Rightarrow> pending_recovery \<Rightarrow> stream_message list \<Rightarrow> (unit, 'q, 'h) wtask" where
  "handle_all_task C pr [] = Answer ()"
| "handle_all_task C pr (m # ms) = bind_task (handle_pending_task C pr m) (\<lambda>u. handle_all_task C pr ms)"

text \<open>\<open>None\<close>: the fuel did not suffice.\<close>

fun sweep_task :: "'q redis_client \<Rightarrow> pending_recovery \<Rightarrow> nat \<Rightarrow> string \<Rightarrow> (unit option, 'q, 'h) wtask" where
  "sweep_task C pr 0 start = Answer None"
| "sweep_task C pr (Suc fuel) start =
     bind_task (on_queue (rx_XAutoClaim C (pc_stream pr) (pc_group pr) ''system-recovery'' (pc_idleTimeout pr) start
                  (pc_claimBatchSize pr))) (\<lambda>res.
       case res of
         Inl err \<Rightarrow> Answer (Some ())
       | Inr (msgs, nextStart) \<Rightarrow>
           bind_task (handle_all_task C pr msgs) (\<lambda>u.
             if nextStart = ''0-0'' \<or> msgs = [] then Answer (Some ())
             else sweep_task C pr fuel nextStart))"

section \<open>The judge\<close>

definition save_task :: "('q, 'h) engine \<Rightarrow> submission \<Rightarrow> (unit, 'q, 'h) wtask" where
  "save_task E sub =
     bind_task (on_db (submission_update sub)) (\<lambda>err.
       case en_json E sub of
         None \<Rightarrow> Answer ()
       | Some payload \<Rightarrow>
           bind_task (on_queue (publish_job_update (en_redis E) (sb_ID sub) payload)) (\<lambda>err. Answer ()))"

definition finalize_task :: "('q, 'h) engine \<Rightarrow> submission \<Rightarrow> (unit, 'q, 'h) wtask" where
  "finalize_task E sub =
     bind_task (on_host (\<lambda>h. (en_clock E h, h))) (\<lambda>now.
       (let sub1 = sub\<lparr>sb_CompletedAt := Some now\<rparr>;
            sub2 = (if sb_Status sub1 = SubmissionStatusRunning then sub1\<lparr>sb_Status := SubmissionStatusCompleted\<rparr> else sub1)
        in save_task E sub2))"

definition judge_fetched_task :: "('q, 'h) engine \<Rightarrow> submission \<Rightarrow> (goerror option \<times> submission, 'q, 'h) wtask" where
  "judge_fetched_task E sub =
     bind_task (on_db (problem_get_by_id (sb_ProblemID sub))) (\<lambda>res.
       case res of
         Inl err \<Rightarrow> Answer (Some (Wrapped ''failed to get problem: '' err []), sub\<lparr>sb_Verdict := VerdictInternalError\<rparr>)
       | Inr prob \<Rightarrow>
           bind_task (on_db (test_case_get_by_problem_id (pb_ID prob) True)) (\<lambda>res.
             case res of
               Inl err \<Rightarrow>
                 Answer (Some (Wrapped ''failed to get test cases: '' err []), sub\<lparr>sb_Verdict := VerdictInternalError\<rparr>)
             | Inr tcs \<Rightarrow>
                 on_host (\<lambda>h. let (ret, sub1, h1) = judge_problem E prob tcs sub h in ((ret, sub1), h1))))"

definition judge_task :: "('q, 'h) engine \<Rightarrow> string \<Rightarrow> (goerror option, 'q, 'h) wtask" where
  "judge_task E submissionID =
     bind_task (on_db (submission_get_by_id submissionID)) (\<lambda>res.
       case res of
         Inl err \<Rightarrow> Answer (Some (Wrapped ''failed to get submission: '' err []))
       | Inr sub0 \<Rightarrow>
           (let sub = sub0\<lparr>sb_Status := SubmissionStatusRunning\<rparr>
            in bind_task (save_task E sub) (\<lambda>u.
               bind_task (judge_fetched_task E sub) (\<lambda>(ret, sub1).
               bind_task (finalize_task E sub1) (\<lambda>u. Answer ret)))))"

section \<open>Without interference\<close>

lemma world_eta [simp]: "w\<lparr>wd_db := wd_db w\<rparr> = w" "w\<lparr>wd_queue := wd_queue w\<rparr> = w" "w\<lparr>wd_host := wd_host w\<rparr> = w"
  for w :: "('q, 'h) world"
  by simp_all

lemma run_health_ready_task: "run_task (health_ready_task A r) w = handle_health_ready A r w"
  by (simp add: health_ready_task_def handle_health_ready_def split: prod.split option.split)

lemma run_create_task: "run_task (create_task A req) w = call_create A req w"
  by (auto simp: create_task_def call_create_def create_execution_def Let_def split: prod.split sum.split option.split)

lemma run_execute_task: "run_task (execute_task A r) w = guarded_execute A r w"
  by (auto simp: execute_task_def guarded_execute_def handle_execute_def run_create_task split: prod.split sum.split)

lemma run_create_test_cases_task:
  "run_task (create_test_cases_task i n ts) w = (case create_test_cases i n ts (wd_db w) of (x, d) \<Rightarrow> (x, w\<lparr>wd_db := d\<rparr>))"
  by (induction ts arbitrary: n w) (auto split: prod.split sum.split)

lemma run_create_full_problem_task: "run_task (create_full_problem_task A r) w = create_full_problem A r w"
  by (auto simp: create_full_problem_task_def create_full_problem_def run_create_test_cases_task split: prod.split sum.split)

lemma run_get_problem_task: "run_task (get_problem_task A r) w = get_problem A r w"
  by (auto simp: get_problem_task_def get_problem_def split: prod.split sum.split)

lemma run_store_submission_task: "run_task (store_submission_task A sub) w = store_submission A sub w"
  by (auto simp: store_submission_task_def store_submission_def split: prod.split sum.split option.split)

lemma run_create_submission_task: "run_task (create_submission_task A r) w = create_submission A r w"
  by (auto simp: create_submission_task_def create_submission_def run_store_submission_task split: prod.split sum.split)

lemma run_create_run_task: "run_task (create_run_task A r) w = create_run A r w"
  by (auto simp: create_run_task_def create_run_def run_create_task split: prod.split sum.split)

lemmas run_endpoint_tasks = run_health_ready_task run_execute_task run_create_full_problem_task run_get_problem_task
  run_create_submission_task run_create_run_task

lemma endpoint_task_of:
  "rel_option (\<lambda>t h. \<forall>A r w. run_task (t A r) w = h A r w) (endpoint_task x) (endpoint_of x)"
  by (cases x) (simp_all add: run_endpoint_tasks)

lemma run_request_task:
  fixes A :: "('q, 'h) api"
  shows "run_task (request_task A r) w = api_request A r w"
proof (cases "mux_lookup api_routes r")
  case (Route t vars)
  from endpoint_task_of [of t, where 'a = 'q and 'b = 'h] show ?thesis
    by (cases rule: option.rel_cases) (simp_all add: Route request_task_def api_request_def)
qed (simp_all add: request_task_def api_request_def)

lemma run_dispatch_loop_task:
  "run_task (dispatch_loop_task C q ids) w =
     (case dispatch_loop C q ids (wd_db w, wd_queue w) of (d, s) \<Rightarrow> ((), w\<lparr>wd_db := d, wd_queue := s\<rparr>))"
  by (induction ids arbitrary: w) (auto split: prod.split option.split)

lemma run_tick_task:
  "run_task (tick_task C q timeout) w =
     (case recovery_tick C q timeout (wd_db w, wd_queue w) of (d, s) \<Rightarrow> ((), w\<lparr>wd_db := d, wd_queue := s\<rparr>))"
  by (auto simp: tick_task_def dispatch_task_def recovery_tick_def dispatch_delayed_jobs_def run_dispatch_loop_task Let_def
      split: prod.split sum.split)

lemma run_handle_pending_task:
  "run_task (handle_pending_task C pr m) w =
     (case handle_pending C pr m (wd_db w, wd_queue w) of (d, s) \<Rightarrow> ((), w\<lparr>wd_db := d, wd_queue := s\<rparr>))"
  by (auto simp: handle_pending_task_def handle_pending_def xack_task_def Let_def split: option.split prod.split sum.split)

lemma run_handle_all_task:
  "run_task (handle_all_task C pr ms) w =
     (case handle_all C pr ms (wd_db w, wd_queue w) of (d, s) \<Rightarrow> ((), w\<lparr>wd_db := d, wd_queue := s\<rparr>))"
  by (induction ms arbitrary: w) (auto simp: run_handle_pending_task split: prod.split)

lemma run_sweep_task:
  "run_recovery C pr fuel start (wd_db w, wd_queue w) = Some (d, s) \<Longrightarrow>
     run_task (sweep_task C pr fuel start) w = (Some (), w\<lparr>wd_db := d, wd_queue := s\<rparr>)"
  by (induction fuel arbitrary: start w)
    (auto simp: run_handle_all_task Let_def split: prod.splits sum.splits if_splits)

lemma run_save_task: "run_task (save_task E sub) w = ((), save_and_publish E sub w)"
  by (auto simp: save_task_def save_and_publish_def Let_def split: option.split prod.split)

lemma run_finalize_task: "run_task (finalize_task E sub) w = ((), finalize E sub w)"
  by (simp add: finalize_task_def finalize_def run_save_task Let_def)

lemma run_judge_fetched_task:
  "run_task (judge_fetched_task E sub) w = (case judge_fetched E sub w of (ret, sub1, w1) \<Rightarrow> ((ret, sub1), w1))"
  by (auto simp: judge_fetched_task_def judge_fetched_def Let_def split: prod.split sum.split)

lemma run_judge_task: "run_task (judge_task E i) w = judge E i w"
  by (auto simp: judge_task_def judge_def run_save_task run_judge_fetched_task run_finalize_task Let_def
      split: prod.split sum.split)

lemmas run_tasks = run_request_task run_tick_task run_sweep_task run_judge_task

end
