(* ===== verification/Interleaving.thy ===== *)
theory Interleaving imports Tasks Catalog begin

text \<open>
  The running system, one access at a time: like \<open>System\<close>, but a request, a tick of the recovery service, a
  sweep and a judgement are tasks whose accesses interleave with those of everybody else. Every access is
  shown to be a change of the kind \<open>moves\<close>, every step of \<open>System\<close> a sequence of these steps.
\<close>

section \<open>States and steps\<close>

text \<open>
  A worker with its message and, while it judges, what is left of the call of \<^verbatim>\<open>Judge\<close>; the requests being
  served, each by its server; the ticks and sweeps at work.
\<close>

datatype ('q, 'h) call =
    Serving "('q, 'h) api" request "(answer, 'q, 'h) wtask"
  | Background "(unit, 'q, 'h) wtask"

record ('q, 'h) running =
  rn_world :: "('q, 'h) world"
  rn_workers :: "(thread \<times> (goerror option, 'q, 'h) wtask option) list"
  rn_calls :: "('q, 'h) call list"

definition at_work :: "('q, 'h) world \<Rightarrow> (thread \<times> (goerror option, 'q, 'h) wtask option) list \<Rightarrow> ('q, 'h) call list
    \<Rightarrow> ('q, 'h) running" where
  "at_work w ws cs = \<lparr>rn_world = w, rn_workers = ws, rn_calls = cs\<rparr>"

inductive access_step ::
  "('q, 'h) pool \<Rightarrow> pending_recovery \<Rightarrow> ('q, 'h) running \<Rightarrow> ('q, 'h) running \<Rightarrow> bool" for P pr where
  receive: "consume (pl_redis P) (pl_queue P) flag worker polls 0 (wd_queue w) = Some (Inr msg, s) \<Longrightarrow>
    worker \<notin> (th_worker \<circ> fst) ` set ws \<Longrightarrow>
    access_step P pr (at_work w ws cs) (at_work (w\<lparr>wd_queue := s\<rparr>) ((start_thread msg worker, None) # ws) cs)"
| run: "i < length ws \<Longrightarrow> ws ! i = (th, None) \<Longrightarrow> th_pc th \<noteq> AtJudge \<Longrightarrow> run_step P th w = (th1, w1) \<Longrightarrow>
    access_step P pr (at_work w ws cs) (at_work w1 (ws[i := (th1, None)]) cs)"
| judge_call: "i < length ws \<Longrightarrow> ws ! i = (th, None) \<Longrightarrow> th_pc th = AtJudge \<Longrightarrow>
    access_step P pr (at_work w ws cs)
      (at_work w (ws[i := (th, Some (judge_task (pl_engine P) (qm_JobID (th_msg th))))]) cs)"
| judge_access: "i < length ws \<Longrightarrow> ws ! i = (th, Some (Access f)) \<Longrightarrow> f w = (t, w1) \<Longrightarrow>
    access_step P pr (at_work w ws cs) (at_work w1 (ws[i := (th, Some t)]) cs)"
| judge_return: "i < length ws \<Longrightarrow> ws ! i = (th, Some (Answer ret)) \<Longrightarrow>
    access_step P pr (at_work w ws cs) (at_work w (ws[i := (th\<lparr>th_pc := AtAck\<rparr>, None)]) cs)"
| renew: "i < length ws \<Longrightarrow> ws ! i = (th, c) \<Longrightarrow> renewing th \<Longrightarrow> renew_step th (wd_db w) = (th1, d) \<Longrightarrow>
    access_step P pr (at_work w ws cs) (at_work (w\<lparr>wd_db := d\<rparr>) (ws[i := (th1, c)]) cs)"
| cancel: "i < length ws \<Longrightarrow> ws ! i = (th, c) \<Longrightarrow>
    access_step P pr (at_work w ws cs) (at_work w (ws[i := (th\<lparr>th_cancelled := True\<rparr>, c)]) cs)"
| panic: "i < length ws \<Longrightarrow> ws ! i = (th, c) \<Longrightarrow> recover_panic th (wd_db w) = (th1, d) \<Longrightarrow>
    access_step P pr (at_work w ws cs) (at_work (w\<lparr>wd_db := d\<rparr>) (ws[i := (th1, None)]) cs)"
| leave: "access_step P pr (at_work w (us @ x # ws) cs) (at_work w (us @ ws) cs)"
| request: "access_step P pr (at_work w ws cs) (at_work w ws (Serving A r (request_task A r) # cs))"
| tick: "access_step P pr (at_work w ws cs)
    (at_work w ws (Background (tick_task (pl_redis P) (pl_queue P) timeout) # cs))"
| sweep: "access_step P pr (at_work w ws cs)
    (at_work w ws (Background (bind_task (sweep_task (pl_redis P) pr fuel start) (\<lambda>u. Answer ())) # cs))"
| serve: "i < length cs \<Longrightarrow> cs ! i = Serving A r (Access f) \<Longrightarrow> f w = (t, w1) \<Longrightarrow>
    access_step P pr (at_work w ws cs) (at_work w1 ws (cs[i := Serving A r t]))"
| work: "i < length cs \<Longrightarrow> cs ! i = Background (Access f) \<Longrightarrow> f w = (t, w1) \<Longrightarrow>
    access_step P pr (at_work w ws cs) (at_work w1 ws (cs[i := Background t]))"
| gone: "access_step P pr (at_work w ws (us @ c # cs)) (at_work w ws (us @ cs))"
| beat: "access_step P pr (at_work w ws cs) (at_work (w\<lparr>wd_db := heartbeat_tick worker (wd_db w)\<rparr>) ws cs)"
| report: "access_step P pr (at_work w ws cs)
    (at_work (w\<lparr>wd_db := snd (heartbeat_update_status worker st (wd_db w))\<rparr>) ws cs)"
| outside: "later (wd_db w) d \<Longrightarrow>
    access_step P pr (at_work w ws cs) (at_work (w\<lparr>wd_db := d, wd_queue := s, wd_host := h\<rparr>) ws cs)"

lemma at_work_sel [simp]:
  "rn_world (at_work w ws cs) = w" "rn_workers (at_work w ws cs) = ws" "rn_calls (at_work w ws cs) = cs"
  by (simp_all add: at_work_def)

lemma at_work_eq [simp]: "at_work w ws cs = at_work w1 ws1 cs1 \<longleftrightarrow> w = w1 \<and> ws = ws1 \<and> cs = cs1"
  by (auto simp: at_work_def)

lemma at_work_all: "s = at_work (rn_world s) (rn_workers s) (rn_calls s)"
  by (simp add: at_work_def)

section \<open>The steps of \<open>System\<close> are schedules of these\<close>

lemma serve_all:
  assumes "run_task t w = (a, w1)"
  shows "(access_step P pr)\<^sup>*\<^sup>* (at_work w ws (Serving A r t # cs)) (at_work w1 ws (Serving A r (Answer a) # cs))"
  using assms
proof (induction t arbitrary: w)
  case (Access f)
  obtain t w2 where f: "f w = (t, w2)" by fastforce
  have "t \<in> Basic_BNFs.fsts (f w)" using f by (simp add: fsts.intros)
  from Access.IH [OF rangeI this] Access.prems f
  have "(access_step P pr)\<^sup>*\<^sup>* (at_work w2 ws (Serving A r t # cs)) (at_work w1 ws (Serving A r (Answer a) # cs))"
    by (simp add: run_task_Access)
  moreover have "access_step P pr (at_work w ws (Serving A r (Access f) # cs)) (at_work w2 ws (Serving A r t # cs))"
    using access_step.serve [of 0 "Serving A r (Access f) # cs" A r f w t w2 P pr ws] f by simp
  ultimately show ?case by (rule converse_rtranclp_into_rtranclp [rotated])
qed simp

lemma work_all:
  assumes "run_task t w = (a, w1)"
  shows "(access_step P pr)\<^sup>*\<^sup>* (at_work w ws (Background t # cs)) (at_work w1 ws (Background (Answer a) # cs))"
  using assms
proof (induction t arbitrary: w)
  case (Access f)
  obtain t w2 where f: "f w = (t, w2)" by fastforce
  have "t \<in> Basic_BNFs.fsts (f w)" using f by (simp add: fsts.intros)
  from Access.IH [OF rangeI this] Access.prems f
  have "(access_step P pr)\<^sup>*\<^sup>* (at_work w2 ws (Background t # cs)) (at_work w1 ws (Background (Answer a) # cs))"
    by (simp add: run_task_Access)
  moreover have "access_step P pr (at_work w ws (Background (Access f) # cs)) (at_work w2 ws (Background t # cs))"
    using access_step.work [of 0 "Background (Access f) # cs" f w t w2 P pr ws] f by simp
  ultimately show ?case by (rule converse_rtranclp_into_rtranclp [rotated])
qed simp

lemma judge_all:
  assumes "run_task t w = (a, w1)" and "i < length ws"
  shows "(access_step P pr)\<^sup>*\<^sup>* (at_work w (ws[i := (th, Some t)]) cs) (at_work w1 (ws[i := (th, Some (Answer a))]) cs)"
  using assms(1)
proof (induction t arbitrary: w)
  case (Access f)
  obtain t w2 where f: "f w = (t, w2)" by fastforce
  have "t \<in> Basic_BNFs.fsts (f w)" using f by (simp add: fsts.intros)
  from Access.IH [OF rangeI this] Access.prems f
  have "(access_step P pr)\<^sup>*\<^sup>* (at_work w2 (ws[i := (th, Some t)]) cs) (at_work w1 (ws[i := (th, Some (Answer a))]) cs)"
    by (simp add: run_task_Access)
  moreover have "access_step P pr (at_work w (ws[i := (th, Some (Access f))]) cs) (at_work w2 (ws[i := (th, Some t)]) cs)"
    using access_step.judge_access [of i "ws[i := (th, Some (Access f))]" th f w t w2 P pr cs] f assms(2) by simp
  ultimately show ?case by (rule converse_rtranclp_into_rtranclp [rotated])
qed simp

definition idle :: "thread \<Rightarrow> thread \<times> (goerror option, 'q, 'h) wtask option" where
  "idle th = (th, None)"

lemma request_runs:
  assumes "api_request A r w = (ans, w1)"
  shows "(access_step P pr)\<^sup>*\<^sup>* (at_work w ws cs) (at_work w1 ws cs)"
proof -
  have "(access_step P pr)\<^sup>*\<^sup>* (at_work w ws (Serving A r (request_task A r) # cs)) (at_work w1 ws (Serving A r (Answer ans) # cs))"
    by (rule serve_all) (simp add: run_request_task assms)
  then show ?thesis
    using access_step.request [of P pr w ws cs A r] access_step.gone [of P pr w1 ws "[]" "Serving A r (Answer ans)" cs]
    by (simp add: converse_rtranclp_into_rtranclp rtranclp.rtrancl_into_rtrancl)
qed

lemma background_runs:
  assumes "access_step P pr (at_work w ws cs) (at_work w ws (Background t # cs))" and "run_task t w = ((), w1)"
  shows "(access_step P pr)\<^sup>*\<^sup>* (at_work w ws cs) (at_work w1 ws cs)"
  using converse_rtranclp_into_rtranclp [OF assms(1) work_all [OF assms(2)]]
    access_step.gone [of P pr w1 ws "[]" "Background (Answer ())" cs]
  by (simp add: rtranclp.rtrancl_into_rtrancl)

lemma judge_runs:
  assumes "i < length ws" and "ws ! i = (th, None)" and "th_pc th = AtJudge" and "run_step P th w = (th1, w1)"
  shows "(access_step P pr)\<^sup>*\<^sup>* (at_work w ws cs) (at_work w1 (ws[i := (th1, None)]) cs)"
proof -
  let ?t = "judge_task (pl_engine P) (qm_JobID (th_msg th))"
  obtain ret where j: "judge (pl_engine P) (qm_JobID (th_msg th)) w = (ret, w1)" and th1: "th1 = th\<lparr>th_pc := AtAck\<rparr>"
    using assms(3,4) by (auto simp: run_step_def) (metis prod.collapse)
  note access_step.judge_call [OF assms(1-3), of P pr w cs]
  also have "(access_step P pr)\<^sup>*\<^sup>* (at_work w (ws[i := (th, Some ?t)]) cs) (at_work w1 (ws[i := (th, Some (Answer ret))]) cs)"
    by (rule judge_all) (simp_all add: run_judge_task j assms(1))
  also have "access_step P pr (at_work w1 (ws[i := (th, Some (Answer ret))]) cs) (at_work w1 (ws[i := (th1, None)]) cs)"
    using access_step.judge_return [of i "ws[i := (th, Some (Answer ret))]" th ret P pr w1 cs] assms(1) th1 by simp
  finally show ?thesis by simp
qed

lemma system_step_schedules:
  assumes "sys_step P pr (w, ths) (w1, ths1)"
  shows "(access_step P pr)\<^sup>*\<^sup>* (at_work w (map idle ths) cs) (at_work w1 (map idle ths1) cs)"
  using assms
proof (cases rule: sys_step.cases)
  case (receive flag worker polls msg s)
  then show ?thesis
    using access_step.receive [of P flag worker polls w msg s "map idle ths" pr cs] by (auto simp: idle_def image_comp comp_def)
next
  case (run i th)
  then show ?thesis
  proof (cases "th_pc (ths ! i) = AtJudge")
    case True
    with run judge_runs [of i "map idle ths" "ths ! i" P w th w1 pr cs] show ?thesis by (simp add: idle_def map_update)
  next
    case False
    with run access_step.run [of i "map idle ths" "ths ! i" P w th w1 pr cs] show ?thesis
      by (simp add: idle_def map_update r_into_rtranclp)
  qed
next
  case (renew i th d)
  then show ?thesis using access_step.renew [of i "map idle ths" "ths ! i" None w th d P pr cs]
    by (simp add: idle_def map_update r_into_rtranclp)
next
  case (cancel i)
  then show ?thesis using access_step.cancel [of i "map idle ths" "ths ! i" None P pr w cs]
    by (simp add: idle_def map_update r_into_rtranclp)
next
  case (panic i th d)
  then show ?thesis using access_step.panic [of i "map idle ths" "ths ! i" None w th d P pr cs]
    by (simp add: idle_def map_update r_into_rtranclp)
next
  case (leave us th vs)
  then show ?thesis using access_step.leave [of P pr w "map idle us" "idle th" "map idle vs" cs]
    by (simp add: r_into_rtranclp)
next
  case (request A r ans)
  then show ?thesis by (auto intro: request_runs)
next
  case (tick timeout d s)
  then show ?thesis using background_runs [OF access_step.tick [of P pr w "map idle ths" cs timeout], of w1]
    by (simp add: run_tick_task)
next
  case (sweep fuel start d s)
  then show ?thesis using background_runs [OF access_step.sweep [of P pr w "map idle ths" cs fuel start], of w1]
    by (simp add: run_sweep_task)
next
  case (beat worker)
  then show ?thesis by (auto intro: access_step.beat)
next
  case (report worker st)
  then show ?thesis by (auto intro: access_step.report)
next
  case (outside d s h)
  then show ?thesis by (auto intro: access_step.outside)
qed

lemma system_schedules:
  assumes "(sys_step P pr)\<^sup>*\<^sup>* (w, ths) (w1, ths1)"
  shows "(access_step P pr)\<^sup>*\<^sup>* (at_work w (map idle ths) cs) (at_work w1 (map idle ths1) cs)"
proof -
  have "(access_step P pr)\<^sup>*\<^sup>* (at_work (fst s) (map idle (snd s)) cs) (at_work (fst t) (map idle (snd t)) cs)"
    if "(sys_step P pr)\<^sup>*\<^sup>* s t" for s t
    using that
  proof (induction rule: rtranclp_induct)
    case (step t u)
    with system_step_schedules [of P pr "fst t" "snd t" "fst u" "snd u" cs] show ?case by simp
  qed simp
  from this [OF assms] show ?thesis by simp
qed

end
