(* ===== verification/Interference.thy ===== *)
theory Interference imports Tasks Catalog begin

text \<open>
  The promises of the program's tasks in the presence of everybody else: whatever the others do between two
  accesses (changes of the kind \<open>moves\<close>, themselves), every access of a task is such a change; a request
  that is answered with the acceptance of a run or a submission has stored it with the program that was
  sent; and a judgement that completes a submission brings a verdict for the submission's own program.
\<close>

definition world_moves :: "('q, 'h) pool set \<Rightarrow> nat \<Rightarrow> ('q, 'h) world \<Rightarrow> ('q, 'h) world \<Rightarrow> bool" where
  "world_moves F N w w1 \<longleftrightarrow> moves F N (wd_db w) (wd_db w1)"

interpretation others: interference "world_moves F N" for F N
  by unfold_locales (auto simp: world_moves_def intro: moves_trans)

abbreviation safe :: "('q, 'h) pool set \<Rightarrow> nat \<Rightarrow> ('a \<Rightarrow> database \<Rightarrow> bool) \<Rightarrow> ('a, 'q, 'h) wtask \<Rightarrow> ('q, 'h) world \<Rightarrow> bool" where
  "safe F N post t w \<equiv> task_ok (world_moves F N) (world_moves F N) (\<lambda>a w. post a (wd_db w)) t w"

abbreviation quiet :: "('q, 'h) pool set \<Rightarrow> nat \<Rightarrow> ('a \<Rightarrow> bool) \<Rightarrow> ('a, 'q, 'h) wtask \<Rightarrow> bool" where
  "quiet F N Q t \<equiv> steady (world_moves F N) Q t"

section \<open>Single accesses\<close>

lemma quiet_db: "(\<And>d. moves F N d (snd (f d)) \<and> Q (fst (f d))) \<Longrightarrow> quiet F N Q (on_db f)"
  unfolding on_db_def by (rule steady_access) (simp add: world_moves_def split_beta)

lemma quiet_queue: "(\<And>s. Q (fst (f s))) \<Longrightarrow> quiet F N Q (on_queue f)"
  unfolding on_queue_def by (rule steady_access) (simp add: world_moves_def split_beta)

lemma quiet_host: "(\<And>h. Q (fst (f h))) \<Longrightarrow> quiet F N Q (on_host f)"
  unfolding on_host_def by (rule steady_access) (simp add: world_moves_def split_beta)

lemma quiet_any: "quiet F N Q t \<Longrightarrow> quiet F N (\<lambda>a. True) t"
  by (rule steady_weaken) simp_all

lemma quiet_safe: "quiet F N Q t \<Longrightarrow> (\<And>a d. Q a \<Longrightarrow> post a d) \<Longrightarrow> safe F N post t w"
  by (rule steady_ok [where Q = Q]) simp_all

lemma safe_db:
  assumes "\<And>d. moves F N (wd_db w) d \<Longrightarrow>
      moves F N d (snd (f d)) \<and> (\<forall>d1. moves F N (snd (f d)) d1 \<longrightarrow> post (fst (f d)) d1)"
  shows "safe F N post (on_db f) w"
  unfolding on_db_def
proof (rule others.ok_access)
  fix w1 assume "world_moves F N w w1"
  with assms [of "wd_db w1"] show "world_moves F N w1 (snd (case f (wd_db w1) of (a, d) \<Rightarrow> (a, w1\<lparr>wd_db := d\<rparr>))) \<and>
      (\<forall>w2. world_moves F N (snd (case f (wd_db w1) of (a, d) \<Rightarrow> (a, w1\<lparr>wd_db := d\<rparr>))) w2 \<longrightarrow>
         post (fst (case f (wd_db w1) of (a, d) \<Rightarrow> (a, w1\<lparr>wd_db := d\<rparr>))) (wd_db w2))"
    by (simp add: world_moves_def split_beta)
qed

lemma safe_elsewhere:
  assumes "\<And>a d. moves F N (wd_db w) d \<Longrightarrow> post a d"
  shows "safe F N post (on_queue f) w" "safe F N post (on_host g) w"
  unfolding on_queue_def on_host_def
  by (rule others.ok_access, use assms in \<open>auto simp: world_moves_def split_beta intro: moves_trans\<close>)+

lemma safe_Answer: "(\<And>d. moves F N (wd_db w) d \<Longrightarrow> post a d) \<Longrightarrow> safe F N post (Answer a) w"
  by (simp add: world_moves_def)

lemma safe_bind:
  assumes "safe F N mid t w" and "\<And>a w1. mid a (wd_db w1) \<Longrightarrow> safe F N post (k a) w1"
  shows "safe F N post (bind_task t k) w"
  using assms by (rule others.ok_bind)

lemma safe_frame:
  assumes "safe F N post t w" and "\<And>d d1. moves F N d d1 \<Longrightarrow> I d \<Longrightarrow> I d1" and "I (wd_db w)"
  shows "safe F N (\<lambda>a d. post a d \<and> I d) t w"
  by (rule others.ok_frame [OF assms(1)]) (use assms(2,3) in \<open>auto simp: world_moves_def\<close>)

lemma moved: "moves F N d (snd (op d)) \<Longrightarrow> op d = (x, d1) \<Longrightarrow> moves F N d d1"
  by simp

lemmas movesD = op_moves(1) [THEN moved] reads_move [THEN moved] writes_move(1,2) [THEN moved]

section \<open>The background services\<close>

lemma quiet_dispatch_loop: "quiet F N (\<lambda>u. True) (dispatch_loop_task C q ids)"
  by (induction ids) (auto intro!: steady_Answer steady_bind [OF quiet_queue] steady_bind [OF quiet_db]
      simp: op_moves split: option.split)

lemma quiet_tick: "quiet F N (\<lambda>u. True) (tick_task C q timeout)"
proof -
  have "quiet F N (\<lambda>u. True) (dispatch_task C q)"
    unfolding dispatch_task_def
    by (auto intro!: steady_bind [where R = "\<lambda>a. True", OF quiet_db] steady_Answer quiet_dispatch_loop
        simp: reads_move split: sum.split)
  then show ?thesis unfolding tick_task_def
    by (intro steady_bind [where R = "\<lambda>a. True", OF quiet_db] steady_bind [where R = "\<lambda>a. True"] quiet_db)
      (simp_all add: op_moves)
qed

lemma quiet_handle_pending: "quiet F N (\<lambda>u. True) (handle_pending_task C pr m)"
  unfolding handle_pending_task_def xack_task_def
  by (auto intro!: quiet_queue steady_Answer steady_bind [where R = "\<lambda>a. True", OF quiet_db]
      steady_bind [where R = "\<lambda>a. True", OF quiet_queue] simp: reads_move split: option.split sum.split)

lemma quiet_handle_all: "quiet F N (\<lambda>u. True) (handle_all_task C pr ms)"
  by (induction ms) (auto intro: steady_Answer steady_bind quiet_handle_pending)

lemma quiet_sweep: "quiet F N (\<lambda>u. True) (sweep_task C pr fuel start)"
  by (induction fuel arbitrary: start)
    (auto intro!: steady_Answer steady_bind [where R = "\<lambda>a. True", OF quiet_queue]
      steady_bind [where R = "\<lambda>a. True", OF quiet_handle_all] split: sum.split)

section \<open>What an answer promises\<close>

text \<open>The acceptance of a run (its id) and of a submission, both with the status 202.\<close>

definition accepted_run :: "reply \<Rightarrow> string option" where
  "accepted_run rep =
     (case rep of
        ErrorReply code msg \<Rightarrow> None
      | JsonReply typed code v \<Rightarrow>
          (if code \<noteq> Some 202 then None
           else case v of AcceptedValue i st \<Rightarrow> Some i | StringMap ((k, i) # m) \<Rightarrow> Some i | _ \<Rightarrow> None))"

definition accepted_submission :: "reply \<Rightarrow> submission option" where
  "accepted_submission rep =
     (case rep of
        ErrorReply code msg \<Rightarrow> None
      | JsonReply typed code v \<Rightarrow>
          (if code \<noteq> Some 202 then None else case v of SubmissionValue s \<Rightarrow> Some s | _ \<Rightarrow> None))"

definition plain :: "reply \<Rightarrow> bool" where
  "plain rep \<longleftrightarrow> accepted_run rep = None \<and> accepted_submission rep = None"

lemma plain_simps [simp]:
  "plain (ErrorReply code msg)" "plain (JsonReply typed None v)" "plain (error_reply code err)"
  "plain (unavailable why)" "plain (create_failure err)"
  "code \<noteq> 202 \<Longrightarrow> plain (JsonReply typed (Some code) v)"
  by (simp_all add: plain_def accepted_run_def accepted_submission_def error_reply_def unavailable_def create_failure_def)

text \<open>The job or submission a request asks for.\<close>

definition job_asked :: "('q, 'h) api \<Rightarrow> request \<Rightarrow> job_request option" where
  "job_asked A r =
     (case mux_lookup api_routes r of
        Route t vars \<Rightarrow>
          (if t = Execute then (case ap_job_request A (hq_body r) of Inl e \<Rightarrow> None | Inr q \<Rightarrow> Some q)
           else if t = CreateRun
           then (case ap_run_request A (hq_body r) of
                   Inl e \<Rightarrow> None
                 | Inr q \<Rightarrow> Some \<lparr>jr_Language = cr_Language q, jr_SourceCode = cr_SourceCode q, jr_Inputs = cr_Inputs q\<rparr>)
           else None)
      | _ \<Rightarrow> None)"

definition submission_asked :: "('q, 'h) api \<Rightarrow> request \<Rightarrow> (string \<times> create_submission_request) option" where
  "submission_asked A r =
     (case mux_lookup api_routes r of
        Route t vars \<Rightarrow>
          (if t = CreateSubmission
           then (case ap_submission_request A (hq_body r) of
                   Inl e \<Rightarrow> None
                 | Inr q \<Rightarrow> Some (path_value (r\<lparr>hq_vars := vars\<rparr>) ''id'', q))
           else None)
      | _ \<Rightarrow> None)"

definition stored_run :: "job_request \<Rightarrow> string \<Rightarrow> database \<Rightarrow> bool" where
  "stored_run q i d \<longleftrightarrow>
     row_sat d i (\<lambda>r. er_language r = jr_Language q \<and> er_source_code r = jr_SourceCode q \<and>
       er_inputs r = marshal to_valid_utf8 (jr_Inputs q))"

definition stored_submission :: "string \<Rightarrow> create_submission_request \<Rightarrow> string \<Rightarrow> database \<Rightarrow> bool" where
  "stored_submission p q i d \<longleftrightarrow>
     (\<exists>s k. find_row sb_ID i (db_submissions d) = Some s \<and> sb_UserID s = cs_UserID q \<and>
        sb_Language s = cs_Language q \<and> sb_SourceCode s = cs_SourceCode q \<and>
        db_uuid_in d p = Some k \<and> db_uuid_in d k = Some (sb_ProblemID s))"

definition promised :: "('q, 'h) api \<Rightarrow> request \<Rightarrow> reply \<Rightarrow> database \<Rightarrow> bool" where
  "promised A r rep d \<longleftrightarrow>
     (\<forall>i. accepted_run rep = Some i \<longrightarrow> (\<exists>q. job_asked A r = Some q \<and> stored_run q i d)) \<and>
     (\<forall>s. accepted_submission rep = Some s \<longrightarrow>
        (\<exists>p q. submission_asked A r = Some (p, q) \<and> stored_submission p q (sb_ID s) d))"

definition kept :: "('q, 'h) api \<Rightarrow> request \<Rightarrow> answer \<Rightarrow> database \<Rightarrow> bool" where
  "kept A r ans d \<longleftrightarrow> (\<forall>rep. ans = Answered rep \<longrightarrow> promised A r rep d)"

lemma stored_run_moves: "moves F N d d1 \<Longrightarrow> stored_run q i d \<Longrightarrow> stored_run q i d1"
  unfolding stored_run_def moves_def
  by (erule conjE, erule row_sat_grows, assumption) (auto simp: row_sim_def)

lemma stored_submission_moves: "moves F N d d1 \<Longrightarrow> stored_submission p q i d \<Longrightarrow> stored_submission p q i d1"
  unfolding stored_submission_def moves_def catalog_grows_def extends_def keeps_work_def same_work_def by metis

lemma plain_promised: "plain rep \<Longrightarrow> promised A r rep d"
  by (simp add: plain_def promised_def)

lemma promised_moves: "moves F N d d1 \<Longrightarrow> promised A r rep d \<Longrightarrow> promised A r rep d1"
  unfolding promised_def using stored_run_moves stored_submission_moves by blast

lemma kept_moves: "moves F N d d1 \<Longrightarrow> kept A r ans d \<Longrightarrow> kept A r ans d1"
  unfolding kept_def using promised_moves by blast

section \<open>Creating a run\<close>

lemma created_run_stored:
  assumes "pg_create (new_job ulid now req) d = (None, d1)"
  shows "stored_run req (ej_ID (new_job ulid now req)) d1"
  using pg_create_row [OF assms] by (auto simp: stored_run_def row_sat_def new_job_def)

lemma safe_create:
  fixes w :: "('q, 'h) world"
  shows "safe F N (\<lambda>res d. \<forall>job. res = Inr job \<longrightarrow> stored_run req (ej_ID job) d) (create_task A req) w"
  unfolding create_task_def
proof (rule safe_bind [where mid = "\<lambda>a d. True"], goal_cases)
  case 1
  show ?case by (rule safe_elsewhere) simp
next
  case (2 a w)
  obtain ulid now where a: "a = (ulid, now)" by fastforce
  let ?job = "new_job ulid now req"
  have "safe F N (\<lambda>res d. \<forall>job. res = Inr job \<longrightarrow> stored_run req (ej_ID job) d)
      (bind_task (on_db (pg_create ?job)) (\<lambda>err. case err of
           Some e \<Rightarrow> Answer (Inl (Wrapped ''failed to store job: '' e []))
         | None \<Rightarrow> bind_task (on_queue (enqueue (ap_redis A) (ap_queue A) (ej_ID ?job) ''run'')) (\<lambda>err. case err of
               Some e \<Rightarrow> Answer (Inl e) | None \<Rightarrow> Answer (Inr (clone_job ?job))))) w"
  proof (rule safe_bind [where mid = "\<lambda>err d. err = None \<longrightarrow> stored_run req (ej_ID ?job) d"], goal_cases)
    case 1
    show ?case
    proof (rule safe_db, intro conjI allI impI)
      fix d d1 assume "moves F N (snd (pg_create ?job d)) d1" "fst (pg_create ?job d) = None"
      with created_run_stored [of ulid now req d "snd (pg_create ?job d)"] show "stored_run req (ej_ID ?job) d1"
        by (metis prod.collapse stored_run_moves)
    qed (rule op_moves)
  next
    case (2 err w)
    show ?case
    proof (cases err)
      case None
      with 2 have st: "stored_run req (ej_ID ?job) (wd_db w)" by simp
      have "safe F N (\<lambda>err d. stored_run req (ej_ID ?job) d)
          (on_queue (enqueue (ap_redis A) (ap_queue A) (ej_ID ?job) ''run'')) w"
        by (rule safe_elsewhere) (rule stored_run_moves [OF _ st])
      then have "safe F N (\<lambda>res d. \<forall>job. res = Inr job \<longrightarrow> stored_run req (ej_ID job) d)
          (bind_task (on_queue (enqueue (ap_redis A) (ap_queue A) (ej_ID ?job) ''run'')) (\<lambda>err. case err of
               Some e \<Rightarrow> Answer (Inl e) | None \<Rightarrow> Answer (Inr (clone_job ?job)))) w"
      proof (rule safe_bind)
        fix e and w1 :: "('q, 'h) world" assume st1: "stored_run req (ej_ID ?job) (wd_db w1)"
        have "stored_run req (ej_ID (clone_job ?job)) d" if "moves F N (wd_db w1) d" for d
          using stored_run_moves [OF that st1] by simp
        then show "safe F N (\<lambda>res d. \<forall>job. res = Inr job \<longrightarrow> stored_run req (ej_ID job) d)
            (case e of Some e \<Rightarrow> Answer (Inl e) | None \<Rightarrow> Answer (Inr (clone_job ?job))) w1"
          by (cases e) (auto simp: world_moves_def)
      qed
      then show ?thesis by (simp only: None option.case)
    qed (auto intro: safe_Answer)
  qed
  then show ?case by (auto simp: a Let_def intro!: safe_Answer split: sum.split)
qed

section \<open>Requests\<close>

text \<open>The handlers that accept nothing.\<close>

lemma quiet_access:
  "(\<And>w. moves F N (wd_db w) (wd_db (snd (f w))) \<and> Q (fst (f w))) \<Longrightarrow> quiet F N Q (access f)"
  by (rule steady_access) (simp add: world_moves_def)

lemma single_access_quiet:
  "quiet F N plain (access (handle_health_live A r))" "quiet F N plain (access (ready_redis A r))"
  "quiet F N plain (access (handle_version A r))" "quiet F N plain (access (handle_get_execution A r))"
  "quiet F N plain (access (create_problem A r))" "quiet F N plain (access (create_test_case A r))"
  "quiet F N plain (access (list_problems A r))" "quiet F N plain (access (get_submission A r))"
  "quiet F N plain (access (get_run A r))" "quiet F N plain (access (analyze_code A r))"
proof -
  show "quiet F N plain (access (handle_health_live A r))"
    by (rule quiet_access) (auto simp: handle_health_live_def)
  show "quiet F N plain (access (ready_redis A r))"
    by (rule quiet_access) (auto simp: ready_redis_def split: handler_splits)
  show "quiet F N plain (access (handle_version A r))"
    by (rule quiet_access) (auto simp: handle_version_def)
  show "quiet F N plain (access (handle_get_execution A r))"
    by (rule quiet_access)
      (auto simp: handle_get_execution_def get_execution_def Let_def split: handler_splits dest!: movesD [where F = F and N = N])
  show "quiet F N plain (access (create_problem A r))"
    by (rule quiet_access) (auto simp: create_problem_def split: handler_splits dest!: movesD [where F = F and N = N])
  show "quiet F N plain (access (create_test_case A r))"
    by (rule quiet_access) (auto simp: create_test_case_def split: handler_splits dest!: movesD [where F = F and N = N])
  show "quiet F N plain (access (list_problems A r))"
    by (rule quiet_access) (auto simp: list_problems_def split: handler_splits dest!: movesD [where F = F and N = N])
  show "quiet F N plain (access (get_submission A r))"
    by (rule quiet_access) (auto simp: get_submission_def split: handler_splits dest!: movesD [where F = F and N = N])
  show "quiet F N plain (access (get_run A r))"
    by (rule quiet_access) (auto simp: get_run_def get_execution_def Let_def split: handler_splits dest!: movesD [where F = F and N = N])
  show "quiet F N plain (access (analyze_code A r))"
    by (rule quiet_access) (auto simp: analyze_code_def split: handler_splits dest!: movesD [where F = F and N = N])
qed

lemmas quiet_db_any = steady_bind [where R = "\<lambda>a. True", OF quiet_db]

lemma quiet_health_ready: "quiet F N plain (health_ready_task A r)"
  unfolding health_ready_task_def
  by (auto intro!: steady_Answer quiet_db_any single_access_quiet simp: reads_move split: option.split)

lemma quiet_create_test_cases: "quiet F N (\<lambda>res. True) (create_test_cases_task i n ts)"
  by (induction ts arbitrary: n)
    (auto intro!: steady_Answer quiet_db_any steady_bind [where R = "\<lambda>a. True" and t = "create_test_cases_task j m us" for j m us]
      simp: writes_move split: sum.split)

lemma quiet_create_full_problem: "quiet F N plain (create_full_problem_task A r)"
  unfolding create_full_problem_task_def
  by (auto intro!: steady_Answer quiet_db_any steady_bind [where R = "\<lambda>a. True", OF quiet_create_test_cases]
      simp: writes_move split: sum.split)

lemma quiet_get_problem: "quiet F N plain (get_problem_task A r)"
  unfolding get_problem_task_def
  by (auto intro!: steady_Answer quiet_db_any simp: reads_move split: sum.split)

lemma endpoint_quiet:
  assumes "endpoint_task t = Some h" and "t \<notin> {Execute, CreateRun, CreateSubmission}"
  shows "quiet F N plain (h A r)"
  using assms
  by (cases t) (auto simp: single_access_quiet quiet_health_ready quiet_create_full_problem quiet_get_problem)

text \<open>The handlers that accept a run.\<close>

lemma accepted_run_simps [simp]:
  "accepted_run (JsonReply typed (Some 202) (AcceptedValue i st)) = Some i"
  "accepted_run (JsonReply typed (Some 202) (StringMap ((k, i) # m))) = Some i"
  "accepted_run (JsonReply typed (Some 202) (SubmissionValue s)) = None"
  "accepted_submission (JsonReply typed (Some 202) (SubmissionValue s)) = Some s"
  "accepted_submission (JsonReply typed (Some 202) (AcceptedValue i st)) = None"
  "accepted_submission (JsonReply typed (Some 202) (StringMap kvs)) = None"
  by (simp_all add: accepted_run_def accepted_submission_def)

definition run_promised :: "job_request option \<Rightarrow> reply \<Rightarrow> database \<Rightarrow> bool" where
  "run_promised asked rep d \<longleftrightarrow>
     accepted_submission rep = None \<and>
     (\<forall>i. accepted_run rep = Some i \<longrightarrow> (\<exists>q. asked = Some q \<and> stored_run q i d))"

lemma run_promised_plain: "plain rep \<Longrightarrow> run_promised asked rep d"
  by (simp add: run_promised_def plain_def)

text \<open>What a handler does with the result of the job service: a refusal, or the id of the stored run.\<close>

lemma safe_after_create:
  fixes w :: "('q, 'h) world"
  assumes "\<And>err. plain (refuse err)"
    and "\<And>job. accepted_run (receipt job) = Some (ej_ID job) \<and> accepted_submission (receipt job) = None"
  shows "safe F N (run_promised (Some q)) (bind_task (create_task A q) (\<lambda>res. case res of
      Inl err \<Rightarrow> Answer (refuse err) | Inr job \<Rightarrow> Answer (receipt job))) w"
proof (rule safe_bind [OF safe_create])
  fix res :: "goerror + execution_job" and w1 :: "('q, 'h) world"
  assume "\<forall>job. res = Inr job \<longrightarrow> stored_run q (ej_ID job) (wd_db w1)"
  then show "safe F N (run_promised (Some q)) (case res of Inl err \<Rightarrow> Answer (refuse err) | Inr job \<Rightarrow> Answer (receipt job)) w1"
    using stored_run_moves [of F N "wd_db w1"]
    by (cases res) (simp_all add: world_moves_def run_promised_plain assms(1), auto simp: run_promised_def assms(2))
qed

lemma safe_execute:
  "safe F N (run_promised (case ap_job_request A (hq_body r) of Inl e \<Rightarrow> None | Inr q \<Rightarrow> Some q)) (execute_task A r) w"
  unfolding execute_task_def
  by (auto intro!: safe_Answer run_promised_plain safe_after_create split: sum.split)

lemma safe_create_run:
  "safe F N (run_promised (case ap_run_request A (hq_body r) of
       Inl e \<Rightarrow> None
     | Inr q \<Rightarrow> Some \<lparr>jr_Language = cr_Language q, jr_SourceCode = cr_SourceCode q, jr_Inputs = cr_Inputs q\<rparr>))
     (create_run_task A r) w"
  unfolding create_run_task_def
  by (auto intro!: safe_Answer run_promised_plain safe_after_create split: sum.split)

text \<open>The handler that accepts a submission.\<close>

definition submission_promised :: "(string \<times> create_submission_request) option \<Rightarrow> reply \<Rightarrow> database \<Rightarrow> bool" where
  "submission_promised asked rep d \<longleftrightarrow>
     accepted_run rep = None \<and>
     (\<forall>s. accepted_submission rep = Some s \<longrightarrow> (\<exists>p q. asked = Some (p, q) \<and> stored_submission p q (sb_ID s) d))"

lemma submission_promised_plain: "plain rep \<Longrightarrow> submission_promised asked rep d"
  by (simp add: submission_promised_def plain_def)

lemma moves_uuid: "moves F N d d1 \<Longrightarrow> db_uuid_in d1 = db_uuid_in d"
  by (simp add: moves_def catalog_grows_def extends_def)

lemma new_submission_sel [simp]:
  "sb_Status (new_submission p q) = SubmissionStatusQueued" "sb_UserID (new_submission p q) = cs_UserID q"
  "sb_Language (new_submission p q) = cs_Language q" "sb_SourceCode (new_submission p q) = cs_SourceCode q"
  "sb_ProblemID (new_submission p q) = pb_ID p"
  by (simp_all add: new_submission_def)

lemma submission_create_stored:
  assumes "submission_create (new_submission prob q) d = (Inr s, d1)" and "db_uuid_in d p = Some (pb_ID prob)"
  shows "stored_submission p q (sb_ID s) d1"
proof -
  obtain i where r: "run_stmt (insert_submission (new_submission prob q)) d = (Inr i, d1)" "s = (new_submission prob q)\<lparr>sb_ID := i\<rparr>"
    using assms(1) by (auto simp: submission_create_def split: prod.splits sum.splits)
  from run_stmt_InrD [OF r(1)] obtain d0 where "later d d0" "insert_submission (new_submission prob q) d0 = Inr (i, d1)" by blast
  with assms(2) r(2) show ?thesis
    by (auto simp: insert_submission_def stored_submission_def later_uuid_in find_row_append split: if_splits)
qed

lemma safe_store_submission:
  fixes w :: "('q, 'h) world"
  assumes "db_uuid_in (wd_db w) p = Some (pb_ID prob)"
  shows "safe F N (submission_promised (Some (p, q))) (store_submission_task A (new_submission prob q)) w"
  unfolding store_submission_task_def
proof (rule safe_bind [where mid = "\<lambda>res d. \<forall>s. res = Inr s \<longrightarrow> stored_submission p q (sb_ID s) d"], goal_cases)
  case 1
  show ?case
  proof (rule safe_db, intro conjI allI impI)
    fix d d1 s
    assume m: "moves F N (wd_db w) d" "moves F N (snd (submission_create (new_submission prob q) d)) d1"
      and r: "fst (submission_create (new_submission prob q) d) = Inr s"
    have "stored_submission p q (sb_ID s) (snd (submission_create (new_submission prob q) d))"
      by (rule submission_create_stored [of prob q d]) (use r moves_uuid [OF m(1)] assms in \<open>simp_all add: prod_eq_iff\<close>)
    then show "stored_submission p q (sb_ID s) d1" by (rule stored_submission_moves [OF m(2)])
  qed (rule writes_move, simp)
next
  case (2 res w1)
  show ?case
  proof (cases res)
    case (Inr s)
    with 2 have st: "stored_submission p q (sb_ID s) (wd_db w1)" by simp
    have "safe F N (\<lambda>err d. stored_submission p q (sb_ID s) d)
        (on_queue (enqueue (ap_redis A) (ap_queue A) (sb_ID s) ''submission'')) w1"
      by (rule safe_elsewhere) (rule stored_submission_moves [OF _ st])
    then have "safe F N (submission_promised (Some (p, q)))
        (bind_task (on_queue (enqueue (ap_redis A) (ap_queue A) (sb_ID s) ''submission'')) (\<lambda>err. case err of
           Some e \<Rightarrow> Answer (ErrorReply 500 ''failed to queue submission'')
         | None \<Rightarrow> Answer (JsonReply False (Some 202) (SubmissionValue s)))) w1"
    proof (rule safe_bind)
      fix e and w2 :: "('q, 'h) world" assume "stored_submission p q (sb_ID s) (wd_db w2)"
      then show "safe F N (submission_promised (Some (p, q))) (case e of
           Some e \<Rightarrow> Answer (ErrorReply 500 ''failed to queue submission'')
         | None \<Rightarrow> Answer (JsonReply False (Some 202) (SubmissionValue s))) w2"
        using stored_submission_moves [of F N "wd_db w2"]
        by (cases e) (simp_all add: world_moves_def submission_promised_plain, simp add: submission_promised_def)
    qed
    then show ?thesis by (simp only: Inr sum.case)
  qed (simp add: world_moves_def submission_promised_plain)
qed

lemma safe_create_submission:
  fixes w :: "('q, 'h) world"
  shows "safe F N (submission_promised (case ap_submission_request A (hq_body r) of
      Inl e \<Rightarrow> None | Inr q \<Rightarrow> Some (path_value r ''id'', q))) (create_submission_task A r) w"
proof (cases "ap_submission_request A (hq_body r)")
  case (Inr q)
  let ?p = "path_value r ''id''"
  have "safe F N (submission_promised (Some (?p, q)))
      (bind_task (on_db (problem_get_by_id ?p)) (\<lambda>res. case res of
         Inl err \<Rightarrow> Answer (if err = ErrProblemNotFound then ErrorReply 404 ''problem not found''
                          else ErrorReply 500 ''internal error checking problem'')
       | Inr p \<Rightarrow>
           if pb_Status p \<noteq> ProblemStatusPublished then Answer (ErrorReply 400 ''problem is not published'')
           else case get_executor (ap_registry A) (cs_Language q) of
                  Inl err \<Rightarrow> Answer (ErrorReply 400 ''unsupported language'')
                | Inr ex \<Rightarrow> store_submission_task A (new_submission p q))) w"
  proof (rule safe_bind [where mid = "\<lambda>res d. \<forall>p. res = Inr p \<longrightarrow> db_uuid_in d ?p = Some (pb_ID p)"], goal_cases)
    case 1
    show ?case
    proof (rule safe_db, intro conjI allI impI)
      fix d d1 p
      assume m: "moves F N (snd (problem_get_by_id ?p d)) d1" and r: "fst (problem_get_by_id ?p d) = Inr p"
      then have "problem_get_by_id ?p d = (Inr p, snd (problem_get_by_id ?p d))" by (simp add: prod_eq_iff)
      from problem_get_Inr [OF this] moves_uuid [OF m] later_uuid_in
      show "db_uuid_in d1 ?p = Some (pb_ID p)" by (fastforce dest: find_row_SomeD)
    qed (rule reads_move)
  next
    case (2 res w1)
    then show ?case
      by (cases res) (auto intro!: safe_store_submission simp: world_moves_def submission_promised_plain split: sum.split)
  qed
  then show ?thesis by (simp add: create_submission_task_def Inr)
qed (simp add: create_submission_task_def world_moves_def submission_promised_plain)

text \<open>Every request keeps what its answer promises.\<close>

lemma safe_request:
  fixes w :: "('q, 'h) world"
  shows "safe F N (kept A r) (request_task A r) w"
proof (cases "mux_lookup api_routes r")
  case (Route t vars)
  show ?thesis
  proof (cases "endpoint_task t :: (('q, 'h) api \<Rightarrow> request \<Rightarrow> (reply, 'q, 'h) wtask) option")
    case (Some h)
    let ?r = "r\<lparr>hq_vars := vars\<rparr>"
    have "safe F N (promised A r) (h A ?r) w"
    proof -
      consider "t \<notin> {Execute, CreateRun, CreateSubmission}" | "t = Execute" | "t = CreateRun" | "t = CreateSubmission" by blast
      then show ?thesis
      proof cases
        case 1
        show ?thesis by (rule quiet_safe [OF endpoint_quiet [OF Some 1] plain_promised])
      next
        case 2
        with Some have "h = execute_task" by simp
        then show ?thesis using 2 Route
          by (simp, intro task_ok_mono [OF safe_execute]) (simp add: promised_def run_promised_def job_asked_def)
      next
        case 3
        with Some have "h = create_run_task" by simp
        then show ?thesis using 3 Route
          by (simp, intro task_ok_mono [OF safe_create_run]) (simp add: promised_def run_promised_def job_asked_def)
      next
        case 4
        with Some have "h = create_submission_task" by simp
        then show ?thesis using 4 Route
          by (simp, intro task_ok_mono [OF safe_create_submission]) (simp add: promised_def submission_promised_def submission_asked_def)
      qed
    qed
    then have "safe F N (kept A r) (bind_task (h A ?r) (\<lambda>rep. Answer (Answered rep))) w"
    proof (rule safe_bind)
      fix rep and w1 :: "('q, 'h) world" assume "promised A r rep (wd_db w1)"
      then show "safe F N (kept A r) (Answer (Answered rep)) w1"
        by (auto simp: world_moves_def kept_def intro: promised_moves)
    qed
    with Route Some show ?thesis by (simp add: request_task_def)
  qed (simp add: request_task_def Route kept_def)
qed (simp_all add: request_task_def kept_def plain_promised)

section \<open>The judge\<close>

lemma quiet_save: "sb_Status s \<noteq> SubmissionStatusCompleted \<Longrightarrow> quiet F N (\<lambda>u. True) (save_task E s)"
  unfolding save_task_def
  by (auto intro!: steady_Answer quiet_db_any steady_bind [where R = "\<lambda>a. True", OF quiet_queue] simp: save_moves split: option.split)

text \<open>The row of the submission a judgement has read.\<close>

definition known :: "nat \<Rightarrow> submission \<Rightarrow> database \<Rightarrow> bool" where
  "known N s d \<longleftrightarrow>
     N \<le> length (db_test_cases d) \<and>
     (canonical d \<longrightarrow> db_uuid_in d (sb_ID s) = Some (sb_ID s)) \<and>
     (\<exists>r. find_row sb_ID (sb_ID s) (db_submissions d) = Some r \<and> same_work r s)"

lemma moves_extends: "moves F N d d1 \<Longrightarrow> extends d d1"
  by (simp add: moves_def catalog_grows_def)

lemma moves_tests: "moves F N d d1 \<Longrightarrow> N \<le> length (db_test_cases d) \<Longrightarrow> N \<le> length (db_test_cases d1)"
  by (drule moves_extends) (auto simp: extends_def)

lemma known_moves:
  assumes "moves F N d d1" and "known N s d"
  shows "known N s d1"
proof -
  from assms(2) obtain r where r: "find_row sb_ID (sb_ID s) (db_submissions d) = Some r" "same_work r s"
    by (auto simp: known_def)
  from assms(1) r(1) obtain q where "find_row sb_ID (sb_ID s) (db_submissions d1) = Some q" "same_work r q"
    by (auto simp: moves_def catalog_grows_def keeps_work_def)
  moreover from this(2) r(2) have "same_work q s" by (simp add: same_work_def)
  ultimately show ?thesis
    using assms(2) moves_uuid [OF assms(1)] canonical_extends [OF moves_extends [OF assms(1)]] moves_tests [OF assms(1)]
    by (auto simp: known_def)
qed

lemma known_same: "same_work s t \<Longrightarrow> known N s d \<Longrightarrow> known N t d"
  unfolding known_def using same_work_trans by (metis same_work_def)

lemma submission_get_known:
  assumes "submission_get_by_id i d = (Inr s, d1)" and "N \<le> length (db_test_cases d)"
  shows "known N s d1"
proof -
  from submission_get_Inr [OF assms(1)] obtain u where u: "later d d1" "db_uuid_in d i = Some u"
    "find_row sb_ID u (db_submissions d) = Some s" by blast
  with find_row_SomeD [OF u(3)] assms(2) show ?thesis by (auto simp: known_def later_tables later_uuid_in canonical_def)
qed

text \<open>A verdict of the judge's for the program of a submission, if UUIDs are read as they are printed.\<close>

definition judged_now :: "('q, 'h) engine \<Rightarrow> nat \<Rightarrow> submission \<Rightarrow> submission \<Rightarrow> database \<Rightarrow> bool" where
  "judged_now E N s s1 d \<longleftrightarrow> same_submission s s1 \<and> (canonical d \<longrightarrow> judged E N d s1)"

lemma judged_now_moves: "moves F N d d1 \<Longrightarrow> judged_now E N s s1 d \<Longrightarrow> judged_now E N s s1 d1"
  unfolding judged_now_def using judged_extends canonical_extends moves_extends by metis

lemma judged_now_internal:
  "judged_now E N s (s\<lparr>sb_Verdict := VerdictInternalError\<rparr>) d"
  by (simp add: judged_now_def judged_def same_submission_def)

text \<open>The problem of a submission, as it was found, and the test cases it had.\<close>

definition problem_found :: "nat \<Rightarrow> submission \<Rightarrow> f64 problem \<Rightarrow> database \<Rightarrow> bool" where
  "problem_found N s prob d \<longleftrightarrow> N \<le> length (db_test_cases d) \<and> prob \<in> set (db_problems d) \<and> db_uuid_in d (sb_ProblemID s) = Some (pb_ID prob)"

definition tests_found :: "nat \<Rightarrow> f64 problem \<Rightarrow> test_case list \<Rightarrow> database \<Rightarrow> bool" where
  "tests_found N prob tcs d \<longleftrightarrow>
     (db_uuid_in d (pb_ID prob) = Some (pb_ID prob) \<longrightarrow>
        (\<exists>n \<ge> N. n \<le> length (db_test_cases d) \<and> tcs = tests_then d n (pb_ID prob)))"

lemma problem_found_moves: "moves F N d d1 \<Longrightarrow> problem_found N s prob d \<Longrightarrow> problem_found N s prob d1"
  using moves_extends [of F N d d1] by (auto simp: problem_found_def extends_def)

lemma tests_found_moves:
  assumes "moves F N d d1" and "tests_found N prob tcs d"
  shows "tests_found N prob tcs d1"
proof -
  note e = moves_extends [OF assms(1)]
  from e have "length (db_test_cases d) \<le> length (db_test_cases d1)" by (auto simp: extends_def)
  with assms(2) tests_then_extends [OF e] moves_uuid [OF assms(1)] show ?thesis
    unfolding tests_found_def by (metis order_trans)
qed

lemma judge_problem_now:
  assumes "judge_problem E prob tcs s h = (ret, s1, h1)" and "problem_found N s prob d" and "tests_found N prob tcs d"
  shows "judged_now E N s s1 d"
proof -
  note r = judge_problem_result [OF assms(1)]
  have "judged E N d s1" if "canonical d"
  proof -
    have "db_uuid_in d (pb_ID prob) = Some (pb_ID prob)" using that assms(2) by (auto simp: canonical_def problem_found_def)
    with assms(3) obtain n where n: "N \<le> n" "n \<le> length (db_test_cases d)" "tcs = tests_then d n (pb_ID prob)"
      by (auto simp: tests_found_def)
    with r assms(2) show ?thesis unfolding judged_def
      by (intro disjI2 exI [of _ prob] exI [of _ n] exI [of _ s] exI [of _ s1])
        (simp add: problem_found_def same_submission_def)
  qed
  with r show ?thesis by (simp add: judged_now_def)
qed

text \<open>The three accesses of the judgement proper: the run, the test cases before it, the problem before them.\<close>

lemma safe_judge_run:
  fixes w :: "('q, 'h) world"
  assumes "problem_found N s prob (wd_db w)" and "tests_found N prob tcs (wd_db w)"
  shows "safe F N (\<lambda>a d. judged_now E N s (snd a) d)
    (on_host (\<lambda>h. let (ret, s1, h1) = judge_problem E prob tcs s h in ((ret, s1), h1))) w"
  unfolding on_host_def
proof (rule others.ok_access)
  fix w1 assume m: "world_moves F N w w1"
  obtain ret s1 h1 where j: "judge_problem E prob tcs s (wd_host w1) = (ret, s1, h1)" by (metis prod.collapse)
  have "problem_found N s prob (wd_db w1)" "tests_found N prob tcs (wd_db w1)"
    using problem_found_moves [OF m [unfolded world_moves_def] assms(1)]
      tests_found_moves [OF m [unfolded world_moves_def] assms(2)] by simp_all
  then have now: "judged_now E N s s1 (wd_db w1)" by (rule judge_problem_now [OF j])
  let ?r = "case let (ret, s1, h1) = judge_problem E prob tcs s (wd_host w1) in ((ret, s1), h1) of
      (a, h) \<Rightarrow> (a, w1\<lparr>wd_host := h\<rparr>)"
  show "world_moves F N w1 (snd ?r) \<and> (\<forall>w2. world_moves F N (snd ?r) w2 \<longrightarrow> judged_now E N s (snd (fst ?r)) (wd_db w2))"
    using j judged_now_moves [where F = F and N = N, OF _ now] by (simp add: world_moves_def)
qed

lemma tests_read:
  assumes "test_case_get_by_problem_id (pb_ID prob) True d = (Inr tcs, d1)" and "N \<le> length (db_test_cases d)"
  shows "tests_found N prob tcs d1"
  unfolding tests_found_def
proof (intro impI exI conjI)
  from test_cases_Inr [OF assms(1)] obtain u where u: "later d d1" "db_uuid_in d (pb_ID prob) = Some u"
    "tcs = test_cases_of u True d" by blast
  show "length (db_test_cases d1) \<le> length (db_test_cases d1)" ..
  from u(1) assms(2) show "N \<le> length (db_test_cases d1)" by (simp add: later_tables)
  assume "db_uuid_in d1 (pb_ID prob) = Some (pb_ID prob)"
  with u show "tcs = tests_then d1 (length (db_test_cases d1)) (pb_ID prob)"
    by (simp add: tests_then_def later_uuid_in test_cases_of_def later_tables)
qed

lemma safe_judge_tests:
  fixes w :: "('q, 'h) world"
  assumes "problem_found N s prob (wd_db w)"
  shows "safe F N (\<lambda>a d. judged_now E N s (snd a) d)
    (bind_task (on_db (test_case_get_by_problem_id (pb_ID prob) True)) (\<lambda>res. case res of
       Inl err \<Rightarrow> Answer (Some (Wrapped ''failed to get test cases: '' err []), s\<lparr>sb_Verdict := VerdictInternalError\<rparr>)
     | Inr tcs \<Rightarrow> on_host (\<lambda>h. let (ret, s1, h1) = judge_problem E prob tcs s h in ((ret, s1), h1)))) w"
proof (rule safe_bind)
  show "safe F N (\<lambda>res d. (\<forall>tcs. res = Inr tcs \<longrightarrow> tests_found N prob tcs d) \<and> problem_found N s prob d)
      (on_db (test_case_get_by_problem_id (pb_ID prob) True)) w"
  proof (rule safe_frame [where I = "problem_found N s prob", OF _ problem_found_moves assms], rule safe_db, intro conjI allI impI)
    fix d d1 tcs
    assume "moves F N (wd_db w) d"
      and m: "moves F N (snd (test_case_get_by_problem_id (pb_ID prob) True d)) d1"
      and r: "fst (test_case_get_by_problem_id (pb_ID prob) True d) = Inr tcs"
    have "tests_found N prob tcs (snd (test_case_get_by_problem_id (pb_ID prob) True d))"
      by (rule tests_read [of prob d])
        (use r assms moves_tests [OF \<open>moves F N (wd_db w) d\<close>] in \<open>simp_all add: prod_eq_iff problem_found_def\<close>)
    then show "tests_found N prob tcs d1" by (rule tests_found_moves [OF m])
  qed (rule reads_move)
next
  fix res :: "goerror + test_case list" and w1 :: "('q, 'h) world"
  assume f: "(\<forall>tcs. res = Inr tcs \<longrightarrow> tests_found N prob tcs (wd_db w1)) \<and> problem_found N s prob (wd_db w1)"
  show "safe F N (\<lambda>a d. judged_now E N s (snd a) d) (case res of
       Inl err \<Rightarrow> Answer (Some (Wrapped ''failed to get test cases: '' err []), s\<lparr>sb_Verdict := VerdictInternalError\<rparr>)
     | Inr tcs \<Rightarrow> on_host (\<lambda>h. let (ret, s1, h1) = judge_problem E prob tcs s h in ((ret, s1), h1))) w1"
  proof (cases res)
    case (Inr tcs)
    with f have "problem_found N s prob (wd_db w1)" "tests_found N prob tcs (wd_db w1)" by simp_all
    from safe_judge_run [OF this] show ?thesis by (simp only: Inr sum.case)
  qed (simp add: judged_now_internal)
qed

lemma safe_judge_fetched:
  fixes w :: "('q, 'h) world"
  assumes "N \<le> length (db_test_cases (wd_db w))"
  shows "safe F N (\<lambda>a d. judged_now E N s (snd a) d) (judge_fetched_task E s) w"
  unfolding judge_fetched_task_def
proof (rule safe_bind)
  show "safe F N (\<lambda>res d. \<forall>prob. res = Inr prob \<longrightarrow> problem_found N s prob d) (on_db (problem_get_by_id (sb_ProblemID s))) w"
  proof (rule safe_db, intro conjI allI impI)
    fix d d1 prob
    assume m0: "moves F N (wd_db w) d" and m: "moves F N (snd (problem_get_by_id (sb_ProblemID s) d)) d1"
      and r: "fst (problem_get_by_id (sb_ProblemID s) d) = Inr prob"
    then have "problem_get_by_id (sb_ProblemID s) d = (Inr prob, snd (problem_get_by_id (sb_ProblemID s) d))"
      by (simp add: prod_eq_iff)
    from problem_get_Inr [OF this] moves_tests [OF m0 assms]
    have "problem_found N s prob (snd (problem_get_by_id (sb_ProblemID s) d))"
      by (auto simp: problem_found_def later_tables later_uuid_in dest: find_row_SomeD)
    then show "problem_found N s prob d1" by (rule problem_found_moves [OF m])
  qed (rule reads_move)
next
  fix res :: "goerror + f64 problem" and w1 :: "('q, 'h) world"
  assume pf: "\<forall>prob. res = Inr prob \<longrightarrow> problem_found N s prob (wd_db w1)"
  show "safe F N (\<lambda>a d. judged_now E N s (snd a) d) (case res of
      Inl err \<Rightarrow> Answer (Some (Wrapped ''failed to get problem: '' err []), s\<lparr>sb_Verdict := VerdictInternalError\<rparr>)
    | Inr prob \<Rightarrow> bind_task (on_db (test_case_get_by_problem_id (pb_ID prob) True)) (\<lambda>res. case res of
        Inl err \<Rightarrow> Answer (Some (Wrapped ''failed to get test cases: '' err []), s\<lparr>sb_Verdict := VerdictInternalError\<rparr>)
      | Inr tcs \<Rightarrow> on_host (\<lambda>h. let (ret, s1, h1) = judge_problem E prob tcs s h in ((ret, s1), h1)))) w1"
  proof (cases res)
    case (Inr prob)
    with pf have "problem_found N s prob (wd_db w1)" by simp
    from safe_judge_tests [OF this] show ?thesis by (simp only: Inr sum.case)
  qed (simp add: judged_now_internal)
qed

lemma safe_finalize:
  fixes w :: "('q, 'h) world"
  assumes "known N s (wd_db w)" and "judged_now (pl_engine P) N s s1 (wd_db w)" and P: "P \<in> F"
  shows "safe F N (\<lambda>u d. True) (finalize_task (pl_engine P) s1) w"
proof -
  let ?E = "pl_engine P"
  let ?I = "\<lambda>d. known N s1 d \<and> judged_now ?E N s s1 d"
  have "same_work s s1" using assms(2) by (simp add: judged_now_def same_submission_def same_work_def)
  then have I: "?I (wd_db w)" using assms known_same by blast
  have save: "safe F N (\<lambda>u d. True) (save_task ?E t) w1"
    if i: "?I (wd_db w1)" and t: "t = s1\<lparr>sb_CompletedAt := c, sb_Status := st\<rparr>" for t c st and w1 :: "('q, 'h) world"
    unfolding save_task_def
  proof (rule safe_bind [where mid = "\<lambda>a d. True"], goal_cases)
    case 1
    show ?case
    proof (rule safe_db, intro conjI)
      fix d assume m: "moves F N (wd_db w1) d"
      have "catalog_grows (pl_engine ` F) N d (snd (submission_update t d))"
      proof (rule submission_update_grows)
        fix d0 assume "later d d0" "canonical d0"
        with m have m0: "moves F N (wd_db w1) d0" by (meson moves_later moves_trans)
        with i have "known N s1 d0" "judged_now ?E N s s1 d0" using known_moves judged_now_moves by blast+
        with \<open>canonical d0\<close> have "judged ?E N d0 t" "db_uuid_in d0 (sb_ID t) = Some (sb_ID t) \<and>
            (\<exists>r. find_row sb_ID (sb_ID t) (db_submissions d0) = Some r \<and> same_work r t)"
          by (simp_all add: t known_def judged_now_def judged_def same_work_def)
        with P show "db_uuid_in d0 (sb_ID t) = Some (sb_ID t) \<and> judged_by (pl_engine ` F) N d0 t \<and>
            (\<exists>r. find_row sb_ID (sb_ID t) (db_submissions d0) = Some r \<and> same_work r t)"
          unfolding judged_by_def by blast
      qed
      then show "moves F N d (snd (submission_update t d))"
        using submission_update_frame [of t d] by (intro moves_catalog) simp_all
    qed simp
  next
    case 2
    show ?case
      by (rule quiet_safe [where Q = "\<lambda>u. True"])
        (auto intro!: steady_Answer steady_bind [where R = "\<lambda>a. True", OF quiet_queue] split: option.split)
  qed
  show ?thesis unfolding finalize_task_def
  proof (rule safe_bind [where mid = "\<lambda>a d. ?I d"], goal_cases)
    case 1
    show ?case by (rule safe_elsewhere) (use I known_moves judged_now_moves in blast)
  next
    case (2 now w1)
    show ?case unfolding Let_def
      by (rule save [OF 2, where c = "Some now" and
            st = "if sb_Status s1 = SubmissionStatusRunning then SubmissionStatusCompleted else sb_Status s1"]) simp
  qed
qed

lemma safe_judge:
  fixes w :: "('q, 'h) world"
  assumes "N \<le> length (db_test_cases (wd_db w))" and P: "P \<in> F"
  shows "safe F N (\<lambda>ret d. True) (judge_task (pl_engine P) i) w"
  unfolding judge_task_def
proof (rule safe_bind [where mid = "\<lambda>res d. \<forall>s. res = Inr s \<longrightarrow> known N s d"], goal_cases)
  case 1
  show ?case
  proof (rule safe_db, intro conjI allI impI)
    fix d d1 s
    assume m0: "moves F N (wd_db w) d" and m: "moves F N (snd (submission_get_by_id i d)) d1" and r: "fst (submission_get_by_id i d) = Inr s"
    then have "submission_get_by_id i d = (Inr s, snd (submission_get_by_id i d))" by (simp add: prod_eq_iff)
    from submission_get_known [OF this moves_tests [OF m0 assms(1)]] show "known N s d1" by (rule known_moves [OF m])
  qed (rule reads_move)
next
  case (2 res w)
  show ?case
  proof (cases res)
    case (Inr s0)
    let ?s = "s0\<lparr>sb_Status := SubmissionStatusRunning\<rparr>"
    from 2 Inr have "known N s0 (wd_db w)" by simp
    then have k: "known N ?s (wd_db w)" by (rule known_same [rotated]) (simp add: same_work_def)
    have "safe F N (\<lambda>ret d. True) (bind_task (save_task (pl_engine P) ?s) (\<lambda>u.
        bind_task (judge_fetched_task (pl_engine P) ?s) (\<lambda>(ret, s1).
        bind_task (finalize_task (pl_engine P) s1) (\<lambda>u. Answer ret)))) w"
    proof (rule safe_bind)
      show "safe F N (\<lambda>u d. True \<and> known N ?s d) (save_task (pl_engine P) ?s) w"
      proof (rule safe_frame [where I = "known N ?s" and post = "\<lambda>u d. True", OF _ known_moves k])
        show "safe F N (\<lambda>u d. True) (save_task (pl_engine P) ?s) w" by (rule quiet_safe [OF quiet_save]) simp_all
      qed
      fix u and w1 :: "('q, 'h) world" assume "True \<and> known N ?s (wd_db w1)"
      then have k1: "known N ?s (wd_db w1)" by simp
      show "safe F N (\<lambda>ret d. True) (bind_task (judge_fetched_task (pl_engine P) ?s) (\<lambda>(ret, s1).
          bind_task (finalize_task (pl_engine P) s1) (\<lambda>u. Answer ret))) w1"
      proof (rule safe_bind)
        show "safe F N (\<lambda>a d. judged_now (pl_engine P) N ?s (snd a) d \<and> known N ?s d)
            (judge_fetched_task (pl_engine P) ?s) w1"
          by (rule safe_frame [where I = "known N ?s" and post = "\<lambda>a d. judged_now (pl_engine P) N ?s (snd a) d",
                OF safe_judge_fetched known_moves k1]) (use k1 in \<open>simp add: known_def\<close>)
        fix a :: "goerror option \<times> submission" and w2 :: "('q, 'h) world"
        assume a: "judged_now (pl_engine P) N ?s (snd a) (wd_db w2) \<and> known N ?s (wd_db w2)"
        obtain ret s1 where p: "a = (ret, s1)" by fastforce
        with a have "safe F N (\<lambda>u d. True) (finalize_task (pl_engine P) s1) w2" by (intro safe_finalize [where s = ?s]) (simp_all add: P)
        then have "safe F N (\<lambda>ret d. True) (bind_task (finalize_task (pl_engine P) s1) (\<lambda>u. Answer ret)) w2"
          by (rule safe_bind) simp
        then show "safe F N (\<lambda>ret d. True) (case a of (ret, s1) \<Rightarrow>
            bind_task (finalize_task (pl_engine P) s1) (\<lambda>u. Answer ret)) w2" by (simp add: p)
      qed
    qed
    then show ?thesis by (simp add: Inr Let_def)
  qed simp
qed

end
