(* ===== verification/Interleaving_Contract.thy ===== *)
theory Interleaving_Contract imports Interleaving Interference Api_Contract begin

text \<open>
  What holds in every state the running system can reach, with all accesses of all its parts in any order:
  the invariant of \<open>System\<close> and the promises of \<open>Interference\<close> together, by rule induction over
  \<open>access_step\<close>; and the properties of the whole program that follow.
\<close>

section \<open>The invariant\<close>

fun call_ok :: "('q, 'h) pool set \<Rightarrow> nat \<Rightarrow> ('q, 'h) world \<Rightarrow> ('q, 'h) call \<Rightarrow> bool" where
  "call_ok F N w (Serving A r t) = safe F N (kept A r) t w"
| "call_ok F N w (Background t) = safe F N (\<lambda>u d. True) t w"

definition worker_ok ::
  "('q, 'h) pool set \<Rightarrow> nat \<Rightarrow> ('q, 'h) world \<Rightarrow> thread \<times> (goerror option, 'q, 'h) wtask option \<Rightarrow> bool" where
  "worker_ok F N w x \<longleftrightarrow> (\<forall>t. snd x = Some t \<longrightarrow> th_pc (fst x) = AtJudge \<and> safe F N (\<lambda>ret d. True) t w)"

definition running_inv :: "('q, 'h) pool set \<Rightarrow> nat \<Rightarrow> ('q, 'h) running \<Rightarrow> bool" where
  "running_inv F N s \<longleftrightarrow>
     sys_inv F (rn_world s, map fst (rn_workers s)) \<and>
     N \<le> length (db_test_cases (wd_db (rn_world s))) \<and>
     (canonical (wd_db (rn_world s)) \<longrightarrow> subs_ok (pl_engine ` F) N (wd_db (rn_world s))) \<and>
     (\<forall>x \<in> set (rn_workers s). worker_ok F N (rn_world s) x) \<and>
     (\<forall>c \<in> set (rn_calls s). call_ok F N (rn_world s) c)"

lemma call_ok_moves: "world_moves F N w w1 \<Longrightarrow> call_ok F N w c \<Longrightarrow> call_ok F N w1 c"
  by (cases c) (auto intro: others.ok_stable)

lemma worker_ok_moves: "world_moves F N w w1 \<Longrightarrow> worker_ok F N w x \<Longrightarrow> worker_ok F N w1 x"
  unfolding worker_ok_def using others.ok_stable by blast

lemma worker_ok_None [simp]: "worker_ok F N w (th, None)"
  by (simp add: worker_ok_def)

text \<open>A step that changes the database by \<open>moves\<close> keeps the invariant, if what it puts in place is right.\<close>

lemma running_inv_change:
  assumes "running_inv F N (at_work w ws cs)" and "moves F N (wd_db w) (wd_db w1)"
    and "sys_inv F (w1, map fst ws1)"
    and "\<forall>x \<in> set ws1. x \<in> set ws \<or> worker_ok F N w1 x" and "\<forall>c \<in> set cs1. c \<in> set cs \<or> call_ok F N w1 c"
  shows "running_inv F N (at_work w1 ws1 cs1) \<and> moves F N (wd_db w) (wd_db w1)"
proof -
  have m: "world_moves F N w w1" using assms(2) by (simp add: world_moves_def)
  have c: "canonical (wd_db w1) = canonical (wd_db w)" using canonical_extends [OF moves_extends [OF assms(2)]] .
  have "canonical (wd_db w1) \<longrightarrow> subs_ok (pl_engine ` F) N (wd_db w1)"
    using assms(1,2) unfolding c by (simp add: running_inv_def moves_def catalog_grows_def)
  then show ?thesis
    using assms moves_tests [OF assms(2)] call_ok_moves [OF m] worker_ok_moves [OF m] by (auto simp: running_inv_def)
qed

lemma moves_grows: "moves F N d d1 \<Longrightarrow> grows F d d1"
  by (simp add: moves_def)

lemma sys_inv_moves:
  assumes "sys_inv F (w, ths)" and "moves F N (wd_db w) (wd_db w1)"
  shows "sys_inv F (w1, ths)"
  using assms(1) by (intro sys_inv_change [OF assms(1) moves_grows [OF assms(2)]]) (simp_all add: sys_inv_def)

text \<open>A worker's own step leaves the catalog alone.\<close>

lemma catalog_of: "catalog (snd (op d)) = catalog d \<Longrightarrow> op d = (x, d1) \<Longrightarrow> catalog d1 = catalog d"
  by simp

lemmas catalogD = job_ops_catalog(2-6) [THEN catalog_of] pg_get_later [THEN later_catalog, THEN catalog_of]

lemma step_at_catalog:
  assumes "step_at P msg worker c pc w = (pc1, w1)" and "pc \<noteq> AtJudge"
  shows "catalog (wd_db w1) = catalog (wd_db w)"
proof (cases pc)
  case (AtExecute job rs inputs)
  with assms show ?thesis by (cases inputs) (auto simp: Let_def split: prod.splits sum.splits if_splits)
qed (use assms in \<open>auto simp: Let_def split: prod.splits option.splits sum.splits if_splits dest!: catalogD\<close>)

lemma run_step_moves:
  assumes "run_step P th w = (th1, w1)" and "th_pc th \<noteq> AtJudge" and "grows F (wd_db w) (wd_db w1)"
  shows "moves F N (wd_db w) (wd_db w1)"
  using assms step_at_catalog
  by (auto simp: run_step_def split: prod.splits intro!: moves_jobs)

lemma renew_step_moves: "renew_step th d = (th1, d1) \<Longrightarrow> moves F N d d1"
  using op_moves(5) [of F N d "qm_JobID (th_msg th)" "th_worker th" lease_duration]
  by (auto simp: renew_step_def split: prod.splits option.splits)

lemma recover_panic_moves: "recover_panic th d = (th1, d1) \<Longrightarrow> moves F N d d1"
  using op_moves(4) by (auto simp: recover_panic_def)

text \<open>One worker of the list changes.\<close>

lemma running_inv_update:
  assumes "running_inv F N (at_work w ws cs)" and "moves F N (wd_db w) (wd_db w1)"
    and "i < length ws" and "ws ! i = (th, c)" and "thread_inv F (wd_db w1) th1" and "th_worker th1 = th_worker th"
    and "worker_ok F N w1 (th1, c1)"
  shows "running_inv F N (at_work w1 (ws[i := (th1, c1)]) cs) \<and> moves F N (wd_db w) (wd_db w1)"
proof (rule running_inv_change [OF assms(1,2)])
  have "sys_inv F (w, map fst ws)" using assms(1) by (simp add: running_inv_def)
  from sys_inv_update [OF this moves_grows [OF assms(2)], of i th1] assms(3-6)
  show "sys_inv F (w1, map fst (ws[i := (th1, c1)]))" by (simp add: map_update)
  show "\<forall>x \<in> set (ws[i := (th1, c1)]). x \<in> set ws \<or> worker_ok F N w1 x"
    using assms(7) set_update_subset_insert [of ws i "(th1, c1)"] by blast
qed simp

lemma running_inv_worker:
  assumes "running_inv F N (at_work w ws cs)" and "i < length ws" and "ws ! i = (th, c)"
  shows "thread_inv F (wd_db w) th" "table_ok (wd_db w)" "worker_ok F N w (th, c)"
  using assms nth_mem [OF assms(2)] by (auto simp: running_inv_def sys_inv_def)

lemma running_inv_call:
  assumes "running_inv F N (at_work w ws cs)" and "moves F N (wd_db w) (wd_db w1)" and "call_ok F N w1 c"
  shows "running_inv F N (at_work w1 ws (cs[i := c])) \<and> moves F N (wd_db w) (wd_db w1)"
proof (rule running_inv_change [OF assms(1,2)])
  show "sys_inv F (w1, map fst ws)" using assms(1) sys_inv_moves [OF _ assms(2)] by (simp add: running_inv_def)
  show "\<forall>x \<in> set (cs[i := c]). x \<in> set cs \<or> call_ok F N w1 x"
    using assms(3) set_update_subset_insert [of cs i c] by blast
qed simp

lemma access_step_inv:
  assumes "access_step P pr s s1" and "running_inv F N s" and "P \<in> F"
  shows "running_inv F N s1 \<and> moves F N (wd_db (rn_world s)) (wd_db (rn_world s1))"
  using assms(1,2)
proof (induction rule: access_step.induct)
  case (receive flag worker polls w msg s ws cs)
  have "sys_inv F (w, map fst ws)" using receive.prems by (simp add: running_inv_def)
  then have "sys_inv F (w\<lparr>wd_queue := s\<rparr>, map fst ((start_thread msg worker, None) # ws))"
  proof (rule sys_inv_change)
    show "distinct (map th_worker (map fst ((start_thread msg worker, None) # ws)))"
      using receive.hyps(2) \<open>sys_inv F (w, map fst ws)\<close> by (simp add: sys_inv_def)
  qed (simp_all add: grows_same start_thread_inv)
  then show ?case using running_inv_change [OF receive.prems, of "w\<lparr>wd_queue := s\<rparr>"] by simp
next
  case (run i ws th w th1 w1 cs)
  note inv = running_inv_worker [OF run.prems run.hyps(1,2)]
  from run_step_inv [OF inv(2,1) run.hyps(4) assms(3)] have r: "grows F (wd_db w) (wd_db w1)" "thread_inv F (wd_db w1) th1"
    "th_worker th1 = th_worker th" by simp_all
  from running_inv_update [OF run.prems run_step_moves [OF run.hyps(4,3) r(1)] run.hyps(1,2) r(2,3) worker_ok_None]
  show ?case by simp
next
  case (judge_call i ws th w cs)
  note inv = running_inv_worker [OF judge_call.prems judge_call.hyps(1,2)]
  have "N \<le> length (db_test_cases (wd_db w))" using judge_call.prems by (simp add: running_inv_def)
  then have "worker_ok F N w (th, Some (judge_task (pl_engine P) (qm_JobID (th_msg th))))"
    by (simp add: worker_ok_def judge_call.hyps(3) safe_judge assms(3))
  from running_inv_update [OF judge_call.prems moves_refl judge_call.hyps(1,2) inv(1) refl this] show ?case by simp
next
  case (judge_access i ws th f w t w1 cs)
  note inv = running_inv_worker [OF judge_access.prems judge_access.hyps(1,2)]
  then have ok: "th_pc th = AtJudge" "safe F N (\<lambda>ret d. True) (Access f) w" by (simp_all add: worker_ok_def)
  from others.ok_step [OF ok(2) judge_access.hyps(3)] have m: "moves F N (wd_db w) (wd_db w1)"
    and "worker_ok F N w1 (th, Some t)" by (simp_all add: world_moves_def worker_ok_def ok(1))
  from running_inv_update [OF judge_access.prems m judge_access.hyps(1,2) _ refl this(2)] show ?case
    using thread_inv_grows [OF moves_grows [OF m] inv(1)] by simp
next
  case (judge_return i ws th ret w cs)
  note inv = running_inv_worker [OF judge_return.prems judge_return.hyps(1,2)]
  then have "th_pc th = AtJudge" by (simp add: worker_ok_def)
  with inv(1) have "thread_inv F (wd_db w) (th\<lparr>th_pc := AtAck\<rparr>)" by (auto simp: thread_inv_def split: if_splits)
  from running_inv_update [OF judge_return.prems moves_refl judge_return.hyps(1,2) this _ worker_ok_None] show ?case by simp
next
  case (renew i ws th c w th1 d cs)
  note inv = running_inv_worker [OF renew.prems renew.hyps(1,2)]
  have m: "moves F N (wd_db w) (wd_db (w\<lparr>wd_db := d\<rparr>))" using renew_step_moves [OF renew.hyps(4)] by simp
  have th: "th1 = th \<or> th1 = th\<lparr>th_cancelled := True\<rparr>"
    using renew.hyps(4) by (auto simp: renew_step_def split: prod.splits option.splits)
  with thread_inv_grows [OF moves_grows [OF m] inv(1)] have "thread_inv F d th1" "th_worker th1 = th_worker th"
    by (auto simp: thread_inv_def)
  moreover have "worker_ok F N (w\<lparr>wd_db := d\<rparr>) (th1, c)"
    using worker_ok_moves [OF _ inv(3), of "w\<lparr>wd_db := d\<rparr>"] m th by (auto simp: worker_ok_def world_moves_def)
  ultimately show ?case using running_inv_update [OF renew.prems m renew.hyps(1,2)] by simp
next
  case (cancel i ws th c w cs)
  note inv = running_inv_worker [OF cancel.prems cancel.hyps(1,2)]
  then have "thread_inv F (wd_db w) (th\<lparr>th_cancelled := True\<rparr>)" "worker_ok F N w (th\<lparr>th_cancelled := True\<rparr>, c)"
    by (auto simp: thread_inv_def worker_ok_def)
  from running_inv_update [OF cancel.prems moves_refl cancel.hyps(1,2) this(1) _ this(2)] show ?case by simp
next
  case (panic i ws th c w th1 d cs)
  have m: "moves F N (wd_db w) (wd_db (w\<lparr>wd_db := d\<rparr>))" using recover_panic_moves [OF panic.hyps(3)] by simp
  have "thread_inv F d th1" "th_worker th1 = th_worker th"
    using panic.hyps(3) by (auto simp: recover_panic_def thread_inv_def)
  then show ?case using running_inv_update [OF panic.prems m panic.hyps(1,2) _ _ worker_ok_None] by simp
next
  case (leave w us x ws cs)
  have "sys_inv F (w, map fst (us @ x # ws))" using leave.prems by (simp add: running_inv_def)
  then have "sys_inv F (w, map fst (us @ ws))"
  proof (rule sys_inv_change)
    show "distinct (map th_worker (map fst (us @ ws)))"
      using \<open>sys_inv F (w, map fst (us @ x # ws))\<close> by (auto simp: sys_inv_def)
  qed (auto simp: grows_same)
  then show ?case using running_inv_change [OF leave.prems moves_refl, of "us @ ws" cs] by auto
next
  case (request w ws cs A r)
  then show ?case using running_inv_change [OF request.prems moves_refl, of ws "Serving A r (request_task A r) # cs"]
    by (simp add: safe_request running_inv_def)
next
  case (tick w ws cs timeout)
  have "quiet F N (\<lambda>u. True) (tick_task (pl_redis P) (pl_queue P) timeout)" by (rule quiet_tick)
  from quiet_safe [OF this, of "\<lambda>u d. True"] show ?case
    using running_inv_change [OF tick.prems moves_refl, of ws "Background (tick_task (pl_redis P) (pl_queue P) timeout) # cs"]
      tick.prems by (simp add: running_inv_def)
next
  case (sweep w ws cs fuel start)
  let ?t = "bind_task (sweep_task (pl_redis P) pr fuel start) (\<lambda>u. Answer ())"
  have "quiet F N (\<lambda>u. True) ?t" by (rule steady_bind [OF quiet_sweep]) (rule steady_Answer, simp)
  from quiet_safe [OF this, of "\<lambda>u d. True"] show ?case
    using running_inv_change [OF sweep.prems moves_refl, of ws "Background ?t # cs"] sweep.prems
    by (simp add: running_inv_def)
next
  case (serve i cs A r f w t w1 ws)
  have "safe F N (kept A r) (Access f) w" using serve nth_mem [OF serve.hyps(1)] by (force simp: running_inv_def)
  from others.ok_step [OF this serve.hyps(3)] have m: "moves F N (wd_db w) (wd_db w1)" and ok: "call_ok F N w1 (Serving A r t)"
    by (simp_all add: world_moves_def)
  from running_inv_call [OF serve.prems m ok] show ?case by simp
next
  case (work i cs f w t w1 ws)
  have "safe F N (\<lambda>u d. True) (Access f) w" using work nth_mem [OF work.hyps(1)] by (force simp: running_inv_def)
  from others.ok_step [OF this work.hyps(3)] have m: "moves F N (wd_db w) (wd_db w1)" and ok: "call_ok F N w1 (Background t)"
    by (simp_all add: world_moves_def)
  from running_inv_call [OF work.prems m ok] show ?case by simp
next
  case (gone w ws us c cs)
  then show ?case using running_inv_change [OF gone.prems moves_refl, of ws "us @ cs"] by (simp add: running_inv_def)
next
  case (beat w ws cs worker)
  then have "sys_inv F (w, map fst ws)" by (simp add: running_inv_def)
  from sys_inv_moves [OF this, of N "w\<lparr>wd_db := heartbeat_tick worker (wd_db w)\<rparr>"] show ?case
    using running_inv_change [OF beat.prems, of "w\<lparr>wd_db := heartbeat_tick worker (wd_db w)\<rparr>" ws cs] by (simp add: op_moves)
next
  case (report w ws cs worker st)
  let ?w = "w\<lparr>wd_db := snd (heartbeat_update_status worker st (wd_db w))\<rparr>"
  from report have "sys_inv F (w, map fst ws)" by (simp add: running_inv_def)
  from sys_inv_moves [OF this, of N ?w] show ?case
    using running_inv_change [OF report.prems, of ?w ws cs] by (simp add: op_moves)
next
  case (outside w d ws cs h s)
  let ?w = "w\<lparr>wd_db := d, wd_queue := s, wd_host := h\<rparr>"
  from outside have "sys_inv F (w, map fst ws)" by (simp add: running_inv_def)
  from sys_inv_moves [OF this, of N ?w] show ?case
    using running_inv_change [OF outside.prems, of ?w ws cs] outside.hyps by (simp add: moves_later)
qed

lemma access_steps_inv:
  assumes "(access_step P pr)\<^sup>*\<^sup>* s s1" and "running_inv F N s" and "P \<in> F"
  shows "running_inv F N s1 \<and> moves F N (wd_db (rn_world s)) (wd_db (rn_world s1))"
  using assms(1,2)
proof (induction rule: rtranclp_induct)
  case (step t u)
  with access_step_inv [OF step.hyps(2) _ assms(3), of N] show ?case by (blast intro: moves_trans)
qed simp

text \<open>A system at rest: no work is in progress, no job has results yet, and no submission is completed.\<close>

definition starting :: "('q, 'h) running \<Rightarrow> bool" where
  "starting s \<longleftrightarrow>
     rn_workers s = [] \<and> rn_calls s = [] \<and> fresh_start (rn_world s, []) \<and>
     distinct (map sb_ID (db_submissions (wd_db (rn_world s)))) \<and>
     (\<forall>t \<in> set (db_submissions (wd_db (rn_world s))). sb_Status t \<noteq> SubmissionStatusCompleted)"

lemma starting_inv: "starting s \<Longrightarrow> N \<le> length (db_test_cases (wd_db (rn_world s))) \<Longrightarrow> running_inv F N s"
  by (simp add: starting_def running_inv_def subs_ok_def sys_inv_start)

text \<open>
  The tests decide a verdict: an accepted program passes them all, another one passes those before some test
  and fails that one in the way the verdict says.
\<close>

definition tests_decide ::
  "('q, 'h) engine \<Rightarrow> lang_executor \<Rightarrow> f64 problem \<Rightarrow> test_case list \<Rightarrow> submission \<Rightarrow> bool" where
  "tests_decide E ex prob tcs t \<longleftrightarrow>
     (\<exists>k. (\<forall>i < k. test_passes (en_sandbox E) ex (request_of t) (problem_comparator (en_comparators E) prob) (tcs ! i)) \<and>
        (if sb_Verdict t = VerdictAccepted then k = length tcs
         else k < length tcs \<and>
           test_fails (en_sandbox E) ex (request_of t) (problem_comparator (en_comparators E) prob) (tcs ! k) (sb_Verdict t)))"

lemma judge_outcome_decided:
  assumes "judge_outcome E prob tcs sub sub1" and "sb_Verdict sub1 \<notin> {VerdictCompilationError, VerdictInternalError}"
    and "sb_Language sub = sb_Language t" and "sb_SourceCode sub = sb_SourceCode t" and "sb_Verdict sub1 = sb_Verdict t"
  shows "\<exists>ex. get_executor (en_registry E) (sb_Language t) = Inr ex \<and> tests_decide E ex prob tcs t"
proof -
  have "request_of sub = request_of t" using assms(3,4) by (simp add: request_of_def)
  with assms obtain ex where ex: "get_executor (en_registry E) (sb_Language t) = Inr ex"
    "judged_as (en_sandbox E) ex (request_of t) (problem_comparator (en_comparators E) prob) tcs sub sub1"
    by (auto simp: judge_outcome_def)
  from ex(2) assms(2,5) have "tests_decide E ex prob tcs t"
    unfolding tests_decide_def by (cases "sb_Verdict t") (auto simp: judged_as_def)
  with ex(1) show ?thesis by blast
qed

lemma judged_decided:
  assumes "judged E N d t" and "sb_Verdict t \<notin> {VerdictCompilationError, VerdictInternalError}"
  shows "\<exists>prob n ex. prob \<in> set (db_problems d) \<and> db_uuid_in d (sb_ProblemID t) = Some (pb_ID prob) \<and>
    N \<le> n \<and> n \<le> length (db_test_cases d) \<and> get_executor (en_registry E) (sb_Language t) = Inr ex \<and>
    sb_TotalTestCases t = int (length (tests_then d n (pb_ID prob))) \<and> tests_decide E ex prob (tests_then d n (pb_ID prob)) t"
proof -
  from assms obtain prob n sub sub1 where j: "N \<le> n" "n \<le> length (db_test_cases d)"
      "prob \<in> set (db_problems d)" "db_uuid_in d (sb_ProblemID t) = Some (pb_ID prob)"
      "sb_TotalTestCases t = int (length (tests_then d n (pb_ID prob)))"
      "judge_outcome E prob (tests_then d n (pb_ID prob)) sub sub1"
      "sb_Language sub = sb_Language t" "sb_SourceCode sub = sb_SourceCode t" "sb_Verdict sub1 = sb_Verdict t"
    unfolding judged_def by blast
  from judge_outcome_decided [OF j(6) _ j(7-9)] j(9) assms(2) have
    "\<exists>ex. get_executor (en_registry E) (sb_Language t) = Inr ex \<and>
       tests_decide E ex prob (tests_then d n (pb_ID prob)) t" by simp
  with j(1-5) show ?thesis by blast
qed

lemma reachable_inv:
  assumes "starting s0" and "(access_step P pr)\<^sup>*\<^sup>* s0 s1"
  shows "running_inv {P} (length (db_test_cases (wd_db (rn_world s0)))) s1"
  using access_steps_inv [OF assms(2) starting_inv [OF assms(1)] singletonI] by simp

lemma completed_results_produced:
  assumes "starting s0" and "(access_step P pr)\<^sup>*\<^sup>* s0 s1"
    and "r \<in> set (db_executions (wd_db (rn_world s1)))" and "er_job_status r = JobCompleted"
  shows "\<exists>rs. er_results r = Some (marshal enc_result rs) \<and> results_for {P} r (row_inputs r) (elems rs)"
proof -
  have "sys_inv {P} (rn_world s1, map fst (rn_workers s1))" using reachable_inv [OF assms(1,2)] by (simp add: running_inv_def)
  then have "row_ok r" "row_inv {P} r" using assms(3) by (auto simp: sys_inv_def table_ok_def rows_inv_def)
  with assms(4) show ?thesis by (auto simp: row_ok_def row_inv_def)
qed

lemma promised_rows:
  assumes "promised A r rep d"
  shows "(\<forall>i. accepted_run rep = Some i \<longrightarrow>
      (\<exists>q row. job_asked A r = Some q \<and> find_row er_id i (db_executions d) = Some row \<and>
         er_language row = jr_Language q \<and> er_source_code row = jr_SourceCode q \<and>
         elems (unmarshal (er_inputs row)) = map to_valid_utf8 (elems (jr_Inputs q)))) \<and>
    (\<forall>s. accepted_submission rep = Some s \<longrightarrow>
      (\<exists>p q t k. submission_asked A r = Some (p, q) \<and>
         find_row sb_ID (sb_ID s) (db_submissions d) = Some t \<and>
         sb_UserID t = cs_UserID q \<and> sb_Language t = cs_Language q \<and> sb_SourceCode t = cs_SourceCode q \<and>
         db_uuid_in d p = Some k \<and> db_uuid_in d k = Some (sb_ProblemID t)))"
proof -
  have i: "elems (unmarshal (marshal to_valid_utf8 xs)) = map to_valid_utf8 (elems xs)" for xs by (cases xs) auto
  from assms show ?thesis
    unfolding promised_def stored_run_def row_sat_def stored_submission_def by (fastforce simp: i)
qed

section \<open>Properties\<close>

text \<open>
  C2: results are what the programs gave: in every state the running system can reach, with the accesses of
  workers, judgements, requests, recovery and sweeps interleaved in any order and with any failures of
  database and Redis, a completed job has exactly one result per input, in the order of the inputs, and each
  is the value of \<^verbatim>\<open>Execute\<close> for the program of its row on that input (with its output made valid UTF-8).
\<close>

theorem every_result_is_a_run:
  assumes "starting s0" and "(access_step P pr)\<^sup>*\<^sup>* s0 s1"
    and "r \<in> set (db_executions (wd_db (rn_world s1)))" and "er_job_status r = JobCompleted"
  shows "\<exists>rs. er_results r = Some (marshal enc_result rs) \<and>
    list_all2 (\<lambda>input res. \<exists>h h1. execute_request (pl_host P) (pl_sandbox P) (pl_registry P)
        \<lparr>rq_Language = er_language r, rq_SourceCode = er_source_code r, rq_Input = input\<rparr> h = (Inr res, h1))
      (elems (unmarshal (er_inputs r))) (elems rs)"
  using completed_results_produced [OF assms] by (simp add: results_for_def produced_def [abs_def] row_inputs_def)

lemma starting_example: "starting (at_work queued_world [] [])"
  using fresh_example by (simp add: starting_def queued_world_def database_example_def)

lemma worker_schedule_example:
  "(access_step talking_pool pending_example)\<^sup>*\<^sup>* (at_work queued_world [] [])
     (at_work (process_message talking_pool message_example ''w'' False (after_read queued_world))
      [idle \<lparr>th_msg = message_example, th_worker = ''w'', th_pc = Returned, th_cancelled = False\<rparr>] [])"
  using system_schedules [OF process_example, of "[]"] by simp

theorem every_result_is_a_run_witness:
  "\<exists>s1 r rs. (access_step talking_pool pending_example)\<^sup>*\<^sup>* (at_work queued_world [] []) s1 \<and>
     r \<in> set (db_executions (wd_db (rn_world s1))) \<and> er_job_status r = JobCompleted \<and>
     er_results r = Some (marshal enc_result rs) \<and> length (elems rs) = 1"
proof -
  let ?w = "process_message talking_pool message_example ''w'' False (after_read queued_world)"
  obtain r where r: "r \<in> set (db_executions (wd_db ?w))" "er_job_status r = JobCompleted" "er_inputs r = JArray [[]]"
    using processed_example by auto
  from every_result_is_a_run [OF starting_example worker_schedule_example _ r(2)] r(1,3) obtain rs where
    "er_results r = Some (marshal enc_result rs)" "length (elems rs) = 1" by (auto dest!: list_all2_lengthD)
  with worker_schedule_example r show ?thesis
    by (intro exI conjI) (assumption, simp_all)
qed

text \<open>
  C4: a run is acknowledged only when it is over: whenever a worker of the running system is about to
  acknowledge the message of a run, the job is completed or dead-lettered, whatever the others are doing.
\<close>

theorem every_acked_run_is_over:
  assumes "starting s0" and "(access_step P pr)\<^sup>*\<^sup>* s0 s1" and "th \<in> fst ` set (rn_workers s1)"
    and "th_pc th = AtAck" and "qm_JobType (th_msg th) \<noteq> ''submission''"
  shows "\<exists>r. find_row er_id (qm_JobID (th_msg th)) (db_executions (wd_db (rn_world s1))) = Some r \<and>
    (er_job_status r = JobCompleted \<or> er_job_status r = JobDeadLettered)"
proof -
  have "sys_inv {P} (rn_world s1, map fst (rn_workers s1))" using reachable_inv [OF assms(1,2)] by (simp add: running_inv_def)
  then have "thread_inv {P} (wd_db (rn_world s1)) th" using assms(3) by (auto simp: sys_inv_def)
  with assms(4,5) show ?thesis by (auto simp: thread_inv_def finished_def row_sat_def terminal_status_def)
qed

theorem every_acked_run_is_over_witness:
  "\<exists>r. find_row er_id ''exec_1'' (db_executions (wd_db (after_read dead_world))) = Some r \<and>
     (er_job_status r = JobCompleted \<or> er_job_status r = JobDeadLettered)"
proof -
  let ?th = "start_thread message_example ''w''\<lparr>th_pc := AtAck\<rparr>"
  have s: "starting (at_work dead_world [] [])"
    using dead_world_fresh by (simp add: starting_def dead_world_def database_example_def)
  have r: "(access_step talking_pool pending_example)\<^sup>*\<^sup>* (at_work dead_world [] [])
      (at_work (after_read dead_world) [idle ?th] [])"
    using system_schedules [OF dead_world_ack, of "[]"] by simp
  from every_acked_run_is_over [OF s r, of ?th] show ?thesis
    by (simp add: idle_def start_thread_def message_example_def)
qed

text \<open>
  accepted work is never lost: once the answer to a request says that a run or a submission is accepted,
  then from that moment on, in every state the running system can reach, the database has it under the id
  of the answer, with the program, the inputs, the author and the problem the client sent.
\<close>

theorem accepted_work_survives:
  assumes "starting s0" and "(access_step P pr)\<^sup>*\<^sup>* s0 s1"
    and "Serving A r (Answer (Answered rep)) \<in> set (rn_calls s1)" and "(access_step P pr)\<^sup>*\<^sup>* s1 s2"
  shows "(\<forall>i. accepted_run rep = Some i \<longrightarrow>
      (\<exists>q row. job_asked A r = Some q \<and> find_row er_id i (db_executions (wd_db (rn_world s2))) = Some row \<and>
         er_language row = jr_Language q \<and> er_source_code row = jr_SourceCode q \<and>
         elems (unmarshal (er_inputs row)) = map to_valid_utf8 (elems (jr_Inputs q)))) \<and>
    (\<forall>s. accepted_submission rep = Some s \<longrightarrow>
      (\<exists>p q t k. submission_asked A r = Some (p, q) \<and>
         find_row sb_ID (sb_ID s) (db_submissions (wd_db (rn_world s2))) = Some t \<and>
         sb_UserID t = cs_UserID q \<and> sb_Language t = cs_Language q \<and> sb_SourceCode t = cs_SourceCode q \<and>
         db_uuid_in (wd_db (rn_world s2)) p = Some k \<and> db_uuid_in (wd_db (rn_world s2)) k = Some (sb_ProblemID t)))"
proof -
  let ?N = "length (db_test_cases (wd_db (rn_world s0)))"
  note inv = reachable_inv [OF assms(1,2)]
  with assms(3) have "call_ok {P} ?N (rn_world s1) (Serving A r (Answer (Answered rep)))" by (auto simp: running_inv_def)
  then have "kept A r (Answered rep) (wd_db (rn_world s1))" by (simp add: world_moves_def)
  then have "promised A r rep (wd_db (rn_world s2))"
    using access_steps_inv [OF assms(4) inv singletonI] promised_moves by (auto simp: kept_def)
  then show ?thesis by (rule promised_rows)
qed

text \<open>
  verdicts are the judge's: a submission that is completed in a reachable state has one of the judge's
  verdicts; an accepted one passed all the test cases its problem had when it was judged, at least those
  stored before the system started; and one that failed a test passed all the tests before it.
\<close>

theorem completed_submission_was_judged:
  assumes "starting s0" and "canonical (wd_db (rn_world s0))" and "(access_step P pr)\<^sup>*\<^sup>* s0 s1"
    and "t \<in> set (db_submissions (wd_db (rn_world s1)))" and "sb_Status t = SubmissionStatusCompleted"
  shows "sb_Verdict t \<in> {VerdictCompilationError, VerdictInternalError} \<or>
    (\<exists>prob n ex. prob \<in> set (db_problems (wd_db (rn_world s1))) \<and>
       db_uuid_in (wd_db (rn_world s1)) (sb_ProblemID t) = Some (pb_ID prob) \<and>
       length (db_test_cases (wd_db (rn_world s0))) \<le> n \<and> n \<le> length (db_test_cases (wd_db (rn_world s1))) \<and>
       get_executor (en_registry (pl_engine P)) (sb_Language t) = Inr ex \<and>
       sb_TotalTestCases t = int (length (tests_then (wd_db (rn_world s1)) n (pb_ID prob))) \<and>
       tests_decide (pl_engine P) ex prob (tests_then (wd_db (rn_world s1)) n (pb_ID prob)) t)"
proof -
  let ?d = "wd_db (rn_world s1)" and ?N = "length (db_test_cases (wd_db (rn_world s0)))" and ?E = "pl_engine P"
  have m: "moves {P} ?N (wd_db (rn_world s0)) ?d"
    using access_steps_inv [OF assms(3) starting_inv [OF assms(1) order_refl] singletonI] by simp
  have "subs_ok {?E} ?N ?d"
    using reachable_inv [OF assms(1,3)] assms(2) canonical_extends [OF moves_extends [OF m]] by (simp add: running_inv_def)
  with assms(4,5) have t: "judged ?E ?N ?d t" by (simp add: subs_ok_def judged_by_def)
  from judged_decided [OF t] show ?thesis by blast
qed

section \<open>Examples\<close>

text \<open>A client's execution is accepted while nobody else is at work.\<close>

lemma accepted_schedule:
  fixes w :: "(nat \<times> queue_event list, nat) world"
  assumes "db_script (wd_db w) = []" and "db_executions (wd_db w) = []" and "wd_host w = 1"
  shows "\<exists>w1. (access_step P pr)\<^sup>*\<^sup>* (at_work w [] []) (at_work w1 [] [Serving api_example (request_to ''POST'' [''api'', ''v1'', ''executions''])
        (Answer (Answered (JsonReply True (Some 202) (AcceptedValue ''exec_1'' JobQueued))))])"
proof -
  let ?r = "request_to ''POST'' [''api'', ''v1'', ''executions'']"
  obtain w1 where w1: "handle_execute api_example (request_to ''POST'' []) w =
     (JsonReply True (Some 202) (AcceptedValue ''exec_1'' JobQueued), w1)" using handle_execute_empty [OF assms] by blast
  have mux: "mux_lookup api_routes ?r = Route Execute []"
    by (simp add: mux_lookup_def request_to_def route_defs match_path_def method_matches_def)
  have "handle_execute api_example (?r\<lparr>hq_vars := []\<rparr>) w = handle_execute api_example (request_to ''POST'' []) w"
    by (simp add: handle_execute_def request_to_def)
  with w1 mux have "api_request api_example ?r w =
      (Answered (JsonReply True (Some 202) (AcceptedValue ''exec_1'' JobQueued)), w1)"
    by (simp add: api_request_def guarded_execute_def api_example_def)
  then have "run_task (request_task api_example ?r) w =
      (Answered (JsonReply True (Some 202) (AcceptedValue ''exec_1'' JobQueued)), w1)"
    by (simp add: run_request_task)
  from serve_all [OF this, of P pr "[]" api_example ?r "[]"]
    access_step.request [of P pr w "[]" "[]" api_example ?r]
  show ?thesis by (blast intro: converse_rtranclp_into_rtranclp)
qed

theorem accepted_work_survives_witness:
  "\<exists>s1 row. (access_step talking_pool pending_example)\<^sup>*\<^sup>* (at_work (shop_world []) [] []) s1 \<and>
     find_row er_id ''exec_1'' (db_executions (wd_db (rn_world s1))) = Some row \<and> er_language row = ''python''"
proof -
  let ?r = "request_to ''POST'' [''api'', ''v1'', ''executions'']"
  let ?rep = "JsonReply True (Some 202) (AcceptedValue ''exec_1'' JobQueued)"
  obtain w1 where s1: "(access_step talking_pool pending_example)\<^sup>*\<^sup>* (at_work (shop_world []) [] [])
     (at_work w1 [] [Serving api_example ?r (Answer (Answered ?rep))])"
    using accepted_schedule [of "shop_world []"] by (auto simp: shop_world_def database_example_def)
  have st: "starting (at_work (shop_world []) [] [])"
    by (simp add: starting_def fresh_start_def shop_world_def database_example_def table_ok_def)
  have "mux_lookup api_routes ?r = Route Execute []"
    by (simp add: mux_lookup_def request_to_def route_defs match_path_def method_matches_def)
  then have q: "job_asked api_example ?r = Some job_request_example"
    by (simp add: job_asked_def api_example_def)
  have "\<exists>q row. job_asked api_example ?r = Some q \<and> find_row er_id ''exec_1'' (db_executions (wd_db w1)) = Some row \<and>
      er_language row = jr_Language q"
    using accepted_work_survives [OF st s1, of api_example ?r ?rep, OF _ rtranclp.rtrancl_refl] by (auto simp del: split_paired_Ex)
  with s1 q show ?thesis
    by (intro exI [of _ "at_work w1 [] [Serving api_example ?r (Answer (Answered ?rep))]"])
      (auto simp: job_request_example_def)
qed

text \<open>A worker that judges the submission of a problem with two tests.\<close>

definition judge_pool :: "(nat \<times> queue_event list, nat) pool" where
  "judge_pool = (pool_example host_example runtime_example)
     \<lparr>pl_redis := logged_redis (silent_redis\<lparr>rx_XReadGroup := (\<lambda>g c st n. (Inr [[submission_message]], n))\<rparr>)\<rparr>"

definition judge_database :: database where
  "judge_database = (database_example [])\<lparr>db_submissions := [submission_example], db_problems := [problem_example],
     db_test_cases := [test_example ''ok'', test_example ''no'']\<rparr>"

definition judge_world :: "(nat \<times> queue_event list, nat) world" where
  "judge_world = \<lparr>wd_db = judge_database, wd_queue = (0, []), wd_host = 0\<rparr>"

lemma judge_schedule:
  assumes "consume (pl_redis P) (pl_queue P) flag ''w'' (Suc 0) 0 (wd_queue w) = Some (Inr msg, q)"
    and msg: "qm_JobID msg = ''s1''" "qm_JobType msg = ''submission''" and "en_analyzer (pl_engine P) = None"
    and d: "db_submissions (wd_db w) = [submission_example]" "length (db_test_cases (wd_db w)) = 2"
      "db_script (wd_db w) = []" "db_uuid_in (wd_db w) = Some"
  shows "\<exists>w1 th. (access_step P pr)\<^sup>*\<^sup>* (at_work w [] []) (at_work w1 [(th, None)] []) \<and>
     (\<exists>t \<in> set (db_submissions (wd_db w1)). sb_Status t = SubmissionStatusCompleted)"
proof -
  let ?th = "start_thread msg ''w''" and ?w = "w\<lparr>wd_queue := q\<rparr>"
  from access_step.receive [OF assms(1), of "[]" pr "[]"]
  have rec: "access_step P pr (at_work w [] []) (at_work ?w [(?th, None)] [])" by simp
  obtain ret w1 where j: "judge (pl_engine P) ''s1'' ?w = (ret, w1)" by fastforce
  have "run_step P ?th ?w = (?th\<lparr>th_pc := AtAck\<rparr>, w1)"
    by (simp add: run_step_def start_thread_def start_pc_def j msg)
  from judge_runs [OF _ _ _ this, of 0 "[(?th, None)]" pr "[]"] rec
  have reach: "(access_step P pr)\<^sup>*\<^sup>* (at_work w [] []) (at_work w1 [(?th\<lparr>th_pc := AtAck\<rparr>, None)] [])"
    by (simp add: start_thread_def start_pc_def msg converse_rtranclp_into_rtranclp)
  have "submission_storable submission_example" by code_simp
  moreover have "0 \<le> sb_PassedTestCases submission_example"
    "sb_PassedTestCases submission_example + int (length (db_test_cases (wd_db ?w))) \<le> int4_max"
    using d(2) by (simp_all add: submission_example_def int4_max_def)
  moreover have "find_row sb_ID ''s1'' (db_submissions (wd_db ?w)) = Some submission_example"
    using d(1) by (simp add: submission_example_def)
  moreover have "db_script (wd_db ?w) = []" "db_uuid_in (wd_db ?w) ''s1'' = Some ''s1''" using d(3,4) by simp_all
  ultimately obtain t where "find_row sb_ID ''s1'' (db_submissions (wd_db w1)) = Some t" "sb_Status t = SubmissionStatusCompleted"
    using judge_stores_verdict [OF _ _ _ assms(4) _ _ _ j] by blast
  with reach show ?thesis by (blast dest: find_row_SomeD)
qed

lemma judge_schedule_example:
  "\<exists>w1 th. (access_step judge_pool pending_example)\<^sup>*\<^sup>* (at_work judge_world [] []) (at_work w1 [(th, None)] []) \<and>
     (\<exists>t \<in> set (db_submissions (wd_db w1)). sb_Status t = SubmissionStatusCompleted)"
proof -
  let ?msg = "\<lparr>qm_ID = ''1-0'', qm_JobID = ''s1'', qm_JobType = ''submission''\<rparr>"
  have "consume (pl_redis judge_pool) (pl_queue judge_pool) (\<lambda>k. False) ''w'' (Suc 0) 0 (wd_queue judge_world) =
      Some (Inr ?msg, (0, [EvRead (Inr [[submission_message]])]))"
    by (simp add: judge_pool_def pool_example_def judge_world_def logged_redis_def silent_redis_def first_message_def
        decode_message_def submission_message_def)
  from judge_schedule [OF this] show ?thesis
    by (simp add: judge_pool_def pool_example_def judge_world_def judge_database_def database_example_def)
qed

theorem completed_submission_was_judged_witness:
  "\<exists>s1 t. (access_step judge_pool pending_example)\<^sup>*\<^sup>* (at_work judge_world [] []) s1 \<and>
     t \<in> set (db_submissions (wd_db (rn_world s1))) \<and> sb_Status t = SubmissionStatusCompleted \<and>
     (sb_Verdict t \<in> {VerdictCompilationError, VerdictInternalError} \<or>
      (\<exists>n \<ge> 2. \<exists>u. sb_TotalTestCases t = int (length (tests_then (wd_db (rn_world s1)) n u))))"
proof -
  obtain w1 th t where s1: "(access_step judge_pool pending_example)\<^sup>*\<^sup>* (at_work judge_world [] []) (at_work w1 [(th, None)] [])"
    and t: "t \<in> set (db_submissions (wd_db w1))" "sb_Status t = SubmissionStatusCompleted"
    using judge_schedule_example by blast
  have st: "starting (at_work judge_world [] [])"
    by (simp add: starting_def fresh_start_def judge_world_def judge_database_def database_example_def table_ok_def
        submission_example_def)
  have can: "canonical (wd_db (rn_world (at_work judge_world [] [])))"
    by (simp add: canonical_def judge_world_def judge_database_def database_example_def)
  have "sb_Verdict t \<in> {VerdictCompilationError, VerdictInternalError} \<or>
      (\<exists>n \<ge> 2. \<exists>u. sb_TotalTestCases t = int (length (tests_then (wd_db w1) n u)))"
    using completed_submission_was_judged [OF st can s1, of t] t
    by (auto simp: judge_world_def judge_database_def numeral_2_eq_2)
  with s1 t show ?thesis by (intro exI [of _ "at_work w1 [(th, None)] []"] exI [of _ t]) simp
qed

end
