(* ===== verification/Running_Jobs.thy ===== *)
theory Running_Jobs imports Interleaving_Contract begin

text \<open>
  The running system refines the job machine of \<open>Job_Spec\<close>: the contract \<open>job_machine\<close> is interpreted a second
  time, on \<open>access_step\<close>, so that what the machine promises holds of every interleaving of the accesses of
  the whole program.
\<close>

section \<open>How often a job can change\<close>

text \<open>A list of states in which each is a step after the one before, and how often a quantity changes along it.\<close>

fun is_run :: "('s \<Rightarrow> 's \<Rightarrow> bool) \<Rightarrow> 's list \<Rightarrow> bool" where
  "is_run step (s # t # run) \<longleftrightarrow> step s t \<and> is_run step (t # run)"
| "is_run step _ \<longleftrightarrow> True"

fun changes :: "'a list \<Rightarrow> nat" where
  "changes (x # y # xs) = (if x = y then 0 else 1) + changes (y # xs)"
| "changes _ = 0"

lemma changes_map:
  assumes "\<And>x y. f x = f y \<Longrightarrow> g x = g y"
  shows "changes (map g xs) \<le> changes (map f xs)"
proof (induction xs rule: changes.induct)
  case (1 x y xs)
  then show ?case using assms [of x y] by simp
qed simp_all

lemma is_run_reach: "is_run step (s # run) \<Longrightarrow> t \<in> set (s # run) \<Longrightarrow> step\<^sup>*\<^sup>* s t"
proof (induction run arbitrary: s)
  case (Cons u run)
  then show ?case by (auto intro: converse_rtranclp_into_rtranclp)
qed simp

context job_machine
begin

lemma step_rank:
  assumes "ok s" and "step s t" and "job s i = Some a"
  shows "\<exists>b. job t i = Some b \<and> budget t i = budget s i \<and>
    job_rank (budget s i) b + (if a = b then 0 else 1) \<le> job_rank (budget s i) a"
proof -
  from simulates [OF assms] obtain b where
    b: "job t i = Some b" "(job_step (budget s i))\<^sup>*\<^sup>* a b" "budget t i = budget s i" by blast
  from b(2) obtain k where k: "(job_step (budget s i) ^^ k) a b" by (auto simp: rtranclp_power)
  from path_length [OF k ok_attempts [OF assms(1,3)]] k
  have "job_rank (budget s i) b + (if a = b then 0 else 1) \<le> job_rank (budget s i) a" by (cases k) auto
  with b show ?thesis by blast
qed

lemma changes_bounded:
  "is_run step (s # run) \<Longrightarrow> ok s \<Longrightarrow> job s i = Some a \<Longrightarrow>
     changes (map (\<lambda>t. job t i) (s # run)) \<le> job_rank (budget s i) a"
proof (induction run arbitrary: s a)
  case (Cons t run)
  from Cons.prems have "step s t" "is_run step (t # run)" by simp_all
  moreover from step_rank [OF Cons.prems(2) this(1) Cons.prems(3)] obtain b where
    "job t i = Some b" "budget t i = budget s i"
    "job_rank (budget s i) b + (if a = b then 0 else 1) \<le> job_rank (budget s i) a" by blast
  ultimately show ?case
    using Cons.IH [of t b] ok_step [OF Cons.prems(2)] Cons.prems(3) by (auto split: if_splits)
qed simp

end

section \<open>The running system\<close>

abbreviation jobs_of :: "('q, 'h) running \<Rightarrow> string \<Rightarrow> string job_state option" where
  "jobs_of s \<equiv> job_in (wd_db (rn_world s))"

abbreviation budgets_of :: "('q, 'h) running \<Rightarrow> string \<Rightarrow> int" where
  "budgets_of s \<equiv> budget_in (wd_db (rn_world s))"

lemma moves_sim: "moves F N d d1 \<Longrightarrow> table_sim d d1"
  by (simp add: moves_def grows_def)

lemma access_step_sim: "access_step P pr s t \<Longrightarrow> running_inv F N s \<Longrightarrow> P \<in> F \<Longrightarrow> table_sim (wd_db (rn_world s)) (wd_db (rn_world t))"
  by (rule moves_sim) (rule access_step_inv [THEN conjunct2])

lemma running_table_ok: "running_inv F N s \<Longrightarrow> table_ok (wd_db (rn_world s))"
  by (simp add: running_inv_def sys_inv_def)

lemma table_sim_job:
  assumes "table_sim d d1" and "job_in d i = Some a"
  shows "\<exists>b. job_in d1 i = Some b \<and> (job_step (budget_in d i))\<^sup>*\<^sup>* a b \<and> budget_in d1 i = budget_in d i"
proof -
  from assms(2) obtain r where r: "find_row er_id i (db_executions d) = Some r" "a = abs_row r" by (auto simp: job_in_def)
  from table_simD [OF assms(1) r(1)] obtain q where
    "find_row er_id i (db_executions d1) = Some q" "row_sim r q" by blast
  with r show ?thesis by (simp add: job_in_def budget_in_def row_sim_def)
qed

lemma table_sim_finished:
  assumes "table_sim d d1" and "find_row er_id i (db_executions d) = Some r"
    and "er_job_status r = JobCompleted \<or> er_job_status r = JobDeadLettered"
  shows "\<exists>q. find_row er_id i (db_executions d1) = Some q \<and>
    q = r\<lparr>er_last_dispatched_at := er_last_dispatched_at q\<rparr> \<and> er_results q = er_results r"
proof -
  from table_simD [OF assms(1,2)] obtain q where
    q: "find_row er_id i (db_executions d1) = Some q" "row_sim r q" by blast
  then have e: "q = r\<lparr>er_last_dispatched_at := er_last_dispatched_at q\<rparr>"
    using assms(3) by (simp add: row_sim_def terminal_status_def)
  have "er_results q = er_results r" by (subst e) simp
  with q(1) e show ?thesis by blast
qed

interpretation running_jobs: job_machine "access_step P pr" "running_inv {P} N" jobs_of budgets_of
  for P :: "('q, 'h) pool" and pr N
proof
  fix s t :: "('q, 'h) running" and i a
  show "running_inv {P} N s \<Longrightarrow> access_step P pr s t \<Longrightarrow> running_inv {P} N t" using access_step_inv [of P pr s t "{P}" N] by blast
  show "\<exists>b. jobs_of t i = Some b \<and> (job_step (budgets_of s i))\<^sup>*\<^sup>* a b \<and> budgets_of t i = budgets_of s i"
    if "running_inv {P} N s" "access_step P pr s t" "jobs_of s i = Some a"
    by (rule table_sim_job [OF access_step_sim [OF that(2,1) singletonI] that(3)])
  show "attempts_ok (budgets_of s i) a" if "running_inv {P} N s" "jobs_of s i = Some a"
    by (rule pg_jobs.ok_attempts [OF running_table_ok [OF that(1)] that(2)])
qed

text \<open>The state of a job determines the status of its row.\<close>

lemma abs_row_status: "abs_row r = abs_row q \<Longrightarrow> er_job_status r = er_job_status q"
  by (auto simp: abs_row_def phase_of_def split: job_status.splits)

definition status_in :: "('q, 'h) running \<Rightarrow> string \<Rightarrow> job_status option" where
  "status_in s i = map_option er_job_status (find_row er_id i (db_executions (wd_db (rn_world s))))"

lemma jobs_of_status: "jobs_of s i = jobs_of t i \<Longrightarrow> status_in s i = status_in t i"
  by (auto simp: job_in_def status_in_def map_option_case dest: abs_row_status split: option.splits)

lemma row_rank:
  assumes "row_ok r"
  shows "int (job_rank (er_max_attempts r) (abs_row r)) \<le> 4 * (max 1 (er_max_attempts r) - er_attempt_count r) + 3"
proof -
  have "0 \<le> max 1 (er_max_attempts r) - er_attempt_count r" using assms by (simp add: row_ok_def attempt_budget_def)
  moreover have "phase_rank (phase_of r) \<le> 2" by (cases "phase_of r") auto
  ultimately show ?thesis by (auto simp: job_rank_def abs_row_def)
qed

section \<open>Properties\<close>

text \<open>
  the running program refines the job machine: from a start with tables at rest, along every interleaving
  of the accesses of all its parts and with any failures of database and Redis, a job that is in the table
  stays there, keeps its budget of attempts and moves by the steps of the abstract machine only.
\<close>

theorem running_program_refines_machine:
  assumes "starting s0" and "(access_step P pr)\<^sup>*\<^sup>* s0 s1" and "(access_step P pr)\<^sup>*\<^sup>* s1 s2"
    and "job_in (wd_db (rn_world s1)) i = Some a"
  shows "\<exists>b. job_in (wd_db (rn_world s2)) i = Some b \<and> (job_step (budget_in (wd_db (rn_world s1)) i))\<^sup>*\<^sup>* a b \<and>
    budget_in (wd_db (rn_world s2)) i = budget_in (wd_db (rn_world s1)) i"
  using running_jobs.reach_simulates [OF assms(3) reachable_inv [OF assms(1,2)] assms(4)] .

lemma queued_job_in: "job_in (wd_db queued_world) ''exec_1'' = Some (PQueued, 0)"
  using example_job by (simp add: queued_world_def)

theorem running_program_refines_machine_witness:
  "\<exists>b. job_in (wd_db (process_message talking_pool message_example ''w'' False (after_read queued_world))) ''exec_1'' = Some b \<and>
     (job_step 5)\<^sup>*\<^sup>* (PQueued, 0) b"
proof -
  have "budget_in (wd_db queued_world) ''exec_1'' = 5"
    by (simp add: budget_in_def queued_world_def example_defs)
  with running_program_refines_machine [OF starting_example rtranclp.rtrancl_refl worker_schedule_example, of "''exec_1''" "(PQueued, 0)"]
  show ?thesis by (auto simp: queued_job_in)
qed

text \<open>
  results are final: once a job is completed or dead-lettered in a reachable state, its row never changes
  again, its results included, except for the marker of its last dispatch, whatever the parts of the
  program and the world around it do.
\<close>

theorem finished_rows_stay:
  assumes "starting s0" and "(access_step P pr)\<^sup>*\<^sup>* s0 s1" and "(access_step P pr)\<^sup>*\<^sup>* s1 s2"
    and "find_row er_id i (db_executions (wd_db (rn_world s1))) = Some r"
    and "er_job_status r = JobCompleted \<or> er_job_status r = JobDeadLettered"
  shows "\<exists>q. find_row er_id i (db_executions (wd_db (rn_world s2))) = Some q \<and>
    q = r\<lparr>er_last_dispatched_at := er_last_dispatched_at q\<rparr> \<and> er_results q = er_results r"
  using table_sim_finished [OF moves_sim assms(4,5)] access_steps_inv [OF assms(3) reachable_inv [OF assms(1,2)] singletonI]
  by blast

text \<open>After the worker a tick of the recovery service.\<close>

theorem finished_rows_stay_witness:
  "\<exists>(r :: execution_row) w2 q. run_task (tick_task (pl_redis talking_pool) (pl_queue talking_pool) 30)
       (process_message talking_pool message_example ''w'' False (after_read queued_world)) = ((), w2) \<and>
     er_job_status r = JobCompleted \<and>
     find_row er_id (er_id r) (db_executions (wd_db w2)) = Some q \<and> er_results q = er_results r"
proof -
  let ?w = "process_message talking_pool message_example ''w'' False (after_read queued_world)"
  let ?t = "tick_task (pl_redis talking_pool) (pl_queue talking_pool) 30"
  obtain r where r: "r \<in> set (db_executions (wd_db ?w))" "er_job_status r = JobCompleted" using processed_example by blast
  have "table_ok (wd_db ?w)"
    using running_table_ok [OF reachable_inv [OF starting_example worker_schedule_example]] by simp
  with r(1) have f: "find_row er_id (er_id r) (db_executions (wd_db ?w)) = Some r"
    by (simp add: table_ok_def find_row_distinct)
  obtain u w2 where w2: "run_task ?t ?w = (u, w2)" by (metis surj_pair)
  from background_runs [OF access_step.tick] w2 have
    "(access_step talking_pool pending_example)\<^sup>*\<^sup>* (at_work ?w ws []) (at_work w2 ws [])" for ws by simp
  from finished_rows_stay [OF starting_example worker_schedule_example this, of "er_id r" r] f r(2) obtain q where
    "find_row er_id (er_id r) (db_executions (wd_db w2)) = Some q" "er_results q = er_results r" by auto
  with w2 r(2) show ?thesis by auto
qed



text \<open>
  C31: every job comes to rest: along any run of the program from a reachable state, however long and however
  its parts interleave, the status of a job changes at most four times per attempt it has left and three
  times more; after the last of these changes it stays what it is.
\<close>

theorem job_comes_to_rest:
  assumes "starting s0" and "(access_step P pr)\<^sup>*\<^sup>* s0 s1" and "is_run (access_step P pr) (s1 # run)"
    and "find_row er_id i (db_executions (wd_db (rn_world s1))) = Some r"
  shows "int (changes (map (\<lambda>s. map_option er_job_status (find_row er_id i (db_executions (wd_db (rn_world s))))) (s1 # run)))
    \<le> 4 * (max 1 (er_max_attempts r) - er_attempt_count r) + 3"
proof -
  note inv = reachable_inv [OF assms(1,2)]
  have j: "jobs_of s1 i = Some (abs_row r)" "budgets_of s1 i = er_max_attempts r"
    using assms(4) by (simp_all add: job_in_def budget_in_def)
  have "row_ok r" using running_table_ok [OF inv] find_row_SomeD [OF assms(4)] by (auto simp: table_ok_def)
  note rank = row_rank [OF this]
  have "changes (map (\<lambda>s. status_in s i) (s1 # run)) \<le> changes (map (\<lambda>s. jobs_of s i) (s1 # run))"
    by (rule changes_map) (rule jobs_of_status)
  also have "\<dots> \<le> job_rank (er_max_attempts r) (abs_row r)"
    using running_jobs.changes_bounded [OF assms(3) inv j(1)] j(2) by simp
  finally show ?thesis using rank by (simp add: status_in_def)
qed

theorem job_comes_to_rest_witness:
  "int (changes (map (\<lambda>s. map_option er_job_status (find_row er_id ''exec_1'' (db_executions (wd_db (rn_world s)))))
     [at_work queued_world [] [], at_work (queued_world\<lparr>wd_db := heartbeat_tick ''w'' (wd_db queued_world)\<rparr>) [] []])) \<le> 23"
proof -
  let ?s = "at_work (queued_world\<lparr>wd_db := heartbeat_tick ''w'' (wd_db queued_world)\<rparr>) [] []"
  have run: "is_run (access_step talking_pool pending_example) [at_work queued_world [] [], ?s]"
    by (simp add: access_step.beat)
  have r: "find_row er_id ''exec_1'' (db_executions (wd_db (rn_world (at_work queued_world [] [])))) =
      Some (row_example JobQueued None 0 5)" by (simp add: queued_world_def example_defs)
  from job_comes_to_rest [OF starting_example rtranclp.rtrancl_refl run r] show ?thesis
    by (simp add: row_example_def)
qed

end
