(* ===== verification/Progress.thy ===== *)
theory Progress imports Running_Jobs begin

text \<open>
  No state of the running system is a dead end for a job: from every reachable state, whatever has happened,
  there is a continuation that completes a job which is not finished and has an attempt left.
\<close>

section \<open>Continuations of a state\<close>

text \<open>A worker takes its next step, while the others wait.\<close>

lemma worker_step_runs:
  assumes "step_at P (th_msg th) (th_worker th) (th_cancelled th) (th_pc th) w = (pc, w1)"
  shows "(access_step P pr)\<^sup>*\<^sup>* (at_work w ((th, None) # ws) cs) (at_work w1 ((th\<lparr>th_pc := pc\<rparr>, None) # ws) cs)"
proof -
  have s: "run_step P th w = (th\<lparr>th_pc := pc\<rparr>, w1)" using assms by (simp add: run_step_def)
  show ?thesis
  proof (cases "th_pc th = AtJudge")
    case True
    from judge_runs [of 0 "(th, None) # ws" th P w "th\<lparr>th_pc := pc\<rparr>" w1 pr cs] True s show ?thesis by simp
  next
    case False
    from access_step.run [of 0 "(th, None) # ws" th P w "th\<lparr>th_pc := pc\<rparr>" w1 pr cs] False s show ?thesis
      by (simp add: r_into_rtranclp)
  qed
qed

lemma worker_runs:
  "(access_step P pr)\<^sup>*\<^sup>*
     (at_work w ((\<lparr>th_msg = msg, th_worker = worker, th_pc = pc, th_cancelled = c\<rparr>, None) # ws) cs)
     (at_work (process P msg worker c pc w)
       ((\<lparr>th_msg = msg, th_worker = worker, th_pc = Returned, th_cancelled = c\<rparr>, None) # ws) cs)"
proof (induction P msg worker c pc w rule: process.induct)
  case (1 P msg worker c pc w)
  show ?case
  proof (cases "pc = Returned")
    case False
    obtain pc1 w1 where s: "step_at P msg worker c pc w = (pc1, w1)" by fastforce
    with worker_step_runs [of P "\<lparr>th_msg = msg, th_worker = worker, th_pc = pc, th_cancelled = c\<rparr>" w pc1 w1 pr ws cs]
      "1.IH" [OF False s [symmetric] refl] process_step [OF s False] show ?thesis by (simp add: rtranclp_trans)
  qed simp
qed

text \<open>A pass of lease recovery, and no more of its tick.\<close>

lemma recovery_pass:
  "(access_step P pr)\<^sup>*\<^sup>* (at_work w ws cs) (at_work (w\<lparr>wd_db := recover_abandoned_jobs (wd_db w)\<rparr>) ws cs)"
proof -
  let ?w1 = "w\<lparr>wd_db := recover_abandoned_jobs (wd_db w)\<rparr>"
  obtain f t where t: "tick_task (pl_redis P) (pl_queue P) 0 = Access f" "f w = (t, ?w1)"
    by (simp add: tick_task_def on_db_def bind_task_access)
  have "access_step P pr (at_work w ws cs) (at_work w ws (Background (Access f) # cs))"
    using access_step.tick [of P pr w ws cs 0] t(1) by simp
  moreover have "access_step P pr (at_work w ws (Background (Access f) # cs)) (at_work ?w1 ws (Background t # cs))"
    using access_step.work [of 0 "Background (Access f) # cs" f w t ?w1 P pr ws] t(2) by simp
  moreover have "access_step P pr (at_work ?w1 ws (Background t # cs)) (at_work ?w1 ws cs)"
    using access_step.gone [of P pr ?w1 ws "[]" "Background t" cs] by simp
  ultimately show ?thesis by (meson converse_rtranclp_into_rtranclp r_into_rtranclp)
qed

text \<open>A free worker that receives the message of a queued job in a quiet world completes it.\<close>

lemma queued_job_completes:
  fixes w :: "('q \<times> queue_event list, 'h) world"
  assumes redis: "pl_redis P = logged_redis C" and script: "db_script (wd_db w) = []" and ok: "table_ok (wd_db w)"
    and row: "find_row er_id (qm_JobID msg) (db_executions (wd_db w)) = Some r"
    and due: "claim_where (qm_JobID msg) (db_now (wd_db w)) r" "er_attempt_count r < int4_max"
    and exec: "execute_all P (job_of_row r) (elems (unmarshal (er_inputs r))) h = Some (rs, h1)"
    and store: "list_all result_storable rs" and type: "qm_JobType msg \<noteq> ''submission''"
    and read: "consume (pl_redis P) (pl_queue P) flag worker polls 0 q = Some (Inr msg, q1)"
    and free: "worker \<notin> (th_worker \<circ> fst) ` set ws"
  shows "\<exists>w2 ws2 q. (access_step P pr)\<^sup>*\<^sup>* (at_work w ws cs) (at_work w2 ws2 cs) \<and>
    find_row er_id (qm_JobID msg) (db_executions (wd_db w2)) = Some q \<and> er_job_status q = JobCompleted \<and>
    er_results q = Some (marshal enc_result (append_all None rs))"
proof -
  let ?w1 = "w\<lparr>wd_queue := q, wd_host := h\<rparr>" and ?w2 = "w\<lparr>wd_host := h, wd_queue := q1\<rparr>"
  have r1: "access_step P pr (at_work w ws cs) (at_work ?w1 ws cs)"
    using access_step.outside [of w "wd_db w" P pr ws cs h q] by simp
  have r2: "access_step P pr (at_work ?w1 ws cs) (at_work ?w2 ((start_thread msg worker, None) # ws) cs)"
    using access_step.receive [of P flag worker polls ?w1 msg q1 ws pr cs] read free by simp
  have "(access_step P pr)\<^sup>*\<^sup>* (at_work ?w2 ((start_thread msg worker, None) # ws) cs)
      (at_work (process_message P msg worker False ?w2)
        ((\<lparr>th_msg = msg, th_worker = worker, th_pc = Returned, th_cancelled = False\<rparr>, None) # ws) cs)"
    using worker_runs by (simp add: process_message_def start_thread_def)
  with r1 r2 have run: "(access_step P pr)\<^sup>*\<^sup>* (at_work w ws cs)
      (at_work (process_message P msg worker False ?w2)
        ((\<lparr>th_msg = msg, th_worker = worker, th_pc = Returned, th_cancelled = False\<rparr>, None) # ws) cs)"
    by (meson converse_rtranclp_into_rtranclp)
  from undisturbed_run [of P C ?w2 msg r rs h1 worker False] assms
  have "\<exists>acked_ok. find_row er_id (qm_JobID msg) (db_executions (wd_db (process_message P msg worker False ?w2))) =
      Some (completed_row worker (append_all None rs) (db_now (wd_db w)) r)" by auto
  with run show ?thesis by (intro exI conjI) (assumption, auto)
qed

lemma unfinished_job_completes:
  fixes w :: "('q \<times> queue_event list, 'h) world"
  assumes "table_ok (wd_db w)"
    and row: "find_row er_id i (db_executions (wd_db w)) = Some r"
    and left: "er_job_status r = JobQueued \<or> active_status (er_job_status r) \<and> er_attempt_count r < er_max_attempts r"
    and redis: "pl_redis P = logged_redis C"
    and read: "consume (pl_redis P) (pl_queue P) flag worker polls 0 q = Some (Inr msg, q1)"
    and msg: "qm_JobID msg = i" "qm_JobType msg \<noteq> ''submission''" and free: "worker \<notin> (th_worker \<circ> fst) ` set ws"
    and exec: "execute_all P (job_of_row r) (elems (unmarshal (er_inputs r))) h = Some (rs, h1)"
    and store: "list_all result_storable rs"
  shows "\<exists>w2 ws2 row. (access_step P pr)\<^sup>*\<^sup>* (at_work w ws cs) (at_work w2 ws2 cs) \<and>
    find_row er_id i (db_executions (wd_db w2)) = Some row \<and>
    er_job_status row = JobCompleted \<and> er_results row = Some (marshal enc_result (append_all None rs))"
proof -
  have id: "er_id r = i" using find_row_SomeD [OF row] by simp
  have rok: "row_ok r" using assms(1) find_row_SomeD [OF row] by (auto simp: table_ok_def)
  define now where "now = max (db_now (wd_db w))
    (max (case er_next_retry_at r of None \<Rightarrow> 0 | Some t \<Rightarrow> t) (case er_lease_expires_at r of None \<Rightarrow> 0 | Some t \<Rightarrow> t + 1))"
  let ?d = "(wd_db w)\<lparr>db_now := now, db_script := []\<rparr>"
  let ?w = "w\<lparr>wd_db := ?d\<rparr>"
  have "later (wd_db w) ?d" by (simp add: later_def now_def)
  from access_step.outside [OF this, of P pr ws cs "wd_host w" "wd_queue w"]
  have wait: "access_step P pr (at_work w ws cs) (at_work ?w ws cs)" by simp
  have ok: "table_ok ?d" using assms(1) by (simp add: table_ok_def)
  note complete = queued_job_completes [OF redis _ _ _ _ _ _ store msg(2) read, where ws = ws and cs = cs and h = h and ?h1.0 = h1 and pr = pr]
  have "\<exists>w2 ws2 row. (access_step P pr)\<^sup>*\<^sup>* (at_work ?w ws cs) (at_work w2 ws2 cs) \<and>
    find_row er_id i (db_executions (wd_db w2)) = Some row \<and> er_job_status row = JobCompleted \<and>
    er_results row = Some (marshal enc_result (append_all None rs))"
  proof (cases "er_job_status r = JobQueued")
    case True
    have "er_attempt_count r < int4_max"
      using rok True by (auto simp: row_ok_def attempt_budget_def int4_max_def max_def split: if_splits)
    moreover have "claim_where i (db_now ?d) r"
      using True id by (auto simp: claim_where_def retry_due_def now_def split: option.split)
    ultimately show ?thesis using complete [of ?w r] ok row free msg(1) exec by simp
  next
    case False
    then have act: "active_status (er_job_status r)" "er_attempt_count r < er_max_attempts r" using left by auto
    then have exp: "expired_where (db_now ?d) r"
      using rok by (auto simp: expired_where_def row_ok_def now_def)
    have r0: "find_row er_id i (db_executions ?d) = Some r" "db_script ?d = []" using row by simp_all
    note rec = quiet_recover [OF r0(2,1) exp]
    let ?r1 = "expired_set (db_now ?d) r" and ?w1 = "?w\<lparr>wd_db := recover_abandoned_jobs ?d\<rparr>"
    have due: "claim_where i (db_now (wd_db ?w1)) ?r1" "er_attempt_count ?r1 < int4_max"
      using act(2) rok id by (auto simp: rec claim_where_def expired_set_def retry_due_def row_ok_def)
    have "execute_all P (job_of_row ?r1) = execute_all P (job_of_row r)"
      by (rule execute_all_program) (simp_all add: job_of_row_def expired_set_def)
    then have exec1: "execute_all P (job_of_row ?r1) (elems (unmarshal (er_inputs ?r1))) h = Some (rs, h1)"
      using exec by (simp add: expired_set_def)
    have "(access_step P pr)\<^sup>*\<^sup>* (at_work ?w ws cs) (at_work ?w1 ws cs)" using recovery_pass [of P pr ?w ws cs] by simp
    moreover have "table_ok (wd_db ?w1)" using recover_abandoned_jobs_ok [OF ok] by simp
    ultimately show ?thesis
      using complete [of ?w1 ?r1] due exec1 rec(1,3) free msg(1) by (auto intro: rtranclp_trans)
  qed
  with wait show ?thesis by (blast intro: converse_rtranclp_into_rtranclp)
qed

section \<open>Property\<close>

text \<open>
  no job is stuck: in whatever state the running program has come to, with workers that died in the
  middle of a job, lost messages and failed statements, a job that is queued, or held with another attempt
  left, can still be completed: there is a continuation (the lease and the back-off pass, the database
  answers, a free worker receives a message of the job) at whose end it is completed with the results of its
  program.
\<close>

theorem unfinished_job_can_complete:
  fixes s0 :: "('q \<times> queue_event list, 'h) running"
  assumes "starting s0" and "(access_step P pr)\<^sup>*\<^sup>* s0 s1"
    and "find_row er_id i (db_executions (wd_db (rn_world s1))) = Some r"
    and "er_job_status r = JobQueued \<or> active_status (er_job_status r) \<and> er_attempt_count r < er_max_attempts r"
    and "pl_redis P = logged_redis C"
    and "consume (pl_redis P) (pl_queue P) flag worker polls 0 q = Some (Inr msg, q1)"
    and "qm_JobID msg = i" and "qm_JobType msg \<noteq> ''submission''" and "worker \<notin> (th_worker \<circ> fst) ` set (rn_workers s1)"
    and "execute_all P (job_of_row r) (elems (unmarshal (er_inputs r))) h = Some (rs, h1)" and "list_all result_storable rs"
  shows "\<exists>s2 row. (access_step P pr)\<^sup>*\<^sup>* s1 s2 \<and> find_row er_id i (db_executions (wd_db (rn_world s2))) = Some row \<and>
    er_job_status row = JobCompleted \<and> er_results row = Some (marshal enc_result (append_all None rs))"
proof -
  obtain w ws cs where s1: "s1 = at_work w ws cs" using at_work_all by metis
  have "table_ok (wd_db w)" using running_table_ok [OF reachable_inv [OF assms(1,2)]] by (simp add: s1)
  from unfinished_job_completes [OF this _ assms(4-8) _ assms(10,11), of ws pr cs] assms(3,9) show ?thesis
    by (auto simp: s1)
qed

text \<open>A worker claims the job and dies; another worker completes it.\<close>

lemma abandoned_example:
  "\<exists>w1 r. (access_step talking_pool pending_example)\<^sup>*\<^sup>* (at_work queued_world [] []) (at_work w1 [] []) \<and>
     find_row er_id ''exec_1'' (db_executions (wd_db w1)) = Some r \<and> er_job_status r = JobClaimed \<and>
     er_attempt_count r < er_max_attempts r \<and> er_language r = ''python'' \<and> er_source_code r = ''print(1)'' \<and> er_inputs r = JArray [[]]"
proof -
  let ?r = "row_example JobQueued None 0 5" and ?w = "after_read queued_world"
  note q = queued_world_facts
  from quiet_claim [of "wd_db ?w" "''exec_1''" ?r "''w''" lease_duration] q obtain d1 where
    d1: "pg_claim ''exec_1'' ''w'' lease_duration (wd_db ?w) = (None, d1)"
      "find_row er_id ''exec_1'' (db_executions d1) = Some (claim_set ''w'' lease_duration (db_now (wd_db ?w)) ?r)"
    by (auto simp: message_example_def)
  let ?w1 = "?w\<lparr>wd_db := d1\<rparr>"
  have "step_at talking_pool message_example ''w'' False AtClaim ?w = (AtMarkRunning, ?w1)"
    using d1(1) by (simp add: message_example_def)
  then have "step_at talking_pool (th_msg (start_thread message_example ''w'')) (th_worker (start_thread message_example ''w''))
      (th_cancelled (start_thread message_example ''w'')) (th_pc (start_thread message_example ''w'')) ?w = (AtMarkRunning, ?w1)"
    by (simp add: start_thread_def start_pc_def message_example_def)
  note claim = worker_step_runs [OF this, of pending_example "[]" "[]"]
  have "(sys_step talking_pool pending_example)\<^sup>*\<^sup>* (queued_world, []) (?w, [start_thread message_example ''w''])"
    using receive_example by (rule r_into_rtranclp)
  from system_schedules [OF this, of "[]"] have read: "(access_step talking_pool pending_example)\<^sup>*\<^sup>*
      (at_work queued_world [] []) (at_work ?w [(start_thread message_example ''w'', None)] [])" by (simp add: idle_def)
  have "access_step talking_pool pending_example
      (at_work ?w1 [((start_thread message_example ''w'')\<lparr>th_pc := AtMarkRunning\<rparr>, None)] []) (at_work ?w1 [] [])"
    using access_step.leave [of talking_pool pending_example ?w1 "[]"] by simp
  with read claim have "(access_step talking_pool pending_example)\<^sup>*\<^sup>* (at_work queued_world [] []) (at_work ?w1 [] [])"
    by (meson rtranclp_trans rtranclp.rtrancl_into_rtrancl)
  with d1(2) show ?thesis by (intro exI conjI) (assumption, auto simp: claim_set_def row_example_def)
qed

theorem unfinished_job_can_complete_witness:
  "\<exists>s1 r s2 row. (access_step talking_pool pending_example)\<^sup>*\<^sup>* (at_work queued_world [] []) s1 \<and>
     find_row er_id ''exec_1'' (db_executions (wd_db (rn_world s1))) = Some r \<and> er_job_status r = JobClaimed \<and>
     (access_step talking_pool pending_example)\<^sup>*\<^sup>* s1 s2 \<and>
     find_row er_id ''exec_1'' (db_executions (wd_db (rn_world s2))) = Some row \<and> er_job_status row = JobCompleted"
proof -
  obtain w1 r where reach: "(access_step talking_pool pending_example)\<^sup>*\<^sup>* (at_work queued_world [] []) (at_work w1 [] [])"
    and r: "find_row er_id ''exec_1'' (db_executions (wd_db (rn_world (at_work w1 [] [])))) = Some r"
      "er_job_status r = JobClaimed" "er_attempt_count r < er_max_attempts r"
      "er_language r = ''python''" "er_source_code r = ''print(1)''" "er_inputs r = JArray [[]]"
    using abandoned_example by auto
  have redis: "pl_redis talking_pool = logged_redis talking_redis" by (simp add: talking_pool_def)
  have read: "consume (pl_redis talking_pool) (pl_queue talking_pool) (\<lambda>k. False) ''v'' (Suc 0) 0 (0, []) =
      Some (Inr message_example, (0, [EvRead (Inr [[\<lparr>sm_ID = ''1-0'', sm_Values = [''job_id'' \<mapsto> ''exec_1'']\<rparr>]])]))"
    by (simp add: talking_pool_def pool_example_def talking_redis_def silent_redis_def logged_redis_def
        first_message_def decode_message_def message_example_def)
  have active: "er_job_status r = JobQueued \<or> active_status (er_job_status r) \<and> er_attempt_count r < er_max_attempts r"
    using r(2,3) by (simp add: active_status_def)
  have "execute_all talking_pool (job_of_row r) = execute_all talking_pool (job_of_row (row_example JobQueued None 0 5))"
    by (rule execute_all_program) (simp_all add: job_of_row_def row_example_def r(4,5))
  moreover have "er_inputs r = er_inputs (row_example JobQueued None 0 5)" by (simp add: row_example_def r(6))
  ultimately have exec: "execute_all talking_pool (job_of_row r) (elems (unmarshal (er_inputs r))) 0 =
      Some ([result_of StatusSuccess ''ok'' [] 0], 0)"
    using execute_all_example by (simp add: talking_pool_def execute_all_redis)
  have store: "list_all result_storable [result_of StatusSuccess ''ok'' [] 0]" by (simp add: result_storable_def no_nul_def)
  have msg: "qm_JobID message_example = ''exec_1''" "qm_JobType message_example \<noteq> ''submission''"
    by (simp_all add: message_example_def)
  from unfinished_job_can_complete [OF starting_example reach r(1) active redis read msg _ exec store]
  obtain s2 row where "(access_step talking_pool pending_example)\<^sup>*\<^sup>* (at_work w1 [] []) s2"
    "find_row er_id ''exec_1'' (db_executions (wd_db (rn_world s2))) = Some row" "er_job_status row = JobCompleted" by auto
  with reach r(1,2) show ?thesis by blast
qed

end
