(* ===== verification/Whole_Program.thy ===== *)
theory Whole_Program imports Interleaving_Contract Boot_Contract begin

text \<open>
  From the start of the process to the rows of the database: what \<open>boot\<close> launches, running with all its
  parts interleaved, stores only results of runs in the containers that \<open>Sandbox\<close> starts.
\<close>

text \<open>The pool of a launched process is the one \<^verbatim>\<open>main\<close> builds, on the Docker runtime.\<close>

lemma start_workers_pool:
  assumes "start_workers D cfg a st = (Some wk, st1)"
  shows "pl_host (wk_pool wk) = dp_host D \<and> pl_sandbox (wk_pool wk) = docker_runtime (dp_host D) (dp_seccomp_path D) \<and>
    pl_registry (wk_pool wk) = main_registry \<and> pl_engine (wk_pool wk) = main_engine D cfg a"
  using assms by (auto simp: start_workers_def start_pool_def main_pool_defs split: if_splits)

lemma start_workers_catalog:
  "start_workers D cfg a st = (wk, st1) \<Longrightarrow> catalog (wd_db (ps_world st1)) = catalog (wd_db (ps_world st))"
  by (auto simp: start_workers_def start_pool_def split: if_splits)

lemma launched_pool:
  assumes "boot D env uuid st = (Launched lg cfg sv, st1)" and "sv_worker sv = Some wk"
  shows "pl_host (wk_pool wk) = dp_host D \<and> pl_sandbox (wk_pool wk) = docker_runtime (dp_host D) (dp_seccomp_path D) \<and>
    pl_registry (wk_pool wk) = main_registry \<and> (\<exists>a. pl_engine (wk_pool wk) = main_engine D cfg a)"
  using assms(1)
proof (rule bootE)
  fix st2 st3 st4 assume "launch_services D cfg lg st4 = (Launched lg cfg sv, st1)"
  then obtain a st5 where "start_workers D cfg a st5 = (sv_worker sv, st1)" by (rule launch_servicesE)
  with start_workers_pool [of D cfg a st5 wk st1] assms(2) show ?thesis by auto
qed

text \<open>A start leaves jobs, problems and submissions as they are.\<close>

lemma launched_catalog:
  assumes "boot D env uuid st = (Launched lg cfg sv, st1)"
  shows "catalog (wd_db (ps_world st1)) = catalog (wd_db (ps_world st))"
  using assms
proof (rule bootE)
  fix st2 st3 st4
  assume d: "db_connect D cfg lg st = (None, st2)" and m: "run_migrations D (cf_DatabaseURL cfg) lg st2 = (None, st3)"
    and r: "connect_redis D cfg lg st3 = (None, st4)" and l: "launch_services D cfg lg st4 = (Launched lg cfg sv, st1)"
  from l obtain s a st5 where a: "main_analyzer D cfg lg (say lg LevelInfo (Text ''Starting application'')
        (st4\<lparr>ps_world := (ps_world st4)\<lparr>wd_queue := s\<rparr>\<rparr>)) = (a, st5)"
    and w: "start_workers D cfg a st5 = (sv_worker sv, st1)" by (rule launch_servicesE)
  from db_connect_open [OF d] run_migrations_open [OF m] connect_redis_open [OF r] main_analyzer_open [OF a]
    start_workers_catalog [OF w] show ?thesis by simp
qed

lemma launched_starting:
  assumes "boot D env uuid st = (Launched lg cfg sv, st1)" and "starting (at_work (ps_world st) [] [])"
  shows "starting (at_work (ps_world st1) [] [])"
  using launched_role [OF assms(1)] launched_catalog [OF assms(1)] assms(2)
  by (simp add: starting_def fresh_start_def table_ok_def catalog_def)

text \<open>A success comes from a run in a container that was started for it.\<close>

lemma success_in_started_container:
  assumes "execute_request H R registry req h = (Inr res, h1)" and "rs_Status res = StatusSuccess"
  shows "\<exists>ex ws cid run h2 h3 h4 h5.
    get_executor registry (rq_Language req) = Inr ex \<and> rt_StartContainer R ws (ex_Profile ex) h2 = (Inr cid, h3) \<and>
    rt_Exec R cid (ex_run_options ex req) h4 = (run, h5) \<and> clean_result run \<and> rs_Stdout res = xr_Stdout run"
  using assms
  by (fastforce simp: execute_request_def execute_in_workspace_def execute_in_container_def run_in_container_cases
        classify_success_iff classify_stdout clean_result_def compile_status_def
      split: prod.splits sum.splits option.splits if_splits)

lemma docker_started:
  assumes "docker_start_container H s ws p h = (Inr cid, h1)"
  shows "\<exists>out. oh_docker H (docker_run_args s ws p) h = ((out, None), h1) \<and> cid = trim_space out"
  using assms by (auto simp: docker_start_container_def Let_def split: prod.splits option.splits if_splits)

text \<open>A pool that runs programs on the Docker of its process.\<close>

definition runs_on :: "('q, 'h) deps \<Rightarrow> ('q, 'h) pool \<Rightarrow> bool" where
  "runs_on D P \<longleftrightarrow>
     pl_host P = dp_host D \<and> pl_sandbox P = docker_runtime (dp_host D) (dp_seccomp_path D) \<and> pl_registry P = main_registry"

text \<open>
  The output of a clean \<^verbatim>\<open>docker exec\<close> of a program on an input, in a container that \<^verbatim>\<open>docker run\<close> started with the
  command line of the language's profile.
\<close>

definition in_container :: "('q, 'h) deps \<Rightarrow> string \<Rightarrow> string \<Rightarrow> string \<Rightarrow> execution_result \<Rightarrow> bool" where
  "in_container D lang src input res \<longleftrightarrow>
     (\<exists>ex ws out run h h1 h2 h3. get_executor main_registry lang = Inr ex \<and>
        oh_docker (dp_host D) (docker_run_args (dp_seccomp_path D) ws (ex_Profile ex)) h = ((out, None), h1) \<and>
        docker_exec (dp_host D) (trim_space out)
          (ex_run_options ex \<lparr>rq_Language = lang, rq_SourceCode = src, rq_Input = input\<rparr>) h2 = (run, h3) \<and>
        clean_result run \<and> rs_Stdout res = xr_Stdout run)"

lemma produced_in_container:
  assumes "produced F lang src input res" and "rs_Status res = StatusSuccess" and "\<forall>P \<in> F. \<exists>D \<in> Ds. runs_on D P"
  shows "\<exists>D \<in> Ds. in_container D lang src input res"
proof -
  from assms(1,3) obtain D h h1 where D: "D \<in> Ds" and "execute_request (dp_host D)
      (docker_runtime (dp_host D) (dp_seccomp_path D)) main_registry
      \<lparr>rq_Language = lang, rq_SourceCode = src, rq_Input = input\<rparr> h = (Inr res, h1)"
    by (fastforce simp: produced_def runs_on_def)
  from success_in_started_container [OF this(2) assms(2)] obtain ex ws cid run h2 h3 h4 h5 where
    x: "docker_start_container (dp_host D) (dp_seccomp_path D) ws (ex_Profile ex) h2 = (Inr cid, h3)"
      "get_executor main_registry lang = Inr ex"
      "docker_exec (dp_host D) cid (ex_run_options ex \<lparr>rq_Language = lang, rq_SourceCode = src, rq_Input = input\<rparr>) h4 = (run, h5)"
      "clean_result run" "rs_Stdout res = xr_Stdout run"
    by (auto simp: docker_runtime_def)
  moreover from docker_started [OF x(1)] obtain out where
    "oh_docker (dp_host D) (docker_run_args (dp_seccomp_path D) ws (ex_Profile ex)) h2 = ((out, None), h3)"
    "cid = trim_space out" by blast
  ultimately have "in_container D lang src input res" unfolding in_container_def by blast
  with D show ?thesis ..
qed

lemma results_in_containers:
  assumes "\<exists>rs. er_results r = Some (marshal enc_result rs) \<and> results_for F r (row_inputs r) (elems rs)"
    and "\<forall>P \<in> F. \<exists>D \<in> Ds. runs_on D P"
  shows "\<exists>rs. er_results r = Some (marshal enc_result rs) \<and>
    length (elems rs) = length (elems (unmarshal (er_inputs r))) \<and>
    (\<forall>k < length (elems rs). rs_Status (elems rs ! k) = StatusSuccess \<longrightarrow>
       (\<exists>D \<in> Ds. in_container D (er_language r) (er_source_code r) (elems (unmarshal (er_inputs r)) ! k) (elems rs ! k)))"
proof -
  from assms(1) obtain rs where rs: "er_results r = Some (marshal enc_result rs)"
    "list_all2 (produced F (er_language r) (er_source_code r)) (row_inputs r) (elems rs)" by (auto simp: results_for_def)
  from rs(2) produced_in_container [OF _ _ assms(2)] have
    "\<forall>k < length (elems rs). rs_Status (elems rs ! k) = StatusSuccess \<longrightarrow>
       (\<exists>D \<in> Ds. in_container D (er_language r) (er_source_code r) (row_inputs r ! k) (elems rs ! k))"
    by (simp add: list_all2_conv_all_nth)
  with rs(1) list_all2_lengthD [OF rs(2)] show ?thesis
    unfolding row_inputs_def by (intro exI [of _ rs]) simp
qed

text \<open>
  the process keeps its promise end to end: whenever \<^verbatim>\<open>main\<close> has launched workers over a database at rest,
  then in every state the running process can reach, a completed job has one result per input; and every
  result that says success is the output of a clean \<^verbatim>\<open>docker exec\<close> of the row's program on that input, in a
  container that \<^verbatim>\<open>docker run\<close> started with the hardened command line of its language's profile.
\<close>

theorem stored_success_ran_in_sandbox:
  assumes "boot D env uuid st = (Launched lg cfg sv, st1)" and "sv_worker sv = Some wk"
    and "starting (at_work (ps_world st) [] [])"
    and "(access_step (wk_pool wk) (wk_sweep wk))\<^sup>*\<^sup>* (at_work (ps_world st1) [] []) s"
    and "r \<in> set (db_executions (wd_db (rn_world s)))" and "er_job_status r = JobCompleted"
  shows "\<exists>rs. er_results r = Some (marshal enc_result rs) \<and>
    length (elems rs) = length (elems (unmarshal (er_inputs r))) \<and>
    (\<forall>k < length (elems rs). rs_Status (elems rs ! k) = StatusSuccess \<longrightarrow>
       (\<exists>ex ws out run h h1 h2 h3. get_executor main_registry (er_language r) = Inr ex \<and>
          oh_docker (dp_host D) (docker_run_args (dp_seccomp_path D) ws (ex_Profile ex)) h = ((out, None), h1) \<and>
          docker_exec (dp_host D) (trim_space out)
            (ex_run_options ex \<lparr>rq_Language = er_language r, rq_SourceCode = er_source_code r,
               rq_Input = elems (unmarshal (er_inputs r)) ! k\<rparr>) h2 = (run, h3) \<and>
          clean_result run \<and> rs_Stdout (elems rs ! k) = xr_Stdout run))"
proof -
  have "\<forall>P \<in> {wk_pool wk}. \<exists>D1 \<in> {D}. runs_on D1 P" using launched_pool [OF assms(1,2)] by (auto simp: runs_on_def)
  from results_in_containers [OF completed_results_produced [OF launched_starting [OF assms(1,3)] assms(4-6)] this]
  show ?thesis by (auto simp: in_container_def)
qed

section \<open>Example\<close>

text \<open>
  A process with the settings of a bare environment, over a database with one queued job, a Redis that has
  its message and a Docker that answers every command and whose programs print nothing.
\<close>

definition mute_host :: "nat os_host" where
  "mute_host = host_example\<lparr>oh_spawn := (\<lambda>opts n. (\<lparr>pr_start = None, pr_writes = [], pr_select = ProcExited None,
      pr_cause = None\<rparr>, n))\<rparr>"

definition talking_deps :: "(nat \<times> queue_event list, nat) deps" where
  "talking_deps = (deps_example None)\<lparr>dp_redis := logged_redis talking_redis, dp_host := mute_host\<rparr>"

definition queued_state :: "(nat \<times> queue_event list, nat) proc_state" where
  "queued_state = fresh_state\<lparr>ps_world := queued_world\<rparr>"

text \<open>The same process with a Redis whose group reads are answered by \<open>f\<close>, from any state.\<close>

definition reading_deps ::
  "(string \<Rightarrow> string \<Rightarrow> string \<Rightarrow> nat \<Rightarrow> (goerror + stream_message list list) \<times> nat) \<Rightarrow> (nat \<times> queue_event list, nat) deps" where
  "reading_deps f = (deps_example None)\<lparr>dp_redis := logged_redis (silent_redis\<lparr>rx_XReadGroup := f\<rparr>), dp_host := mute_host\<rparr>"

lemma reading_boot:
  "\<exists>lg sv st1 wk. boot (reading_deps f) (url_only ''u'') ''7'' st = (Launched lg (standard_config ''u'' ''7'') sv, st1) \<and>
     sv_worker sv = Some wk \<and> pl_redis (wk_pool wk) = logged_redis (silent_redis\<lparr>rx_XReadGroup := f\<rparr>) \<and>
     en_analyzer (pl_engine (wk_pool wk)) = None"
proof -
  let ?D = "reading_deps f" and ?cfg = "standard_config ''u'' ''7''"
  have c: "load_config (url_only ''u'') ''7'' = Inr ?cfg" by (rule load_url_only) simp
  have "all_answer ?D ?cfg (wd_queue (ps_world st))"
    by (simp add: all_answer_def reading_deps_def deps_example_def ensure_group_exists_def logged_redis_def
        silent_redis_def split: prod.split)
  with boot_answers [OF c] obtain lg sv st1 where b: "boot ?D (url_only ''u'') ''7'' st = (Launched lg ?cfg sv, st1)" by blast
  from launched_role [OF b] obtain wk where wk: "sv_worker sv = Some wk"
    by (auto simp: role_started_def standard_config_def)
  from b obtain st4 where "launch_services ?D ?cfg lg st4 = (Launched lg ?cfg sv, st1)" by (rule bootE)
  then obtain a st0 st5 where w: "start_workers ?D ?cfg a st5 = (sv_worker sv, st1)"
    and a: "main_analyzer ?D ?cfg lg st0 = (a, st5)" by (rule launch_servicesE)
  from a have "a = None" by (simp add: main_analyzer_def standard_config_def)
  with w wk have "pl_redis (wk_pool wk) = logged_redis (silent_redis\<lparr>rx_XReadGroup := f\<rparr>) \<and>
      en_analyzer (pl_engine (wk_pool wk)) = None"
    by (auto simp: start_workers_def start_pool_def main_pool_defs main_engine_def new_engine_def reading_deps_def
        split: if_splits)
  with b wk show ?thesis by blast
qed

lemma talking_boot:
  "\<exists>lg sv st1 wk. boot talking_deps (url_only ''u'') ''7'' st = (Launched lg (standard_config ''u'' ''7'') sv, st1) \<and>
     sv_worker sv = Some wk \<and> pl_redis (wk_pool wk) = logged_redis talking_redis"
  using reading_boot unfolding talking_deps_def talking_redis_def reading_deps_def by blast

lemma execute_all_mute:
  assumes "pl_host P = mute_host" and "pl_sandbox P = docker_runtime mute_host sec" and "pl_registry P = main_registry"
  shows "\<exists>rs h1. execute_all P (job_of_row (row_example JobQueued None 0 5))
     (elems (unmarshal (er_inputs (row_example JobQueued None 0 5)))) 0 = Some ([rs], h1) \<and> rs_Stdout rs = [] \<and>
     rs_Stderr rs = [] \<and> rs_Status rs = StatusSuccess"
proof -
  have trim: "trim_space (''c1'' @ [newline]) = ''c1''" by code_simp
  show ?thesis using assms
    by (simp add: row_example_def job_of_row_def run_request_def execute_request_def python_executor
        python_valid [simplified] execute_in_workspace_def execute_in_container_def run_in_container_def ex_Execute_def
        compile_defs compile_with_def write_source_def Let_def docker_runtime_def docker_start_container_def
        docker_exec_def mute_host_def host_example_def run_process_def trim [simplified] stream_chunks_def
        new_bounded_writer_def select_exit_err_def exit_code_of_def classify_def platform_error_def)
qed

text \<open>A pool that reads this message over a database with this job completes it.\<close>

lemma pool_completes_example:
  assumes "pl_host P = mute_host" and "pl_sandbox P = docker_runtime mute_host sec" and "pl_registry P = main_registry"
    and redis: "pl_redis P = logged_redis talking_redis"
    and w: "db_script (wd_db w) = []" "table_ok (wd_db w)" "wd_host w = 0"
      "db_executions (wd_db w) = db_executions (wd_db queued_world)"
  shows "\<exists>w1 ths r rs. (sys_step P pr)\<^sup>*\<^sup>* (w, []) (w1, ths) \<and> find_row er_id ''exec_1'' (db_executions (wd_db w1)) = Some r \<and>
    er_job_status r = JobCompleted \<and> er_results r = Some (marshal enc_result (Some [rs])) \<and>
    rs_Status rs = StatusSuccess \<and> er_language r = ''python''"
proof -
  obtain q l where ql: "wd_queue w = (q, l)" by fastforce
  have "consume (pl_redis P) (pl_queue P) (\<lambda>k. False) ''w'' (Suc 0) 0 (wd_queue w) =
      Some (Inr message_example, (q, EvRead (Inr [[\<lparr>sm_ID = ''1-0'', sm_Values = [''job_id'' \<mapsto> ''exec_1'']\<rparr>]]) # l))"
    by (simp add: ql redis talking_redis_def silent_redis_def logged_redis_def
        first_message_def decode_message_def message_example_def)
  from sys_step.receive [OF this, of "[]" pr] ql have read: "sys_step P pr (w, []) (after_read w, [start_thread message_example ''w''])"
    by (simp add: after_read_def)
  also have "(sys_step P pr)\<^sup>*\<^sup>* (after_read w, [start_thread message_example ''w''])
     (process_message P message_example ''w'' False (after_read w),
      [\<lparr>th_msg = message_example, th_worker = ''w'', th_pc = Returned, th_cancelled = False\<rparr>])"
    by (simp add: process_message_def start_thread_def process_interleaving)
  finally have steps: "(sys_step P pr)\<^sup>*\<^sup>* (w, []) \<dots>" .
  obtain rs h1 where e: "execute_all P (job_of_row (row_example JobQueued None 0 5))
      (elems (unmarshal (er_inputs (row_example JobQueued None 0 5)))) (wd_host (after_read w)) = Some ([rs], h1)"
    and out: "rs_Stdout rs = []" "rs_Stderr rs = []" "rs_Status rs = StatusSuccess"
    using execute_all_mute [OF assms(1-3)] w(3) by auto
  have store: "list_all result_storable [rs]" using out by (simp add: result_storable_def no_nul_def)
  have due: "claim_where (qm_JobID message_example) (db_now (wd_db w)) (row_example JobQueued None 0 5)"
    by (simp add: claim_where_def row_example_def retry_due_def message_example_def)
  from undisturbed_run [OF redis _ _ _ _ queued_world_facts(5) e store queued_world_facts(6), of "''w''" False]
    w due queued_world_facts(3) obtain r where
    r: "find_row er_id (qm_JobID message_example)
        (db_executions (wd_db (process_message P message_example ''w'' False (after_read w)))) = Some r"
      "er_job_status r = JobCompleted" "er_results r = Some (marshal enc_result (append_all None [rs]))"
      "er_language r = ''python''"
    by (auto simp: row_example_def completed_row_def complete_set_def running_set_def claim_set_def)
  with steps out show ?thesis by (auto simp: append_all_def message_example_def)
qed

lemma queued_state_starting: "starting (at_work (ps_world queued_state) [] [])"
  using starting_example by (simp add: queued_state_def)

text \<open>The process starts, a worker takes the job and completes it.\<close>

lemma talking_run:
  "\<exists>lg sv st1 wk w1 ths r rs. boot talking_deps (url_only ''u'') ''7'' queued_state = (Launched lg (standard_config ''u'' ''7'') sv, st1) \<and>
     sv_worker sv = Some wk \<and>
     (access_step (wk_pool wk) (wk_sweep wk))\<^sup>*\<^sup>* (at_work (ps_world st1) [] []) (at_work w1 (map idle ths) []) \<and>
     find_row er_id ''exec_1'' (db_executions (wd_db w1)) = Some r \<and> er_job_status r = JobCompleted \<and>
     er_results r = Some (marshal enc_result (Some [rs])) \<and> rs_Status rs = StatusSuccess \<and> er_language r = ''python''"
proof -
  obtain lg sv st1 wk where b: "boot talking_deps (url_only ''u'') ''7'' queued_state = (Launched lg (standard_config ''u'' ''7'') sv, st1)"
    and wk: "sv_worker sv = Some wk" and redis: "pl_redis (wk_pool wk) = logged_redis talking_redis"
    using talking_boot by blast
  have h: "dp_host talking_deps = mute_host" "dp_seccomp_path talking_deps = ''/s''"
    by (simp_all add: talking_deps_def deps_example_def)
  note pool = launched_pool [OF b wk]
  let ?d = "(wd_db (ps_world st1))\<lparr>db_script := []\<rparr>"
  let ?w = "(ps_world st1)\<lparr>wd_db := ?d, wd_queue := (0, []), wd_host := 0\<rparr>"
  have "later (wd_db (ps_world st1)) ?d" by (simp add: later_def)
  from access_step.outside [OF this] have o: "access_step (wk_pool wk) (wk_sweep wk) (at_work (ps_world st1) [] []) (at_work ?w [] [])" .
  have "db_executions (wd_db (ps_world st1)) = db_executions (wd_db queued_world)"
    using launched_role [OF b] by (simp add: queued_state_def)
  moreover have "table_ok (wd_db ?w)" using launched_starting [OF b queued_state_starting]
    by (simp add: starting_def fresh_start_def table_ok_def)
  ultimately obtain w1 ths r rs where run: "(sys_step (wk_pool wk) (wk_sweep wk))\<^sup>*\<^sup>* (?w, []) (w1, ths)"
    and r: "find_row er_id ''exec_1'' (db_executions (wd_db w1)) = Some r" "er_job_status r = JobCompleted"
      "er_results r = Some (marshal enc_result (Some [rs]))" "rs_Status rs = StatusSuccess" "er_language r = ''python''"
    using pool_completes_example [of "wk_pool wk" "''/s''" ?w "wk_sweep wk"] pool h redis by auto
  from system_schedules [OF run, of "[]"] o have reach:
    "(access_step (wk_pool wk) (wk_sweep wk))\<^sup>*\<^sup>* (at_work (ps_world st1) [] []) (at_work w1 (map idle ths) [])"
    by (simp add: converse_rtranclp_into_rtranclp)
  with b wk r show ?thesis by blast
qed

theorem stored_success_ran_in_sandbox_witness:
  "\<exists>lg sv st1 wk s r ws out h h1. boot talking_deps (url_only ''u'') ''7'' queued_state = (Launched lg (standard_config ''u'' ''7'') sv, st1) \<and>
     sv_worker sv = Some wk \<and> (access_step (wk_pool wk) (wk_sweep wk))\<^sup>*\<^sup>* (at_work (ps_world st1) [] []) s \<and>
     r \<in> set (db_executions (wd_db (rn_world s))) \<and> er_job_status r = JobCompleted \<and>
     oh_docker mute_host (docker_run_args ''/s'' ws (ex_Profile (PythonExecutor (profile_or_zero ''python'')))) h = ((out, None), h1)"
proof -
  obtain lg sv st1 wk w1 ths r rs where b: "boot talking_deps (url_only ''u'') ''7'' queued_state = (Launched lg (standard_config ''u'' ''7'') sv, st1)"
    and wk: "sv_worker sv = Some wk"
    and reach: "(access_step (wk_pool wk) (wk_sweep wk))\<^sup>*\<^sup>* (at_work (ps_world st1) [] []) (at_work w1 (map idle ths) [])"
    and r: "find_row er_id ''exec_1'' (db_executions (wd_db w1)) = Some r" "er_job_status r = JobCompleted"
      "er_results r = Some (marshal enc_result (Some [rs]))" "rs_Status rs = StatusSuccess" "er_language r = ''python''"
    using talking_run by blast
  have h: "dp_host talking_deps = mute_host" "dp_seccomp_path talking_deps = ''/s''"
    by (simp_all add: talking_deps_def deps_example_def)
  have "r \<in> set (db_executions (wd_db w1))" using find_row_SomeD [OF r(1)] by simp
  with stored_success_ran_in_sandbox [OF b wk queued_state_starting reach, of r] r(2) obtain rsa where
    a: "er_results r = Some (marshal enc_result rsa)"
    and s: "\<forall>k < length (elems rsa). rs_Status (elems rsa ! k) = StatusSuccess \<longrightarrow>
       (\<exists>ex ws out run h h1 h2 h3. get_executor main_registry (er_language r) = Inr ex \<and>
          oh_docker mute_host (docker_run_args ''/s'' ws (ex_Profile ex)) h = ((out, None), h1))"
    unfolding h at_work_sel by blast
  from a r(3) obtain rs1 where "rsa = Some [rs1]" "enc_result rs1 = enc_result rs"
    by (cases rsa) (auto simp: map_eq_Cons_conv)
  moreover from this(2) have "rs_Status rs1 = StatusSuccess" using r(4) by (cases rs; cases rs1) (simp add: enc_result_def)
  ultimately obtain ws out k k1 where
    "oh_docker mute_host (docker_run_args ''/s'' ws (ex_Profile (PythonExecutor (profile_or_zero ''python'')))) k = ((out, None), k1)"
    using s r(5) by (auto simp: python_executor)
  with b wk reach \<open>r \<in> set (db_executions (wd_db w1))\<close> r(2) show ?thesis
    by (intro exI conjI) (assumption | simp)+
qed

end
