(* ===== verification/Fleet.thy ===== *)
theory Fleet imports Whole_Program Progress begin

text \<open>
  Many processes over one database and one Redis: instances that \<^verbatim>\<open>main\<close> starts at any time, on any machine and
  with any settings, that run side by side, stop in the middle of anything and are started again. What holds
  of one running system holds of all of them together, and outlives each of them.
\<close>

section \<open>The processes of a deployment\<close>

text \<open>
  A process that lives: what its services share, its workers and the requests and passes in progress. A
  process without workers has the pool that \<^verbatim>\<open>main\<close> would give them.
\<close>

record ('q, 'h) live_process =
  lp_pool :: "('q, 'h) pool"
  lp_sweep :: pending_recovery
  lp_workers :: "(thread \<times> (goerror option, 'q, 'h) wtask option) list"
  lp_calls :: "('q, 'h) call list"

type_synonym ('q, 'h) fleet = "('q, 'h) world \<times> ('q, 'h) live_process list"

definition process_of :: "('q, 'h) deps \<Rightarrow> config \<Rightarrow> ('q, 'h) services \<Rightarrow> ('q, 'h) live_process" where
  "process_of D cfg sv =
     (case sv_worker sv of
        Some wk \<Rightarrow> \<lparr>lp_pool = wk_pool wk, lp_sweep = wk_sweep wk, lp_workers = [], lp_calls = []\<rparr>
      | None \<Rightarrow> \<lparr>lp_pool = main_pool D cfg None, lp_sweep = main_sweep cfg, lp_workers = [], lp_calls = []\<rparr>)"

text \<open>
  \<open>Ds\<close> are the machines with their libraries. A start that fails leaves what it did to Redis and the
  database; a process that ends, for whatever reason, takes its workers and requests with it. A process makes
  the steps of \<open>access_step\<close>, those of services its role does not start included.
\<close>

inductive fleet_step :: "('q, 'h) deps set \<Rightarrow> ('q, 'h) fleet \<Rightarrow> ('q, 'h) fleet \<Rightarrow> bool" for Ds where
  launch: "D \<in> Ds \<Longrightarrow> boot D env uuid st = (Launched lg cfg sv, st1) \<Longrightarrow>
    fleet_step Ds (ps_world st, ps) (ps_world st1, process_of D cfg sv # ps)"
| abort: "D \<in> Ds \<Longrightarrow> boot D env uuid st = (Exited code, st1) \<or> boot D env uuid st = (StartPanics why, st1) \<Longrightarrow>
    fleet_step Ds (ps_world st, ps) (ps_world st1, ps)"
| proceed: "i < length ps \<Longrightarrow> ps ! i = p \<Longrightarrow>
    access_step (lp_pool p) (lp_sweep p) (at_work w (lp_workers p) (lp_calls p)) (at_work w1 ws cs) \<Longrightarrow>
    fleet_step Ds (w, ps) (w1, ps[i := p\<lparr>lp_workers := ws, lp_calls := cs\<rparr>])"
| die: "fleet_step Ds (w, us @ p # ps) (w, us @ ps)"

section \<open>What starting a process leaves alone\<close>

lemma start_workers_keeps:
  "start_workers D cfg a st = (wk, st1) \<Longrightarrow> catalog (wd_db (ps_world st1)) = catalog (wd_db (ps_world st)) \<and>
     db_executions (wd_db (ps_world st1)) = db_executions (wd_db (ps_world st))"
  using start_workers_catalog start_workers_open by metis

lemma launch_services_keeps:
  assumes "launch_services D cfg lg st = (out, st1)"
  shows "catalog (wd_db (ps_world st1)) = catalog (wd_db (ps_world st)) \<and>
    db_executions (wd_db (ps_world st1)) = db_executions (wd_db (ps_world st))"
  using assms
  by (auto simp: launch_services_def fail_start_def split: prod.splits option.splits
      dest!: start_workers_keeps main_analyzer_open)

lemma boot_keeps:
  assumes "boot D env uuid st = (out, st1)"
  shows "catalog (wd_db (ps_world st1)) = catalog (wd_db (ps_world st)) \<and>
    db_executions (wd_db (ps_world st1)) = db_executions (wd_db (ps_world st))"
  using assms
  by (auto simp: boot_def Let_def fail_start_def split: sum.splits prod.splits option.splits
      dest!: launch_services_keeps db_connect_open run_migrations_open connect_redis_open)

lemma boot_moves: "boot D env uuid st = (out, st1) \<Longrightarrow> moves F N (wd_db (ps_world st)) (wd_db (ps_world st1))"
  using boot_keeps by (intro moves_jobs grows_same) blast+

text \<open>Every process of the fleet runs programs on the Docker of its machine, and judges by the comparators of \<^verbatim>\<open>main\<close>.\<close>

definition fleet_pools :: "('q, 'h) deps set \<Rightarrow> ('q, 'h) pool set" where
  "fleet_pools Ds = {P. \<exists>D \<in> Ds. runs_on D P \<and> (\<exists>cfg a. pl_engine P = main_engine D cfg a)}"

lemma process_of_pool:
  assumes "D \<in> Ds" and "boot D env uuid st = (Launched lg cfg sv, st1)"
  shows "lp_pool (process_of D cfg sv) \<in> fleet_pools Ds"
proof (cases "sv_worker sv")
  case None
  with assms(1) show ?thesis
    by (auto simp: process_of_def fleet_pools_def runs_on_def main_pool_defs intro!: bexI [of _ D])
next
  case (Some wk)
  with assms launched_pool [OF assms(2) Some] show ?thesis
    by (auto simp: process_of_def fleet_pools_def runs_on_def intro!: bexI [of _ D])
qed

section \<open>The invariant\<close>

definition process_inv :: "('q, 'h) pool set \<Rightarrow> nat \<Rightarrow> ('q, 'h) world \<Rightarrow> ('q, 'h) live_process \<Rightarrow> bool" where
  "process_inv F N w p \<longleftrightarrow> lp_pool p \<in> F \<and> running_inv F N (at_work w (lp_workers p) (lp_calls p))"

definition fleet_inv :: "('q, 'h) pool set \<Rightarrow> nat \<Rightarrow> ('q, 'h) fleet \<Rightarrow> bool" where
  "fleet_inv F N s \<longleftrightarrow> running_inv F N (at_work (fst s) [] []) \<and> (\<forall>p \<in> set (snd s). process_inv F N (fst s) p)"

text \<open>What a process knows is not disturbed by the others.\<close>

lemma running_inv_other:
  assumes "running_inv F N (at_work w ws cs)" and "moves F N (wd_db w) (wd_db w1)"
  shows "running_inv F N (at_work w1 ws cs)"
proof -
  have "sys_inv F (w, map fst ws)" using assms(1) by (simp add: running_inv_def)
  from running_inv_change [OF assms sys_inv_moves [OF this assms(2)]] show ?thesis by simp
qed

lemma running_inv_alone: "running_inv F N (at_work w ws cs) \<Longrightarrow> running_inv F N (at_work w [] [])"
  by (simp add: running_inv_def sys_inv_def)

lemma fleet_inv_other:
  assumes "fleet_inv F N (w, ps)" and "moves F N (wd_db w) (wd_db w1)"
  shows "fleet_inv F N (w1, ps)"
  using assms running_inv_other [OF _ assms(2)] by (simp add: fleet_inv_def process_inv_def)

lemma fleet_step_inv:
  assumes "fleet_step Ds s t" and "fleet_inv (fleet_pools Ds) N s"
  shows "fleet_inv (fleet_pools Ds) N t \<and> moves (fleet_pools Ds) N (wd_db (fst s)) (wd_db (fst t))"
  using assms
proof (induction rule: fleet_step.induct)
  case (launch D env uuid st lg cfg sv st1 ps)
  note inv = fleet_inv_other [OF launch.prems boot_moves [OF launch.hyps(2)]]
  have "lp_workers (process_of D cfg sv) = []" "lp_calls (process_of D cfg sv) = []"
    by (simp_all add: process_of_def split: option.split)
  with inv process_of_pool [OF launch.hyps] have "fleet_inv (fleet_pools Ds) N (ps_world st1, process_of D cfg sv # ps)"
    by (simp add: fleet_inv_def process_inv_def)
  with boot_moves [OF launch.hyps(2)] show ?case by simp
next
  case (abort D env uuid st code st1 why ps)
  from abort.hyps(2) have "moves (fleet_pools Ds) N (wd_db (ps_world st)) (wd_db (ps_world st1))" using boot_moves by blast
  with fleet_inv_other [OF abort.prems] show ?case by simp
next
  case (proceed i ps p w w1 ws cs)
  then have p: "process_inv (fleet_pools Ds) N w p" by (auto simp: fleet_inv_def)
  with access_step_inv [OF proceed.hyps(3)] have
    r: "running_inv (fleet_pools Ds) N (at_work w1 ws cs)" and m: "moves (fleet_pools Ds) N (wd_db w) (wd_db w1)"
    by (auto simp: process_inv_def)
  from r p have "process_inv (fleet_pools Ds) N w1 (p\<lparr>lp_workers := ws, lp_calls := cs\<rparr>)" by (simp add: process_inv_def)
  with fleet_inv_other [OF proceed.prems m] have "fleet_inv (fleet_pools Ds) N (w1, ps[i := p\<lparr>lp_workers := ws, lp_calls := cs\<rparr>])"
    using set_update_subset_insert [of ps i] by (auto simp: fleet_inv_def)
  with m show ?case by simp
next
  case (die w us p ps)
  then show ?case by (simp add: fleet_inv_def)
qed

lemma fleet_steps_inv:
  assumes "(fleet_step Ds)\<^sup>*\<^sup>* s t" and "fleet_inv (fleet_pools Ds) N s"
  shows "fleet_inv (fleet_pools Ds) N t \<and> moves (fleet_pools Ds) N (wd_db (fst s)) (wd_db (fst t))"
  using assms
proof (induction rule: rtranclp_induct)
  case (step t u)
  with fleet_step_inv [OF step.hyps(2), of N] show ?case by (blast intro: moves_trans)
qed simp

end
