(* ===== verification/Fleet_Contract.thy ===== *)
theory Fleet_Contract imports Fleet begin

text \<open>
  What holds of a whole deployment, across its processes and across their crashes and restarts: the fleet
  refines the job machine (a third interpretation of \<open>job_machine\<close>), results are those of runs in hardened
  containers, accepted work survives, and a job that was left unfinished can be finished by a new process.
\<close>

section \<open>The job machine of a fleet\<close>

text \<open>Before the first process starts: no job has results yet and no submission is completed.\<close>

lemma fleet_starting:
  assumes "starting (at_work w [] [])"
  shows "fleet_inv F (length (db_test_cases (wd_db w))) (w, [])"
  using starting_inv [OF assms] by (simp add: fleet_inv_def)

lemma fleet_reachable:
  assumes "starting (at_work w [] [])" and "(fleet_step Ds)\<^sup>*\<^sup>* (w, []) s"
  shows "fleet_inv (fleet_pools Ds) (length (db_test_cases (wd_db w))) s"
  using fleet_steps_inv [OF assms(2) fleet_starting [OF assms(1)]] by blast

lemma fleet_table_ok: "fleet_inv F N s \<Longrightarrow> table_ok (wd_db (fst s))"
  by (auto simp: fleet_inv_def dest: running_table_ok)

interpretation fleet_jobs: job_machine "fleet_step Ds" "fleet_inv (fleet_pools Ds) N"
    "\<lambda>s. job_in (wd_db (fst s))" "\<lambda>s. budget_in (wd_db (fst s))"
  for Ds :: "('q, 'h) deps set" and N
proof
  fix s t :: "('q, 'h) fleet" and i a
  show "fleet_inv (fleet_pools Ds) N s \<Longrightarrow> fleet_step Ds s t \<Longrightarrow> fleet_inv (fleet_pools Ds) N t"
    using fleet_step_inv by blast
  show "\<exists>b. job_in (wd_db (fst t)) i = Some b \<and> (job_step (budget_in (wd_db (fst s)) i))\<^sup>*\<^sup>* a b \<and>
      budget_in (wd_db (fst t)) i = budget_in (wd_db (fst s)) i"
    if "fleet_inv (fleet_pools Ds) N s" "fleet_step Ds s t" "job_in (wd_db (fst s)) i = Some a"
    by (rule table_sim_job [OF moves_sim that(3)]) (use fleet_step_inv [OF that(2,1)] in blast)
  show "attempts_ok (budget_in (wd_db (fst s)) i) a"
    if "fleet_inv (fleet_pools Ds) N s" "job_in (wd_db (fst s)) i = Some a"
    by (rule pg_jobs.ok_attempts [OF fleet_table_ok [OF that(1)] that(2)])
qed

text \<open>A schedule of one process is one of the fleet.\<close>

lemma process_schedule:
  assumes "(access_step P pr)\<^sup>*\<^sup>* s t"
  shows "(fleet_step Ds)\<^sup>*\<^sup>*
     (rn_world s, \<lparr>lp_pool = P, lp_sweep = pr, lp_workers = rn_workers s, lp_calls = rn_calls s\<rparr> # ps)
     (rn_world t, \<lparr>lp_pool = P, lp_sweep = pr, lp_workers = rn_workers t, lp_calls = rn_calls t\<rparr> # ps)"
  using assms
proof (induction rule: rtranclp_induct)
  case (step t u)
  let ?p = "\<lambda>s. \<lparr>lp_pool = P, lp_sweep = pr, lp_workers = rn_workers s, lp_calls = rn_calls s\<rparr>"
  have "access_step P pr (at_work (rn_world t) (rn_workers t) (rn_calls t)) (at_work (rn_world u) (rn_workers u) (rn_calls u))"
    using step.hyps(2) by (simp add: at_work_all [symmetric])
  with fleet_step.proceed [of 0 "?p t # ps" "?p t" "rn_world t" "rn_world u" "rn_workers u" "rn_calls u" Ds]
  have "fleet_step Ds (rn_world t, ?p t # ps) (rn_world u, ?p u # ps)" by simp
  with step.IH show ?case by (rule rtranclp.rtrancl_into_rtrancl)
qed simp

lemma launched_process:
  "sv_worker sv = Some wk \<Longrightarrow>
     process_of D cfg sv = \<lparr>lp_pool = wk_pool wk, lp_sweep = wk_sweep wk, lp_workers = [], lp_calls = []\<rparr>"
  by (simp add: process_of_def)

lemma launch_and_run:
  assumes "D \<in> Ds" and "boot D env uuid st = (Launched lg cfg sv, st1)" and "sv_worker sv = Some wk"
    and "(access_step (wk_pool wk) (wk_sweep wk))\<^sup>*\<^sup>* (at_work (ps_world st1) [] []) (at_work w ws cs)"
  shows "(fleet_step Ds)\<^sup>*\<^sup>* (ps_world st, ps)
     (w, \<lparr>lp_pool = wk_pool wk, lp_sweep = wk_sweep wk, lp_workers = ws, lp_calls = cs\<rparr> # ps)"
  using fleet_step.launch [OF assms(1,2), of ps] process_schedule [OF assms(4), of Ds ps] launched_process [OF assms(3), of D cfg]
  by (simp add: converse_rtranclp_into_rtranclp)

section \<open>Properties\<close>

text \<open>
  C3: a deployment keeps its promise end to end: however many processes are started, on whatever machines and
  with whatever settings, run side by side and crash, in every state they reach together a completed job has
  one result per input, and every result that says success is the output of a clean \<^verbatim>\<open>docker exec\<close> of the row's
  program on that input, in a container that \<^verbatim>\<open>docker run\<close> started with the hardened command line on one of
  the machines.
\<close>

theorem fleet_success_ran_in_sandbox:
  assumes "starting (at_work w [] [])" and "(fleet_step Ds)\<^sup>*\<^sup>* (w, []) s"
    and "r \<in> set (db_executions (wd_db (fst s)))" and "er_job_status r = JobCompleted"
  shows "\<exists>rs. er_results r = Some (marshal enc_result rs) \<and>
    length (elems rs) = length (elems (unmarshal (er_inputs r))) \<and>
    (\<forall>k < length (elems rs). rs_Status (elems rs ! k) = StatusSuccess \<longrightarrow>
       (\<exists>D \<in> Ds. \<exists>ex ws out run h h1 h2 h3. get_executor main_registry (er_language r) = Inr ex \<and>
          oh_docker (dp_host D) (docker_run_args (dp_seccomp_path D) ws (ex_Profile ex)) h = ((out, None), h1) \<and>
          docker_exec (dp_host D) (trim_space out)
            (ex_run_options ex \<lparr>rq_Language = er_language r, rq_SourceCode = er_source_code r,
               rq_Input = elems (unmarshal (er_inputs r)) ! k\<rparr>) h2 = (run, h3) \<and>
          clean_result run \<and> rs_Stdout (elems rs ! k) = xr_Stdout run))"
proof -
  have "rows_inv (fleet_pools Ds) (wd_db (fst s))" and "table_ok (wd_db (fst s))"
    using fleet_reachable [OF assms(1,2)] by (simp_all add: fleet_inv_def running_inv_def sys_inv_def)
  with assms(3,4) have "\<exists>rs. er_results r = Some (marshal enc_result rs) \<and> results_for (fleet_pools Ds) r (row_inputs r) (elems rs)"
    by (auto simp: rows_inv_def row_inv_def table_ok_def row_ok_def)
  moreover have "\<forall>P \<in> fleet_pools Ds. \<exists>D \<in> Ds. runs_on D P" by (auto simp: fleet_pools_def)
  ultimately show ?thesis using results_in_containers unfolding in_container_def by blast
qed

text \<open>
  C1: a deployment refines the job machine: across all its processes, their crashes and restarts and any
  failures of database and Redis, a job that is in the table stays there, keeps its budget of attempts and moves
  by the steps of the abstract machine only.
\<close>

theorem fleet_refines_machine:
  assumes "starting (at_work w [] [])" and "(fleet_step Ds)\<^sup>*\<^sup>* (w, []) s1" and "(fleet_step Ds)\<^sup>*\<^sup>* s1 s2"
    and "job_in (wd_db (fst s1)) i = Some a"
  shows "\<exists>b. job_in (wd_db (fst s2)) i = Some b \<and> (job_step (budget_in (wd_db (fst s1)) i))\<^sup>*\<^sup>* a b \<and>
    budget_in (wd_db (fst s2)) i = budget_in (wd_db (fst s1)) i"
  using fleet_jobs.reach_simulates [OF assms(3) fleet_reachable [OF assms(1,2)] assms(4)] .

text \<open>
  C8: results outlive the processes: once a job is completed or dead-lettered, its row never changes again, its
  results included, except for the marker of its last dispatch, whatever processes come and go.
\<close>

theorem fleet_results_stay:
  assumes "starting (at_work w [] [])" and "(fleet_step Ds)\<^sup>*\<^sup>* (w, []) s1" and "(fleet_step Ds)\<^sup>*\<^sup>* s1 s2"
    and "find_row er_id i (db_executions (wd_db (fst s1))) = Some r"
    and "er_job_status r = JobCompleted \<or> er_job_status r = JobDeadLettered"
  shows "\<exists>q. find_row er_id i (db_executions (wd_db (fst s2))) = Some q \<and>
    q = r\<lparr>er_last_dispatched_at := er_last_dispatched_at q\<rparr> \<and> er_results q = er_results r"
  using table_sim_finished [OF moves_sim assms(4,5)] fleet_steps_inv [OF assms(3) fleet_reachable [OF assms(1,2)]] by blast

text \<open>
  C5: accepted work survives crashes: once a process of the deployment has answered that a run or a submission is
  accepted, the database has it from then on under the id of the answer, with the program, the inputs, the
  author and the problem the client sent, whatever happens to that process and the others.
\<close>

theorem accepted_work_survives_crashes:
  assumes "starting (at_work w [] [])" and "(fleet_step Ds)\<^sup>*\<^sup>* (w, []) s1" and "p \<in> set (snd s1)"
    and "Serving A r (Answer (Answered rep)) \<in> set (lp_calls p)" and "(fleet_step Ds)\<^sup>*\<^sup>* s1 s2"
  shows "(\<forall>i. accepted_run rep = Some i \<longrightarrow>
      (\<exists>q row. job_asked A r = Some q \<and> find_row er_id i (db_executions (wd_db (fst s2))) = Some row \<and>
         er_language row = jr_Language q \<and> er_source_code row = jr_SourceCode q \<and>
         elems (unmarshal (er_inputs row)) = map to_valid_utf8 (elems (jr_Inputs q)))) \<and>
    (\<forall>s. accepted_submission rep = Some s \<longrightarrow>
      (\<exists>p q t k. submission_asked A r = Some (p, q) \<and>
         find_row sb_ID (sb_ID s) (db_submissions (wd_db (fst s2))) = Some t \<and>
         sb_UserID t = cs_UserID q \<and> sb_Language t = cs_Language q \<and> sb_SourceCode t = cs_SourceCode q \<and>
         db_uuid_in (wd_db (fst s2)) p = Some k \<and> db_uuid_in (wd_db (fst s2)) k = Some (sb_ProblemID t)))"
proof -
  let ?F = "fleet_pools Ds" and ?N = "length (db_test_cases (wd_db w))"
  note inv = fleet_reachable [OF assms(1,2)]
  with assms(3) have "running_inv ?F ?N (at_work (fst s1) (lp_workers p) (lp_calls p))"
    by (simp add: fleet_inv_def process_inv_def)
  with assms(4) have "call_ok ?F ?N (fst s1) (Serving A r (Answer (Answered rep)))"
    unfolding running_inv_def at_work_sel by blast
  then have "kept A r (Answered rep) (wd_db (fst s1))" by (simp add: world_moves_def)
  moreover have "moves ?F ?N (wd_db (fst s1)) (wd_db (fst s2))" using fleet_steps_inv [OF assms(5) inv] by blast
  ultimately have "promised A r rep (wd_db (fst s2))" using promised_moves by (auto simp: kept_def)
  then show ?thesis by (rule promised_rows)
qed



section \<open>Examples\<close>

text \<open>
  A machine on which one process starts, completes the job of the database and crashes.
\<close>

lemma fleet_example:
  "\<exists>w1 p r. (fleet_step {talking_deps})\<^sup>*\<^sup>* (queued_world, []) (w1, [p]) \<and>
     find_row er_id ''exec_1'' (db_executions (wd_db w1)) = Some r \<and> er_job_status r = JobCompleted"
proof -
  obtain lg sv st1 wk w1 ths r where b: "boot talking_deps (url_only ''u'') ''7'' queued_state = (Launched lg (standard_config ''u'' ''7'') sv, st1)"
    and wk: "sv_worker sv = Some wk"
    and reach: "(access_step (wk_pool wk) (wk_sweep wk))\<^sup>*\<^sup>* (at_work (ps_world st1) [] []) (at_work w1 (map idle ths) [])"
    and r: "find_row er_id ''exec_1'' (db_executions (wd_db w1)) = Some r" "er_job_status r = JobCompleted"
    using talking_run by blast
  from launch_and_run [OF singletonI b wk reach, of "[]"] r show ?thesis by (auto simp: queued_state_def)
qed

lemma crash: "fleet_step Ds (w, [p]) (w, [])"
  using fleet_step.die [of Ds w "[]" p "[]"] by simp

theorem fleet_success_ran_in_sandbox_witness:
  "\<exists>s r rs. (fleet_step {talking_deps})\<^sup>*\<^sup>* (queued_world, []) s \<and> r \<in> set (db_executions (wd_db (fst s))) \<and>
     er_job_status r = JobCompleted \<and> er_results r = Some (marshal enc_result rs) \<and>
     length (elems rs) = length (elems (unmarshal (er_inputs r)))"
proof -
  obtain w1 p r where s: "(fleet_step {talking_deps})\<^sup>*\<^sup>* (queued_world, []) (w1, [p])"
    and f: "find_row er_id ''exec_1'' (db_executions (wd_db w1)) = Some r" and c: "er_job_status r = JobCompleted"
    using fleet_example by blast
  have m: "r \<in> set (db_executions (wd_db (fst (w1, [p]))))" using find_row_SomeD [OF f] by simp
  from fleet_success_ran_in_sandbox [OF starting_example s m c] obtain rs where
    "er_results r = Some (marshal enc_result rs)" "length (elems rs) = length (elems (unmarshal (er_inputs r)))" by blast
  with s m c show ?thesis by blast
qed

theorem fleet_refines_machine_witness:
  "\<exists>w1 b. (fleet_step {talking_deps})\<^sup>*\<^sup>* (queued_world, []) (w1, []) \<and> job_in (wd_db w1) ''exec_1'' = Some b \<and>
     (job_step 5)\<^sup>*\<^sup>* (PQueued, 0) b"
proof -
  obtain w1 p where s: "(fleet_step {talking_deps})\<^sup>*\<^sup>* (queued_world, []) (w1, [p])" using fleet_example by blast
  then have d: "(fleet_step {talking_deps})\<^sup>*\<^sup>* (queued_world, []) (w1, [])"
    using crash by (rule rtranclp.rtrancl_into_rtrancl)
  have "budget_in (wd_db queued_world) ''exec_1'' = 5"
    by (simp add: budget_in_def queued_world_def example_defs)
  with fleet_refines_machine [OF starting_example rtranclp.rtrancl_refl d, of "''exec_1''" "(PQueued, 0)"] d show ?thesis
    by (auto simp: queued_job_in)
qed

text \<open>The process crashes, and a new one starts over what it left.\<close>

lemma restart_example: "\<exists>w2 p2. (fleet_step {talking_deps})\<^sup>*\<^sup>* (w1, [p]) (w2, [p2])"
proof -
  obtain lg sv st2 where "boot talking_deps (url_only ''u'') ''7'' (queued_state\<lparr>ps_world := w1\<rparr>) =
      (Launched lg (standard_config ''u'' ''7'') sv, st2)" using talking_boot by blast
  from fleet_step.launch [OF singletonI this, of "[]"] show ?thesis
    using crash by (auto intro: converse_rtranclp_into_rtranclp)
qed

theorem fleet_results_stay_witness:
  "\<exists>w1 p r w2 p2 q. (fleet_step {talking_deps})\<^sup>*\<^sup>* (queued_world, []) (w1, [p]) \<and>
     find_row er_id ''exec_1'' (db_executions (wd_db w1)) = Some r \<and> er_job_status r = JobCompleted \<and>
     (fleet_step {talking_deps})\<^sup>*\<^sup>* (w1, [p]) (w2, [p2]) \<and>
     find_row er_id ''exec_1'' (db_executions (wd_db w2)) = Some q \<and> er_results q = er_results r"
proof -
  obtain w1 p r where s: "(fleet_step {talking_deps})\<^sup>*\<^sup>* (queued_world, []) (w1, [p])"
    and f: "find_row er_id ''exec_1'' (db_executions (wd_db (fst (w1, [p])))) = Some r" and c: "er_job_status r = JobCompleted"
    using fleet_example by auto
  obtain w2 p2 where d: "(fleet_step {talking_deps})\<^sup>*\<^sup>* (w1, [p]) (w2, [p2])" using restart_example by blast
  from fleet_results_stay [OF starting_example s d f] c obtain q where
    "find_row er_id ''exec_1'' (db_executions (wd_db w2)) = Some q" "er_results q = er_results r" by auto
  with s f c d show ?thesis by (simp only: fst_conv) blast
qed

theorem accepted_work_survives_crashes_witness:
  "\<exists>w1 row. (fleet_step {deps_example None})\<^sup>*\<^sup>* (shop_world [], []) (w1, []) \<and>
     find_row er_id ''exec_1'' (db_executions (wd_db w1)) = Some row \<and> er_language row = ''python''"
proof -
  let ?r = "request_to ''POST'' [''api'', ''v1'', ''executions'']" and ?Ds = "{deps_example None}"
  let ?rep = "JsonReply True (Some 202) (AcceptedValue ''exec_1'' JobQueued)"
  have c: "load_config (url_only ''u'') ''7'' = Inr (standard_config ''u'' ''7'')" by (rule load_url_only) simp
  obtain lg sv st1 where b: "boot (deps_example None) (url_only ''u'') ''7'' fresh_state = (Launched lg (standard_config ''u'' ''7'') sv, st1)"
    using boot_answers [OF c] example_answers by blast
  from launched_role [OF b] obtain wk where wk: "sv_worker sv = Some wk" by (auto simp: role_started_def standard_config_def)
  let ?w = "(ps_world st1)\<lparr>wd_db := (wd_db (ps_world st1))\<lparr>db_script := []\<rparr>, wd_queue := (0, []), wd_host := 1\<rparr>"
  have "later (wd_db (ps_world st1)) ((wd_db (ps_world st1))\<lparr>db_script := []\<rparr>)" by (simp add: later_def)
  note o = access_step.outside [OF this, of "wk_pool wk" "wk_sweep wk" "[]" "[]" 1 "(0, [])"]
  have "db_executions (wd_db ?w) = []"
    using boot_keeps [OF b] by (simp add: fresh_state_def shop_world_def database_example_def)
  then obtain w1 where "(access_step (wk_pool wk) (wk_sweep wk))\<^sup>*\<^sup>* (at_work ?w [] [])
      (at_work w1 [] [Serving api_example ?r (Answer (Answered ?rep))])"
    using accepted_schedule [of ?w] by auto
  with o have "(access_step (wk_pool wk) (wk_sweep wk))\<^sup>*\<^sup>* (at_work (ps_world st1) [] [])
      (at_work w1 [] [Serving api_example ?r (Answer (Answered ?rep))])"
    by (meson converse_rtranclp_into_rtranclp)
  from launch_and_run [OF singletonI b wk this, of "[]"] obtain p where
    s1: "(fleet_step ?Ds)\<^sup>*\<^sup>* (shop_world [], []) (w1, [p])"
    and p: "Serving api_example ?r (Answer (Answered ?rep)) \<in> set (lp_calls p)" by (auto simp: fresh_state_def)
  have d: "(fleet_step ?Ds)\<^sup>*\<^sup>* (w1, [p]) (w1, [])" using crash by (rule r_into_rtranclp)
  have st: "starting (at_work (shop_world []) [] [])"
    by (simp add: starting_def fresh_start_def shop_world_def database_example_def table_ok_def)
  have "mux_lookup api_routes ?r = Route Execute []"
    by (simp add: mux_lookup_def request_to_def route_defs match_path_def method_matches_def)
  then have q: "job_asked api_example ?r = Some job_request_example"
    by (simp add: job_asked_def api_example_def)
  have "\<exists>q row. job_asked api_example ?r = Some q \<and> find_row er_id ''exec_1'' (db_executions (wd_db w1)) = Some row \<and>
      er_language row = jr_Language q"
    using accepted_work_survives_crashes [OF st s1 _ p d] by (auto simp del: split_paired_Ex)
  with s1 d q show ?thesis by (auto simp: job_request_example_def intro: rtranclp_trans)
qed



end
