(* ===== verification/Spec2Isabelle.thy ===== *)
theory Spec2Isabelle
  imports Compare Exec_Service Job_Refinement Job_Service Pending Judge_Engine Worker System Config Logging Http Api
    Api_Contract Live_Updates Analyzer Boot Boot_Contract Proc_Group Executor_Interface Store_Interface Queue_Interface
    Repository_Interface Resumption Tasks Catalog Interleaving Interference Interleaving_Contract Running_Jobs Progress Whole_Program
    Fleet Fleet_Contract
begin

text \<open>
  Codera is a code-execution service, written in Go under \<^verbatim>\<open>src/backend\<close>. One binary (\<^verbatim>\<open>cmd/api/main.go\<close>)
  plays the roles \<open>api\<close>, \<open>worker\<close> or both. The API stores jobs (a program with inputs) and submissions (a
  program for a problem) in PostgreSQL and adds their ids to a Redis stream; workers read the stream, claim
  a job in its table under a lease, run its program in a Docker container, store the results, publish
  updates that web sockets forward, and acknowledge the message. Recovery services requeue the jobs of dead
  workers, dispatch queued jobs again and sweep over messages nobody acknowledged.

  \<^bold>\<open>Parts and theories\<close> (paths below \<^verbatim>\<open>src/backend/internal\<close>).

  \<^item> \<^verbatim>\<open>Prelude\<close>: errors as values, tables as lists of rows with keyed updates, the collections
    \<open>table_simps\<close> and others. \<^verbatim>\<open>Go_Text\<close>, \<^verbatim>\<open>Go_Float\<close>, \<^verbatim>\<open>Go_Num\<close>: the functions of the standard library the
    program calls (UTF-8, trimming, splitting, \<^verbatim>\<open>float64\<close> with rounding, \<^verbatim>\<open>ParseInt\<close>, \<^verbatim>\<open>ParseDuration\<close> with
    the wrap-around of its \<^verbatim>\<open>uint64\<close>).
  \<^item> \<^verbatim>\<open>Domain\<close> (\<^verbatim>\<open>domain\<close>), \<^verbatim>\<open>Compare\<close> (\<^verbatim>\<open>judge/comparator.go\<close>): the data; the comparators with an independent
    specification of the whitespace comparison by lines.
  \<^item> \<^verbatim>\<open>Bounded_Writer\<close>, \<^verbatim>\<open>Proc\<close> (\<^verbatim>\<open>platform/process\<close>), \<^verbatim>\<open>Sandbox\<close> (\<^verbatim>\<open>sandbox\<close>), \<^verbatim>\<open>Classify\<close>
    (\<^verbatim>\<open>sandbox/classifier\<close>), \<^verbatim>\<open>Languages\<close> (\<^verbatim>\<open>language\<close>), \<^verbatim>\<open>Exec_Service\<close> (\<^verbatim>\<open>execution\<close>): one run of one program.
    What Docker, the operating system and the file system answer is the record \<open>os_host\<close>; that every
    container and directory is given back is stated on a log beside it (locale \<open>resource_host\<close>).
    \<^verbatim>\<open>Executor_Interface\<close>: the interfaces \<^verbatim>\<open>LanguageExecutor\<close> and \<^verbatim>\<open>Registry\<close> as records of methods and the service
    that calls them (locale \<open>open_service\<close>, for any executors that keep \<open>executor_contract\<close>), equal to the
    function over the datatype of the five executors.
    \<^verbatim>\<open>Proc_Group\<close> (\<^verbatim>\<open>process_linux.go\<close>, \<^verbatim>\<open>process_windows.go\<close>): the process group of a run over a table of
    processes that fork, exit and leave their group.
  \<^item> \<^verbatim>\<open>Job_Model\<close> (\<^verbatim>\<open>jobs/job.go\<close>, \<^verbatim>\<open>memory_store.go\<close>), \<^verbatim>\<open>Database\<close>, \<^verbatim>\<open>Job_Store\<close> (\<^verbatim>\<open>jobs/postgres_store.go\<close>),
    \<^verbatim>\<open>Recovery\<close> (\<^verbatim>\<open>recovery\<close>, \<^verbatim>\<open>worker/heartbeat.go\<close>), \<^verbatim>\<open>Repositories\<close> (\<^verbatim>\<open>repository\<close>): one definition per SQL
    statement (its WHERE, its SET) and one per method. A script in the state of the database says for each
    statement how long it takes and whether it is applied, refused, or applied with its reply lost.
  \<^item> \<^verbatim>\<open>Job_Spec\<close>, \<^verbatim>\<open>Job_Refinement\<close>: the abstract life of a job (locale \<open>job_machine\<close>), and the simulation that
    every operation on the tables, under every script, moves the rows by its steps.
  \<^item> \<^verbatim>\<open>Msg_Queue\<close> (\<^verbatim>\<open>queue\<close>), \<^verbatim>\<open>Job_Service\<close> (\<^verbatim>\<open>jobs/service.go\<close>), \<^verbatim>\<open>Pending\<close> (\<^verbatim>\<open>jobs/pending_recovery.go\<close>): the
    stream; Redis is a record of functions, \<open>logged_redis\<close> keeps what it was asked.
  \<^item> \<^verbatim>\<open>Store_Interface\<close> (\<^verbatim>\<open>jobs/store.go\<close>), \<^verbatim>\<open>Queue_Interface\<close> (\<^verbatim>\<open>queue/queue.go\<close>),
    \<^verbatim>\<open>Repository_Interface\<close> (\<^verbatim>\<open>repository\<close>): the interfaces of Go as records of functions, with what they
    promise as the locales \<open>job_store_contract\<close>, \<open>job_queue_contract\<close>, \<open>entity_repository\<close> (shared by
    problems and submissions) and \<open>test_list\<close>, interpreted on the PostgreSQL
    repositories, on the PostgreSQL store and on the Redis queue (and, for \<^verbatim>\<open>Create\<close> and \<^verbatim>\<open>Get\<close>,
    on the in-memory store).
  \<^item> \<^verbatim>\<open>Judge_Engine\<close> (\<^verbatim>\<open>judge/engine.go\<close>), \<^verbatim>\<open>Analyzer\<close> (\<^verbatim>\<open>ai\<close>): judging a submission; reading the answer of the
    generative model.
  \<^item> \<^verbatim>\<open>Worker\<close> (\<^verbatim>\<open>worker/pool.go\<close>): a goroutine as a program counter with one access to shared state per step,
    and the run of a message without interruption. \<^verbatim>\<open>System\<close> interleaves the steps of all workers with lease
    renewal, cancellation, panics, crashes, heartbeats and the outside world; a request of the API, a tick
    of the recovery service and a sweep are one step each. Its invariant and reachability are by rule
    induction.
  \<^item> \<^verbatim>\<open>Resumption\<close>, \<^verbatim>\<open>Tasks\<close>: an operation that accesses the shared state several times as a task, what it does
    next and what is left of it; each task of a handler, tick, sweep and judgement is shown to be the operation
    of its component when nobody interferes. \<^verbatim>\<open>Catalog\<close>: problems, test cases and submissions under all
    operations. \<^verbatim>\<open>Interference\<close>: what a task may rely on and what it guarantees (locale \<open>interference\<close>,
    interpreted on the changes \<open>world_moves\<close> that every access of the program makes). \<^verbatim>\<open>Interleaving\<close>: the
    running system with one access per step, of which every run of \<^verbatim>\<open>System\<close> is a schedule;
    \<^verbatim>\<open>Interleaving_Contract\<close>: its invariant and the properties of every reachable state; \<^verbatim>\<open>Running_Jobs\<close>: the
    running system refines the job machine (a second interpretation of \<open>job_machine\<close>); \<^verbatim>\<open>Progress\<close>: from every
    reachable state an unfinished job can still be completed.
  \<^item> \<^verbatim>\<open>Config\<close> (\<^verbatim>\<open>config\<close>), \<^verbatim>\<open>Logging\<close> (\<^verbatim>\<open>platform/logger\<close>), \<^verbatim>\<open>Boot\<close> (\<^verbatim>\<open>cmd/api/main.go\<close>, \<^verbatim>\<open>db\<close>): from the
    environment to running services and to the exit code; \<^verbatim>\<open>Boot_Contract\<close> has its properties;
    \<^verbatim>\<open>Whole_Program\<close> follows a launched process through its interleavings to the rows of the database.
    \<^verbatim>\<open>Fleet\<close>: a deployment of many processes over one database and one Redis, which start at any time (by
    \<open>boot\<close>), run side by side and crash; the invariants of the running system are stated for a set of pools, so
    that they hold across processes and their lives. \<^verbatim>\<open>Fleet_Contract\<close>: what holds of every deployment, with a
    third interpretation of \<open>job_machine\<close>.
  \<^item> \<^verbatim>\<open>Http\<close> (\<^verbatim>\<open>platform/http\<close>), \<^verbatim>\<open>Api\<close> (\<^verbatim>\<open>server\<close>): middleware as functions on handlers, the matching of routes,
    one definition per handler; \<^verbatim>\<open>Api_Contract\<close> has its properties. \<^verbatim>\<open>Live_Updates\<close> (\<^verbatim>\<open>server/ws_handler.go\<close>):
    the two sockets over the list of events they receive (locale \<open>live_socket\<close>, interpreted for both).

  \<^bold>\<open>What the lemmas show.\<close> For the operations on jobs: the refinement of the job machine, mutual exclusion of
  workers, what comes back from the stores. For the whole program, in every state that any interleaving of
  the accesses of workers, judgements, requests, recovery and sweeps with any failures of the database and
  Redis can reach, in one process and in a deployment of many that crash and start again: jobs live by the
  job machine, finished jobs are final, attempts are bounded and every job comes to rest, and a job that is
  not finished and has an attempt left can still be completed; stored results are those of runs of the stored
  program, a stored success ran in a hardened container, a worker acknowledges a run only when it is finished,
  accepted work stays in the database, and the verdict of a completed submission is the judge's. For runs: nothing is left behind on any
  path, success means a clean run, output is cut at its limits, an ended run takes its processes with it. For
  submissions: the verdict is that of the first failing test and is stored. For the API: hidden test cases
  cannot be observed, accepted work is stored and queued and can be fetched, every request is answered and
  logged; a watched run is streamed to its end. For the process: settings that load are valid, a role starts
  exactly its services, a signal stops them in order. A group of theorems shows where the code falls short of
  what it means to do; each names the condition under which it does.

  \<^bold>\<open>Bounds and fuel.\<close> Machine integers are words of their width; times in the database are microseconds and
  durations nanoseconds. \<open>consume\<close>, \<open>worker_loop\<close> and \<open>run_recovery\<close> take fuel, one unit per round: they are
  shown to return with one more unit than the rounds until the flag of the queue (or of the pool) is seen
  set, and the sweep with one more than the cursors left, where every page of Redis moves the cursor on; more
  fuel does not change what \<open>consume\<close> returns. \<open>process\<close> terminates by a measure on program counters.

  \<^bold>\<open>Not modelled.\<close> The JSON codec, Redis, PostgreSQL beyond the statements above, Docker, \<^verbatim>\<open>net/http\<close> beyond
  routing and headers, \<^verbatim>\<open>taskkill\<close> of Windows and the generative model are parameters. Durations in log lines,
  log lines inside the services, what the time-outs of the HTTP server do to a connection, the SQL of the
  migrations and errors of writing the seccomp file are left out: they are input and output around what is
  modelled. The engine and the API take an analyzer that returns; the panic of \<^verbatim>\<open>Analyzer\<close> is shown there
  only. The run of a program in its own container, and the judge's runs over the test cases it has fetched,
  are one access of the host each: they touch nothing another part of the program reads. The web sockets are
  not steps of the running system, since they change nothing. The machines of a deployment share one component
  for the state of their hosts, which the outside may set to anything at any time. That the kernel reuses the id of a process
  that is gone is not modelled.
\<close>

end
